(* ===== verification/Kernel_Prelude.thy ===== *)
theory Kernel_Prelude
  imports Main "HOL-Library.Word"
begin

text \<open>
  Shared vocabulary of the development: machine types, errno values, error pointers, the
  conversions C performs between integer types, generic lemmas on lists and words, and the
  generic step system from which every state machine of the development (worker threads,
  credentials, process groups, resource limits) gets its run and invariant lemmas.
\<close>

unbundle bit_operations_syntax

named_theorems kernel_simps \<open>equations that evaluate the kernel model on constructors\<close>
named_theorems fits_intros \<open>facts that a printed text fits its buffer\<close>

subsection \<open>Machine types\<close>

type_synonym u8 = "8 word"
type_synonym u16 = "16 word"
type_synonym u32 = "32 word"
type_synonym u64 = "64 word"
type_synonym bytes = "u8 list"

text \<open>
  C's \<open>int\<close> and \<open>long\<close> values that are only compared, returned or added within range are
  \<open>int\<close>; the conversions that can change a value are written out with the functions below.
  \<open>c_int\<close> is the conversion of any integer to a 32-bit \<open>int\<close> (two's complement, as gcc
  defines it), \<open>size_of_int\<close> the conversion of an \<open>int\<close> to \<open>size_t\<close>.
\<close>

definition c_int :: "int \<Rightarrow> int" where
  "c_int r = sint (word_of_int r :: u32)"

definition size_of_int :: "int \<Rightarrow> u64" where
  "size_of_int n = word_of_int n"

lemma c_int_id [simp]: "- (2 ^ 31) \<le> r \<Longrightarrow> r < 2 ^ 31 \<Longrightarrow> c_int r = r"
  by (simp add: c_int_def sint_sbintrunc' signed_take_bit_int_eq_self)

lemma unat_size_of_int:
  assumes "0 \<le> n" and "n < 2 ^ 63"
  shows "unat (size_of_int n) = nat n"
proof -
  have "n < 2 ^ 64" using assms by simp
  then have "uint (size_of_int n) = n"
    using assms by (simp add: size_of_int_def uint_word_of_int)
  then show ?thesis by (metis unat_eq_nat_uint)
qed

subsection \<open>errno values and error pointers\<close>

abbreviation EPERM :: int where "EPERM \<equiv> 1"
abbreviation ENOENT :: int where "ENOENT \<equiv> 2"
abbreviation ESRCH :: int where "ESRCH \<equiv> 3"
abbreviation EINTR :: int where "EINTR \<equiv> 4"
abbreviation EBADF :: int where "EBADF \<equiv> 9"
abbreviation EAGAIN :: int where "EAGAIN \<equiv> 11"
abbreviation ENOMEM :: int where "ENOMEM \<equiv> 12"
abbreviation EACCES :: int where "EACCES \<equiv> 13"
abbreviation EFAULT :: int where "EFAULT \<equiv> 14"
abbreviation EINVAL :: int where "EINVAL \<equiv> 22"
abbreviation ENOSYS :: int where "ENOSYS \<equiv> 38"

text \<open>
  A pointer returned with the \<open>ERR_PTR\<close> convention: \<open>Inl e\<close> is \<open>ERR_PTR(e)\<close> (so \<open>IS_ERR\<close>
  holds and \<open>PTR_ERR\<close> gives \<open>e\<close>), \<open>Inr p\<close> is the pointer \<open>p\<close>.
\<close>

type_synonym 'a errptr = "int + 'a"

abbreviation IS_ERR :: "'a errptr \<Rightarrow> bool" where "IS_ERR x \<equiv> isl x"

text \<open>
  Some statements of the source trap instead of returning (a division by zero, a read
  through an invalid pointer). An operation that can do so returns an \<open>'a outcome\<close>.
\<close>

datatype 'a outcome = Oops | Done (result: 'a)

subsection \<open>Memory statistics of the kernel\<close>

text \<open>
  \<open>struct sysinfo\<close>, filled by \<open>si_meminfo\<close> and \<open>si_swapinfo\<close> (\<open>unsigned long\<close> counters in
  units of \<open>mem_unit\<close> bytes), and the page size of the x86-64 build.
\<close>

record sysinfo =
  si_uptime :: int
  si_loads :: "u64 list"
  si_totalram :: u64
  si_freeram :: u64
  si_sharedram :: u64
  si_bufferram :: u64
  si_totalswap :: u64
  si_freeswap :: u64
  si_procs :: u16
  si_totalhigh :: u64
  si_freehigh :: u64
  si_mem_unit :: u32

definition PAGE_SHIFT :: nat where "PAGE_SHIFT = 12"
definition PAGE_SIZE :: u64 where "PAGE_SIZE = 4096"

subsection \<open>Step systems and invariants\<close>

text \<open>
  The interface every state machine of the development provides: a step relation and an
  invariant each step keeps. What the clients use is the closure: the invariant holds
  after any finite sequence of steps.
\<close>

inductive reach :: "('s \<Rightarrow> 's \<Rightarrow> bool) \<Rightarrow> 's \<Rightarrow> 's \<Rightarrow> bool" for step :: "'s \<Rightarrow> 's \<Rightarrow> bool" where
  reach_refl: "reach step s s"
| reach_step: "reach step s t \<Longrightarrow> step t u \<Longrightarrow> reach step s u"

lemma reach_one: "step s t \<Longrightarrow> reach step s t"
  by (rule reach_step [OF reach_refl])

lemma reach_trans:
  assumes "reach step t u" and "reach step s t"
  shows "reach step s u"
  using assms by (induction rule: reach.induct) (auto intro: reach_step)

locale step_system =
  fixes step :: "'s \<Rightarrow> 's \<Rightarrow> bool" and inv :: "'s \<Rightarrow> bool"
  assumes step_keeps: "inv s \<Longrightarrow> step s t \<Longrightarrow> inv t"
begin

lemma reach_keeps:
  assumes "reach step s t" and "inv s"
  shows "inv t"
  using assms by (induction rule: reach.induct) (auto intro: step_keeps)

end

text \<open>
  Runs of a given number of steps, and the interface of a machine that cannot run for ever:
  a potential every step decreases.
\<close>

inductive steps :: "('s \<Rightarrow> 's \<Rightarrow> bool) \<Rightarrow> nat \<Rightarrow> 's \<Rightarrow> 's \<Rightarrow> bool" for step :: "'s \<Rightarrow> 's \<Rightarrow> bool" where
  steps_none: "steps step 0 s s"
| steps_more: "steps step k s t \<Longrightarrow> step t u \<Longrightarrow> steps step (Suc k) s u"

lemma steps_reach: "steps step k s t \<Longrightarrow> reach step s t"
  by (induction rule: steps.induct) (auto intro: reach.intros)

lemma reach_steps: "reach step s t \<Longrightarrow> \<exists>k. steps step k s t"
  by (induction rule: reach.induct) (blast intro: steps.intros)+

locale bounded_system = step_system step inv
  for step :: "'s \<Rightarrow> 's \<Rightarrow> bool" and inv :: "'s \<Rightarrow> bool" +
  fixes potential :: "'s \<Rightarrow> nat"
  assumes step_decreases: "inv s \<Longrightarrow> step s t \<Longrightarrow> potential t < potential s"
begin

lemma run_bounded:
  assumes "steps step k s t" and "inv s"
  shows "k + potential t \<le> potential s"
  using assms
proof (induction rule: steps.induct)
  case (steps_more k s t u)
  have "inv t" using reach_keeps [OF steps_reach [OF steps_more(1)]] steps_more(4) by blast
  then show ?case using step_decreases [OF _ steps_more(2)] steps_more by fastforce
qed simp

end

subsection \<open>Words\<close>

lemma unat_Suc_less:
  fixes i e :: "'a::len word"
  assumes "i < e"
  shows "unat (i + 1) = Suc (unat i)"
proof -
  have "unat i < unat e" using assms by (simp add: word_less_nat_alt)
  moreover have "unat e < 2 ^ LENGTH('a)" by simp
  ultimately have "Suc (unat i) < 2 ^ LENGTH('a)" by linarith
  then have "unat (1 + i) = 1 + unat i"
    using unat_add_lem [of 1 i] by simp
  then show ?thesis by (simp add: add.commute)
qed

lemma unat_mult_small:
  fixes a b :: u64
  shows "unat a * unat b < 2 ^ 64 \<Longrightarrow> unat (a * b) = unat a * unat b"
  using unat_mult_lem [of a b] by simp

lemma unat_add_small:
  fixes a b :: u64
  shows "unat a + unat b < 2 ^ 64 \<Longrightarrow> unat (a + b) = unat a + unat b"
  using unat_add_lem [of a b] by simp

lemma unat_diff_le:
  fixes a b :: u64
  shows "unat b \<le> unat a \<Longrightarrow> unat (a - b) = unat a - unat b"
  by (simp add: unat_sub word_le_nat_alt)

lemma unat_less_2_64 [simp]: "unat (w :: u64) < 18446744073709551616"
  using unsigned_less [of w] by simp

lemma unat_not_ge_2_64 [simp]: "\<not> 18446744073709551616 \<le> unat (w :: u64)"
  by (simp add: not_le)

end
