(* ===== verification/Text_Format.thy ===== *)
theory Text_Format
  imports Kernel_Prelude
begin

text \<open>
  The part of the C library the sources use to build and read text: \<open>snprintf\<close> into a
  fixed buffer, \<open>strlen\<close>, \<open>strncpy\<close>, and \<open>sscanf\<close> with \<open>%lu\<close>. A format string is
  kept as it stands in the source and split into items by \<open>fmt_items\<close>. Buffers are lists
  of \<open>char option\<close>: \<open>None\<close> is a byte never written, so copying an uninitialised tail out
  of a buffer is visible in the model.
\<close>

named_theorems text_eval \<open>equations that evaluate a closed format string\<close>

subsection \<open>Characters and decimal numbers\<close>

abbreviation NUL :: char where "NUL \<equiv> CHR 0x00"

definition is_digit :: "char \<Rightarrow> bool" where
  "is_digit c \<longleftrightarrow> 48 \<le> (of_char c :: nat) \<and> (of_char c :: nat) \<le> 57"

definition is_space :: "char \<Rightarrow> bool" where
  "is_space c \<longleftrightarrow> (of_char c :: nat) = 32 \<or> (9 \<le> (of_char c :: nat) \<and> (of_char c :: nat) \<le> 13)"

definition digit_char :: "nat \<Rightarrow> char" where
  "digit_char d = char_of (48 + d)"

definition char_digit :: "char \<Rightarrow> nat" where
  "char_digit c = (of_char c :: nat) - 48"

fun dec :: "nat \<Rightarrow> string" where
  "dec n = (if n < 10 then [digit_char n] else dec (n div 10) @ [digit_char (n mod 10)])"

declare dec.simps [simp del]

definition dec_int :: "int \<Rightarrow> string" where
  "dec_int i = (if i < 0 then CHR ''-'' # dec (nat (- i)) else dec (nat i))"

definition digits_val :: "string \<Rightarrow> nat" where
  "digits_val s = foldl (\<lambda>a c. 10 * a + char_digit c) 0 s"

lemma of_char_digit_char: "d < 10 \<Longrightarrow> (of_char (digit_char d) :: nat) = 48 + d"
  by (simp add: digit_char_def)

lemma digit_char_is_digit [simp]: "d < 10 \<Longrightarrow> is_digit (digit_char d)"
  by (simp add: is_digit_def of_char_digit_char)

lemma char_digit_digit_char [simp]: "d < 10 \<Longrightarrow> char_digit (digit_char d) = d"
  by (simp add: char_digit_def of_char_digit_char)

lemma digit_not_space: "is_digit c \<Longrightarrow> \<not> is_space c"
  by (auto simp: is_digit_def is_space_def)

lemma dec_not_Nil [simp]: "dec n \<noteq> []"
  by (subst dec.simps) simp

lemma dec_digits: "c \<in> set (dec n) \<Longrightarrow> is_digit c"
proof (induction n rule: dec.induct)
  case (1 n)
  show ?case
  proof (cases "n < 10")
    case True
    then show ?thesis using 1 by (simp add: dec.simps [of n])
  next
    case False
    then show ?thesis using 1 by (auto simp: dec.simps [of n])
  qed
qed

lemma digits_val_append: "digits_val (s @ [c]) = 10 * digits_val s + char_digit c"
  by (simp add: digits_val_def)

lemma digits_val_dec [simp]: "digits_val (dec n) = n"
proof (induction n rule: dec.induct)
  case (1 n)
  show ?case
  proof (cases "n < 10")
    case True
    then show ?thesis by (simp add: dec.simps [of n] digits_val_def)
  next
    case False
    then have "digits_val (dec n) = 10 * (n div 10) + n mod 10"
      using 1 by (simp add: dec.simps [of n] digits_val_append)
    then show ?thesis by simp
  qed
qed

lemma length_dec: "n < 10 ^ Suc k \<Longrightarrow> length (dec n) \<le> Suc k"
proof (induction k arbitrary: n)
  case 0
  then show ?case by (simp add: dec.simps [of n])
next
  case (Suc k)
  show ?case
  proof (cases "n < 10")
    case True
    then show ?thesis by (simp add: dec.simps [of n])
  next
    case False
    have "n div 10 < 10 ^ Suc k"
      using Suc.prems by (simp add: less_mult_imp_div_less)
    then have "length (dec (n div 10)) \<le> Suc k" by (rule Suc.IH)
    with False show ?thesis by (simp add: dec.simps [of n])
  qed
qed

lemma length_dec_u64: "length (dec (unat (w :: u64))) \<le> 20"
proof -
  have "unat w < 2 ^ 64" using unsigned_less [of w] by simp
  then have "unat w < 10 ^ Suc 19" by (rule less_trans) simp
  then show ?thesis using length_dec [of "unat w" 19] by simp
qed

lemma length_dec_int:
  assumes "- (2 ^ 31) \<le> i" and "i < 2 ^ 31"
  shows "length (dec_int i) \<le> 11"
proof -
  have "nat \<bar>i\<bar> < 10 ^ Suc 9" using assms by (auto simp: abs_if)
  then have "length (dec (nat \<bar>i\<bar>)) \<le> 10" using length_dec [of "nat \<bar>i\<bar>" 9] by simp
  then show ?thesis by (auto simp: dec_int_def abs_if split: if_splits)
qed

lemma dec_no_nul: "NUL \<notin> set (dec n)"
  using dec_digits [of NUL n] by (auto simp: is_digit_def)

subsection \<open>Format strings\<close>

datatype fitem = FCh char | FLu | FD | FS
datatype farg = LU u64 | D int | S string

text \<open>
  The conversions the sources use: \<open>%lu\<close>, \<open>%d\<close> and \<open>%ld\<close> (signed, the argument carries its
  value), \<open>%s\<close>, \<open>%%\<close>.
\<close>

fun fmt_items :: "string \<Rightarrow> fitem list" where
  "fmt_items [] = []"
| "fmt_items (c # s) =
     (if c = CHR ''%'' then
        (case s of
           d # s' \<Rightarrow>
             if d = CHR ''d'' then FD # fmt_items s'
             else if d = CHR ''s'' then FS # fmt_items s'
             else if d = CHR ''%'' then FCh d # fmt_items s'
             else (case s' of
                     e # s'' \<Rightarrow> if d = CHR ''l'' \<and> e = CHR ''u'' then FLu # fmt_items s''
                                else if d = CHR ''l'' \<and> e = CHR ''d'' then FD # fmt_items s''
                                else FCh c # fmt_items s
                   | [] \<Rightarrow> [FCh c, FCh d])
         | [] \<Rightarrow> [FCh c])
      else FCh c # fmt_items s)"

fun print_items :: "fitem list \<Rightarrow> farg list \<Rightarrow> string" where
  "print_items (FCh c # fs) as = c # print_items fs as"
| "print_items (FLu # fs) (LU w # as) = dec (unat w) @ print_items fs as"
| "print_items (FD # fs) (D i # as) = dec_int i @ print_items fs as"
| "print_items (FS # fs) (S t # as) = t @ print_items fs as"
| "print_items _ _ = []"

definition format_text :: "string \<Rightarrow> farg list \<Rightarrow> string" where
  "format_text f as = print_items (fmt_items f) as"

text \<open>The longest text a format can print, given a bound for each argument.\<close>

fun arg_max :: "farg \<Rightarrow> nat" where
  "arg_max (LU w) = 20"
| "arg_max (D i) = length (dec_int i)"
| "arg_max (S t) = length t"

definition lit_count :: "fitem list \<Rightarrow> nat" where
  "lit_count fs = length (filter (\<lambda>i. case i of FCh _ \<Rightarrow> True | _ \<Rightarrow> False) fs)"

lemma lit_count_simps [simp]:
  "lit_count [] = 0" "lit_count (FCh c # fs) = Suc (lit_count fs)"
  "lit_count (FLu # fs) = lit_count fs" "lit_count (FD # fs) = lit_count fs"
  "lit_count (FS # fs) = lit_count fs"
  by (simp_all add: lit_count_def)

lemma length_print_items:
  "length (print_items fs as) \<le> lit_count fs + sum_list (map arg_max as)"
proof (induction fs as rule: print_items.induct)
  case (2 fs w as)
  then show ?case using length_dec_u64 [of w] by simp
qed simp_all

lemma print_items_no_nul:
  "FCh NUL \<notin> set fs \<Longrightarrow> (\<And>t. S t \<in> set as \<Longrightarrow> NUL \<notin> set t) \<Longrightarrow>
   NUL \<notin> set (print_items fs as)"
  by (induction fs as rule: print_items.induct) (auto simp: dec_no_nul dec_int_def)

subsection \<open>Buffers\<close>

type_synonym cbuf = "char option list"

text \<open>
  \<open>snprintf_at buf off n s\<close> is \<open>snprintf(buf + off, n, \<dots>)\<close> for a text \<open>s\<close>: nothing is
  written when \<open>n = 0\<close>, otherwise at most \<open>n - 1\<close> characters and a terminating NUL.
  \<open>cstr\<close> reads the C string at the start of a buffer; it is \<open>None\<close> where the read would
  meet an uninitialised byte or leave the buffer before a NUL.
\<close>

definition snprintf_at :: "cbuf \<Rightarrow> nat \<Rightarrow> nat \<Rightarrow> string \<Rightarrow> cbuf" where
  "snprintf_at buf off n s =
     (if n = 0 then buf
      else let t = take (n - 1) s
           in take off buf @ map Some t @ [Some NUL] @ drop (off + length t + 1) buf)"

fun cstr :: "cbuf \<Rightarrow> string option" where
  "cstr [] = None"
| "cstr (None # b) = None"
| "cstr (Some c # b) = (if c = NUL then Some [] else map_option ((#) c) (cstr b))"

lemma cstr_text: "NUL \<notin> set t \<Longrightarrow> cstr (map Some t @ Some NUL # b) = Some t"
  by (induction t) auto

lemma cstr_SomeE:
  assumes "cstr b = Some t"
  obtains r where "b = map Some t @ Some NUL # r" and "NUL \<notin> set t"
proof -
  have "\<exists>r. b = map Some t @ Some NUL # r \<and> NUL \<notin> set t"
    using assms
  proof (induction b arbitrary: t rule: cstr.induct)
    case (3 c b)
    show ?case
    proof (cases "c = NUL")
      case True
      with 3 show ?thesis by auto
    next
      case False
      with 3 obtain u r where "t = c # u" "b = map Some u @ Some NUL # r" "NUL \<notin> set u"
        by auto
      with False show ?thesis by auto
    qed
  qed auto
  then show ?thesis using that by blast
qed

lemma length_snprintf_at:
  "off + n \<le> length buf \<Longrightarrow> length (snprintf_at buf off n s) = length buf"
  by (auto simp: snprintf_at_def Let_def)

text \<open>Appending at the current end of the string, the idiom \<open>snprintf(p + strlen(p), \<dots>)\<close>.\<close>

lemma cstr_snprintf_at_end:
  assumes "cstr b = Some pre" and "NUL \<notin> set s" and "0 < n"
  shows "cstr (snprintf_at b (length pre) n s) = Some (pre @ take (n - 1) s)"
proof -
  from assms(1) obtain r where b: "b = map Some pre @ Some NUL # r" and pre: "NUL \<notin> set pre"
    by (rule cstr_SomeE)
  have "take (length pre) b = map Some pre" by (simp add: b)
  then have "\<exists>q. snprintf_at b (length pre) n s = map Some (pre @ take (n - 1) s) @ Some NUL # q"
    using assms(3) by (simp add: snprintf_at_def Let_def)
  moreover have "NUL \<notin> set (pre @ take (n - 1) s)"
    using pre assms(2) by (auto dest: in_set_takeD)
  ultimately show ?thesis using cstr_text by fastforce
qed

lemma cstr_snprintf_at_0:
  "0 < n \<Longrightarrow> NUL \<notin> set s \<Longrightarrow> cstr (snprintf_at b 0 n s) = Some (take (n - 1) s)"
proof -
  assume n: "0 < n" and s: "NUL \<notin> set s"
  have "NUL \<notin> set (take (n - 1) s)" using s by (auto dest: in_set_takeD)
  then show ?thesis using n cstr_text [of "take (n - 1) s"] by (simp add: snprintf_at_def Let_def)
qed

text \<open>\<open>strncpy(dst, src, n)\<close> for a source string: the first \<open>n\<close> characters, padded with NUL.\<close>

definition strncpy_text :: "string \<Rightarrow> nat \<Rightarrow> string" where
  "strncpy_text s n = take n s @ replicate (n - length s) NUL"

definition text_upto_nul :: "string \<Rightarrow> string" where
  "text_upto_nul s = takeWhile (\<lambda>c. c \<noteq> NUL) s"

lemma length_strncpy_text [simp]: "length (strncpy_text s n) = n"
  by (simp add: strncpy_text_def)

lemma text_upto_nul_strncpy:
  assumes "NUL \<notin> set s" and "length s < n"
  shows "text_upto_nul (strncpy_text s n) = s"
proof -
  have "takeWhile (\<lambda>c. c \<noteq> NUL) (s @ t) = s" if "t = [] \<or> hd t = NUL" for t
    using assms(1) that by (induction s) (cases t, auto)
  then show ?thesis
    using assms(2) by (simp add: text_upto_nul_def strncpy_text_def)
qed

subsection \<open>Scanning\<close>

text \<open>
  \<open>sscanf\<close>: white space in the format skips any white space of the input, any other
  ordinary character must match, \<open>%lu\<close> skips white space and reads what \<open>strtoul\<close> reads
  (an optional sign, decimal digits, saturating at \<open>ULONG_MAX\<close>). The result is the list
  of values stored; scanning stops at the first directive that fails, and the remaining
  pointers keep whatever they held.
\<close>

definition scan_ulong :: "string \<Rightarrow> (u64 \<times> string) option" where
  "scan_ulong inp =
     (let s = dropWhile is_space inp;
          neg = (case s of c # _ \<Rightarrow> c = CHR ''-'' | [] \<Rightarrow> False);
          s' = (case s of c # r \<Rightarrow> if c = CHR ''-'' \<or> c = CHR ''+'' then r else s | [] \<Rightarrow> s);
          ds = takeWhile is_digit s';
          v = digits_val ds
      in if ds = [] then None
         else Some (if 2 ^ 64 \<le> v then - 1 else if neg then - of_nat v else of_nat v,
                    dropWhile is_digit s'))"

fun scan_items :: "fitem list \<Rightarrow> string \<Rightarrow> u64 list" where
  "scan_items [] inp = []"
| "scan_items (FCh d # fs) inp =
     (if is_space d then scan_items fs (dropWhile is_space inp)
      else (case inp of c # inp' \<Rightarrow> if c = d then scan_items fs inp' else [] | [] \<Rightarrow> []))"
| "scan_items (FLu # fs) inp =
     (case scan_ulong inp of Some (v, inp') \<Rightarrow> v # scan_items fs inp' | None \<Rightarrow> [])"
| "scan_items (_ # fs) inp = []"

definition sscanf_lu :: "string \<Rightarrow> string \<Rightarrow> u64 list" where
  "sscanf_lu inp f = scan_items (fmt_items f) inp"

text \<open>
  \<open>conv_count pf sf\<close> runs a scan format over a print format symbolically: how many values
  \<open>sscanf\<close> with \<open>sf\<close> stores when it reads a text printed with \<open>pf\<close>. It is a computation on
  the two format strings, so a printer and a scanner are compared by evaluating it.
\<close>

definition solid_start :: "fitem list \<Rightarrow> bool" where
  "solid_start fs = (case fs of FCh c # _ \<Rightarrow> \<not> is_space c | FLu # _ \<Rightarrow> True | [] \<Rightarrow> True | _ \<Rightarrow> False)"

definition digit_stop :: "fitem list \<Rightarrow> bool" where
  "digit_stop fs = (case fs of FCh c # _ \<Rightarrow> \<not> is_digit c | [] \<Rightarrow> True | _ \<Rightarrow> False)"

fun skip_space_items :: "fitem list \<Rightarrow> fitem list" where
  "skip_space_items (FCh c # fs) = (if is_space c then skip_space_items fs else FCh c # fs)"
| "skip_space_items fs = fs"

fun conv_count :: "fitem list \<Rightarrow> fitem list \<Rightarrow> nat option" where
  "conv_count pf [] = Some 0"
| "conv_count pf (FCh d # sf) =
     (if is_space d then
        (let pf' = skip_space_items pf in if solid_start pf' then conv_count pf' sf else None)
      else (case pf of
              FCh c # pf' \<Rightarrow> if c = d then conv_count pf' sf else Some 0
            | [] \<Rightarrow> Some 0
            | _ \<Rightarrow> None))"
| "conv_count pf (FLu # sf) =
     (case pf of
        FLu # pf' \<Rightarrow> if digit_stop pf' then map_option Suc (conv_count pf' sf) else None
      | _ \<Rightarrow> None)"
| "conv_count pf (_ # sf) = None"

abbreviation lu_text :: "fitem list \<Rightarrow> u64 list \<Rightarrow> string" where
  "lu_text pf ws \<equiv> print_items pf (map LU ws)"

lemma drop_spaces_print:
  "solid_start (skip_space_items pf) \<Longrightarrow>
   dropWhile is_space (lu_text pf ws) = lu_text (skip_space_items pf) ws"
proof (induction pf rule: skip_space_items.induct)
  case (1 c fs)
  then show ?case by (auto simp: solid_start_def)
next
  case "2_2"
  show ?case
  proof (cases ws)
    case Nil
    then show ?thesis by simp
  next
    case (Cons w ws')
    obtain c t where "dec (unat w) = c # t" by (cases "dec (unat w)") auto
    moreover from this have "is_digit c" using dec_digits [of c "unat w"] by simp
    ultimately show ?thesis using Cons by (simp add: digit_not_space)
  qed
qed (auto simp: solid_start_def)

lemma print_digit_stop:
  assumes "digit_stop pf"
  shows "takeWhile is_digit (lu_text pf ws) = []"
  using assms by (cases pf) (auto simp: digit_stop_def split: fitem.splits)

lemma scan_ulong_dec:
  assumes "takeWhile is_digit rest = []"
  shows "scan_ulong (dec (unat (w :: u64)) @ rest) = Some (w, rest)"
proof -
  let ?s = "dec (unat w)"
  obtain c t where ct: "?s = c # t" by (cases ?s) auto
  have all: "\<forall>x \<in> set ?s. is_digit x" by (auto dest: dec_digits)
  then have c: "is_digit c" by (simp add: ct)
  then have ns: "\<not> is_space c" "c \<noteq> CHR ''-''" "c \<noteq> CHR ''+''"
    by (auto simp: digit_not_space is_digit_def)
  have sp: "dropWhile is_space (?s @ rest) = ?s @ rest" using ct ns by simp
  have tw: "takeWhile is_digit (?s @ rest) = ?s" using all assms by (simp add: takeWhile_append2)
  have dw: "dropWhile is_digit (?s @ rest) = rest"
    using all assms by (metis append_Nil dropWhile_append2 takeWhile_dropWhile_id)
  have dv: "digits_val (c # t) = unat w" using digits_val_dec [of "unat w"] ct by simp
  have small: "unat w < 2 ^ 64" using unsigned_less [of w] by simp
  show ?thesis
    using ns small tw dw sp c dv by (simp add: scan_ulong_def Let_def ct)
qed

definition lu_count :: "fitem list \<Rightarrow> nat" where
  "lu_count fs = length (filter (\<lambda>i. i = FLu) fs)"

lemma lu_count_simps [simp]:
  "lu_count [] = 0" "lu_count (FCh c # fs) = lu_count fs" "lu_count (FLu # fs) = Suc (lu_count fs)"
  by (simp_all add: lu_count_def)

lemma lu_count_skip [simp]: "lu_count (skip_space_items pf) = lu_count pf"
  by (induction pf rule: skip_space_items.induct) (auto simp: lu_count_def)

theorem scan_print:
  "conv_count pf sf = Some k \<Longrightarrow> lu_count pf \<le> length ws \<Longrightarrow> scan_items sf (lu_text pf ws) = take k ws"
proof (induction pf sf arbitrary: ws k rule: conv_count.induct)
  case (1 pf)
  then show ?case by simp
next
  case (2 pf d sf)
  show ?case
  proof (cases "is_space d")
    case True
    then have solid: "solid_start (skip_space_items pf)"
      and c: "conv_count (skip_space_items pf) sf = Some k"
      using 2(3) by (auto simp: Let_def split: if_splits)
    have "scan_items sf (lu_text (skip_space_items pf) ws) = take k ws"
      using True solid c 2(4) by (intro 2(1)) auto
    with True solid show ?thesis by (simp add: drop_spaces_print)
  next
    case False
    then show ?thesis
      using 2 by (auto split: list.splits fitem.splits if_splits)
  qed
next
  case (3 pf sf)
  then obtain pf' j where pf: "pf = FLu # pf'" and stop: "digit_stop pf'"
    and c: "conv_count pf' sf = Some j" and k: "k = Suc j"
    by (auto split: list.splits fitem.splits if_splits)
  with 3(3) obtain w ws' where ws: "ws = w # ws'" and l: "lu_count pf' \<le> length ws'"
    by (cases ws) auto
  have "scan_items sf (lu_text pf' ws') = take j ws'" using 3(1) pf stop c l by simp
  then show ?case
    using pf ws k by (simp add: scan_ulong_dec [OF print_digit_stop [OF stop]])
qed simp_all

end
