(* ===== verification/Mem_Stats.thy ===== *)
theory Mem_Stats
  imports Text_Format
begin

text \<open>
  The four memory statistics system calls of \<open>Proyecto/linux-6.6.44/kernel/my_sys.c\<close> and
  the trial module \<open>Proyecto/Api/pruebas/ram_stats_module.c\<close>. The kernel's counters
  (\<open>si_meminfo\<close>, \<open>si_swapinfo\<close>, \<open>global_node_page_state\<close>) and \<open>copy_to_user\<close> are
  parameters, collected in the record \<open>mem_env\<close>; everything the calls compute from them,
  at 64-bit width, and every byte they hand to user space is modelled.
\<close>

subsection \<open>The kernel's side\<close>

datatype stat_item =
  NR_FILE_PAGES | NR_FREE_PAGES | NR_FILE_MAPPED
| NR_ACTIVE_ANON | NR_ACTIVE_FILE | NR_INACTIVE_ANON | NR_INACTIVE_FILE

record mem_env =
  me_info :: sysinfo
  me_pages :: "stat_item \<Rightarrow> u64"
  me_uncopied :: "u64 \<Rightarrow> cbuf \<Rightarrow> u64"

text \<open>
  What a call does besides returning: the bytes offered to \<open>copy_to_user\<close> with the number
  it reports as not copied, and the line sent to the kernel log.
\<close>

datatype effect = Copy_To_User u64 cbuf u64 | Printk string

type_synonym sys_result = "(int \<times> effect list) outcome"

text \<open>
  The common tail of the four calls: \<open>snprintf\<close> into a local array that starts
  uninitialised, \<open>copy_to_user\<close> of the whole array, then \<open>printk\<close> of its text.
\<close>

definition reply_buffer :: "nat \<Rightarrow> string \<Rightarrow> farg list \<Rightarrow> cbuf" where
  "reply_buffer n f as = snprintf_at (replicate n None) 0 n (format_text f as)"

definition reply :: "mem_env \<Rightarrow> u64 \<Rightarrow> cbuf \<Rightarrow> string \<Rightarrow> sys_result" where
  "reply E user_buffer buffer log =
     (let left = me_uncopied E user_buffer buffer in
      if left \<noteq> 0 then Done (- EFAULT, [Copy_To_User user_buffer buffer left])
      else (case cstr buffer of
              None \<Rightarrow> Oops
            | Some t \<Rightarrow> Done (0, [Copy_To_User user_buffer buffer left, Printk (format_text log [S t])])))"

subsection \<open>get\_ram\_stats\<close>

definition ram_fmt :: string where
  "ram_fmt = ''\"ram_stats\": {\<newline>  \"total\": %lu,\<newline>  \"used\": %lu,\<newline>  \"free\": %lu,\<newline>  \"cache\": %lu,\<newline>  \"buffers\": %lu,\<newline>  \"percentage_used\": %lu\<newline>}\<newline>''"

definition mem_unit :: "mem_env \<Rightarrow> u64" where
  "mem_unit E = ucast (si_mem_unit (me_info E))"

definition cached_mem :: "mem_env \<Rightarrow> u64" where
  "cached_mem E = (me_pages E NR_FILE_PAGES - si_bufferram (me_info E)) * PAGE_SIZE"

definition used_mem :: "mem_env \<Rightarrow> u64" where
  "used_mem E =
     (let inf = me_info E in
      (si_totalram inf - si_freeram inf - si_bufferram inf - cached_mem E div mem_unit E) * mem_unit E)"

definition ram_values :: "mem_env \<Rightarrow> u64 list" where
  "ram_values E =
     (let inf = me_info E; mu = mem_unit E in
      [si_totalram inf * mu, used_mem E, si_freeram inf * mu, cached_mem E,
       si_bufferram inf * mu, used_mem E * 100 div (si_totalram inf * mu)])"

definition get_ram_stats :: "mem_env \<Rightarrow> u64 \<Rightarrow> sys_result" where
  "get_ram_stats E user_buffer =
     (if mem_unit E = 0 \<or> si_totalram (me_info E) * mem_unit E = 0 then Oops
      else reply E user_buffer (reply_buffer 256 ram_fmt (map LU (ram_values E)))
             ''RAM stats: %s\<newline>'')"

subsection \<open>get\_swap\_info, get\_page\_faults\_info, get\_memory\_pages\_info\<close>

definition swap_fmt :: string where
  "swap_fmt = ''\"swap_info\": {\<newline>  \"total\": %lu,\<newline>  \"used\": %lu,\<newline>  \"free\": %lu\<newline>}\<newline>''"

definition swap_values :: "mem_env \<Rightarrow> u64 list" where
  "swap_values E =
     (let si = me_info E; swap_used = si_totalswap si - si_freeswap si in
      [push_bit (PAGE_SHIFT - 10) (si_totalswap si), push_bit (PAGE_SHIFT - 10) swap_used,
       push_bit (PAGE_SHIFT - 10) (si_freeswap si)])"

definition get_swap_info :: "mem_env \<Rightarrow> u64 \<Rightarrow> sys_result" where
  "get_swap_info E user_buffer =
     reply E user_buffer (reply_buffer 128 swap_fmt (map LU (swap_values E))) ''Swap stats: %s\<newline>''"

definition faults_fmt :: string where
  "faults_fmt = ''\"page_faults_info\": {\<newline>  \"minor_faults\": %lu,\<newline>  \"major_faults\": %lu\<newline>}\<newline>''"

definition faults_values :: "mem_env \<Rightarrow> u64 list" where
  "faults_values E =
     [me_pages E NR_FILE_PAGES - me_pages E NR_FREE_PAGES, me_pages E NR_FILE_MAPPED]"

definition get_page_faults_info :: "mem_env \<Rightarrow> u64 \<Rightarrow> sys_result" where
  "get_page_faults_info E user_buffer =
     reply E user_buffer (reply_buffer 128 faults_fmt (map LU (faults_values E))) ''Page faults: %s\<newline>''"

definition pages_fmt :: string where
  "pages_fmt = ''\"memory_pages_info\": {\<newline>  \"active\": %lu,\<newline>  \"inactive\": %lu\<newline>}\<newline>''"

definition pages_values :: "mem_env \<Rightarrow> u64 list" where
  "pages_values E =
     [me_pages E NR_ACTIVE_ANON + me_pages E NR_ACTIVE_FILE,
      me_pages E NR_INACTIVE_ANON + me_pages E NR_INACTIVE_FILE]"

definition get_memory_pages_info :: "mem_env \<Rightarrow> u64 \<Rightarrow> sys_result" where
  "get_memory_pages_info E user_buffer =
     reply E user_buffer (reply_buffer 128 pages_fmt (map LU (pages_values E))) ''Memory pages: %s\<newline>''"

subsection \<open>The trial module\<close>

definition module_fmt :: string where
  "module_fmt = ''RAM stats:\<newline>  Total: %lu KB\<newline>  Used: %lu KB\<newline>  Free: %lu KB\<newline>  Cache: %lu KB\<newline>  Buffers: %lu KB\<newline>  Percentage Used: %lu%%\<newline>''"

definition module_used :: "mem_env \<Rightarrow> u64" where
  "module_used E =
     (let inf = me_info E; mu = mem_unit E;
          total_mem = si_totalram inf * mu; free_mem = si_freeram inf * mu;
          buffers_mem = si_bufferram inf * mu; cache_mem = me_pages E NR_FILE_PAGES * PAGE_SIZE
      in total_mem - free_mem - cache_mem - buffers_mem)"

definition module_values :: "mem_env \<Rightarrow> u64 list" where
  "module_values E =
     (let inf = me_info E; mu = mem_unit E;
          total_mem = si_totalram inf * mu; free_mem = si_freeram inf * mu;
          buffers_mem = si_bufferram inf * mu; cache_mem = me_pages E NR_FILE_PAGES * PAGE_SIZE;
          used_mem = module_used E
      in [total_mem div 1024, used_mem div 1024, free_mem div 1024, cache_mem div 1024,
          buffers_mem div 1024, used_mem * 100 div total_mem])"

definition ram_stats_init :: "mem_env \<Rightarrow> sys_result" where
  "ram_stats_init E =
     (if si_totalram (me_info E) * mem_unit E = 0 then Oops
      else (case cstr (reply_buffer 256 module_fmt (map LU (module_values E))) of
              None \<Rightarrow> Oops
            | Some t \<Rightarrow> Done (0, [Printk (format_text ''%s\<newline>'' [S t])])))"

definition ram_stats_exit :: "effect list" where
  "ram_stats_exit = [Printk ''RAM stats module unloaded.\<newline>'']"

subsection \<open>The reply interface\<close>

text \<open>
  What the four calls and the module share: a format of the source, the size of its local
  array, the number of \<open>%lu\<close> arguments. The law is a computation on the format string;
  what it promises is that the text always fits, so the array holds the text, a NUL and a
  tail that was never written.
\<close>

locale stats_text =
  fixes fmt :: string and size :: nat and n :: nat
  assumes fits: "lit_count (fmt_items fmt) + 20 * n < size"
    and no_nul: "FCh NUL \<notin> set (fmt_items fmt)"
begin

lemma sum_arg_max: "length ws = n \<Longrightarrow> sum_list (map arg_max (map LU ws)) = 20 * n"
  by (induction ws arbitrary: n) auto

lemma text_length:
  assumes "length ws = n"
  shows "length (format_text fmt (map LU ws)) < size"
proof -
  have "length (format_text fmt (map LU ws))
    \<le> lit_count (fmt_items fmt) + sum_list (map arg_max (map LU ws))"
    unfolding format_text_def by (rule length_print_items)
  then show ?thesis using fits sum_arg_max [OF assms] by linarith
qed

lemma text_no_nul: "NUL \<notin> set (format_text fmt (map LU ws))"
  unfolding format_text_def using no_nul by (rule print_items_no_nul) auto

lemma buffer_layout:
  assumes "length ws = n"
  defines "t \<equiv> format_text fmt (map LU ws)"
  shows "reply_buffer size fmt (map LU ws) = map Some t @ Some NUL # replicate (size - length t - 1) None"
  using text_length [OF assms(1)]
  by (simp add: reply_buffer_def snprintf_at_def Let_def t_def)

lemma text_complete:
  "length ws = n \<Longrightarrow>
   cstr (reply_buffer size fmt (map LU ws)) = Some (format_text fmt (map LU ws))"
  by (simp add: buffer_layout cstr_text text_no_nul)

end

interpretation ram: stats_text ram_fmt 256 6
  by unfold_locales (simp_all add: ram_fmt_def)

interpretation swap: stats_text swap_fmt 128 3
  by unfold_locales (simp_all add: swap_fmt_def)

interpretation faults: stats_text faults_fmt 128 2
  by unfold_locales (simp_all add: faults_fmt_def)

interpretation mpages: stats_text pages_fmt 128 2
  by unfold_locales (simp_all add: pages_fmt_def)

interpretation modtext: stats_text module_fmt 256 6
  by unfold_locales (simp_all add: module_fmt_def)

lemma length_values [simp]:
  "length (ram_values E) = 6" "length (swap_values E) = 3"
  "length (faults_values E) = 2" "length (pages_values E) = 2" "length (module_values E) = 6"
  by (simp_all add: ram_values_def swap_values_def faults_values_def pages_values_def
      module_values_def Let_def)

lemma reply_text:
  assumes "cstr b = Some t"
  shows "reply E u b log =
    (if me_uncopied E u b = 0 then Done (0, [Copy_To_User u b 0, Printk (format_text log [S t])])
     else Done (- EFAULT, [Copy_To_User u b (me_uncopied E u b)]))"
  using assms by (simp add: reply_def Let_def)

subsection \<open>What the calls deliver\<close>

text \<open>The abstract contract of a statistics call: one fully formatted text is delivered.\<close>

definition delivered :: "mem_env \<Rightarrow> u64 \<Rightarrow> nat \<Rightarrow> string \<Rightarrow> u64 list \<Rightarrow> string \<Rightarrow> sys_result" where
  "delivered E u n f vs log =
     (let t = format_text f (map LU vs);
          b = map Some t @ Some NUL # replicate (n - length t - 1) None;
          left = me_uncopied E u b
      in Done (if left = 0 then 0 else - EFAULT,
               Copy_To_User u b left # (if left = 0 then [Printk (format_text log [S t])] else [])))"

context stats_text
begin

lemma reply_delivered:
  assumes "length ws = n"
  shows "reply E u (reply_buffer size fmt (map LU ws)) log = delivered E u size fmt ws log"
proof -
  let ?t = "format_text fmt (map LU ws)"
  have "map Some ?t @ Some NUL # replicate (size - length ?t - 1) None = reply_buffer size fmt (map LU ws)"
    by (rule buffer_layout [OF assms, symmetric])
  then show ?thesis
    by (simp only: delivered_def Let_def reply_text [OF text_complete [OF assms]] if_split) simp
qed

end

text \<open>C1: the four calls never trap except for a zero divisor in \<open>get_ram_stats\<close>; whatever
  the counters are, the text they copy is the whole text of their format (it never meets
  the end of the 128- or 256-byte array), followed by a NUL and by bytes of the array that
  were never initialised; they return 0 or \<open>-EFAULT\<close>, and log only what they delivered.\<close>
theorem stats_calls_deliver:
  "get_swap_info E u = delivered E u 128 swap_fmt (swap_values E) ''Swap stats: %s\<newline>''
   \<and> get_page_faults_info E u = delivered E u 128 faults_fmt (faults_values E) ''Page faults: %s\<newline>''
   \<and> get_memory_pages_info E u = delivered E u 128 pages_fmt (pages_values E) ''Memory pages: %s\<newline>''
   \<and> get_ram_stats E u =
      (if mem_unit E = 0 \<or> si_totalram (me_info E) * mem_unit E = 0 then Oops
       else delivered E u 256 ram_fmt (ram_values E) ''RAM stats: %s\<newline>'')"
  by (simp add: get_swap_info_def get_page_faults_info_def get_memory_pages_info_def
      get_ram_stats_def swap.reply_delivered faults.reply_delivered mpages.reply_delivered
      ram.reply_delivered)

subsection \<open>What the numbers mean\<close>

text \<open>The page counts of a consistent snapshot, small enough that bytes and percentages fit.\<close>

definition ram_snapshot :: "mem_env \<Rightarrow> bool" where
  "ram_snapshot E \<longleftrightarrow>
     si_mem_unit (me_info E) = 4096
     \<and> 0 < unat (si_totalram (me_info E))
     \<and> unat (si_totalram (me_info E)) * 409600 < 2 ^ 64
     \<and> unat (si_bufferram (me_info E)) \<le> unat (me_pages E NR_FILE_PAGES)
     \<and> unat (si_freeram (me_info E)) + unat (me_pages E NR_FILE_PAGES) \<le> unat (si_totalram (me_info E))"

lemma mem_unit_4096: "si_mem_unit (me_info E) = 4096 \<Longrightarrow> mem_unit E = 4096"
  by (simp add: mem_unit_def)

lemma ram_snapshot_values:
  assumes "ram_snapshot E"
  shows "unat (cached_mem E) = (unat (me_pages E NR_FILE_PAGES) - unat (si_bufferram (me_info E))) * 4096"
    and "unat (used_mem E) = (unat (si_totalram (me_info E)) - unat (si_freeram (me_info E))
            - unat (me_pages E NR_FILE_PAGES)) * 4096"
    and "unat (si_totalram (me_info E) * mem_unit E) = unat (si_totalram (me_info E)) * 4096"
proof -
  define T F B P where "T = si_totalram (me_info E)" and "F = si_freeram (me_info E)"
    and "B = si_bufferram (me_info E)" and "P = me_pages E NR_FILE_PAGES"
  note d = T_def [symmetric] F_def [symmetric] B_def [symmetric] P_def [symmetric]
  have mu: "mem_unit E = 4096" and T: "unat T * 409600 < 2 ^ 64" and BP: "unat B \<le> unat P"
    and FP: "unat F + unat P \<le> unat T"
    using assms by (auto simp: ram_snapshot_def mem_unit_4096 d)
  have PB: "unat (P - B) = unat P - unat B" using BP by (rule unat_diff_le)
  have c: "unat (cached_mem E) = (unat P - unat B) * 4096"
    unfolding cached_mem_def PAGE_SIZE_def d
    using PB BP FP T by (subst unat_mult_small) auto
  then have cd: "unat (cached_mem E div mem_unit E) = unat P - unat B"
    by (simp add: unat_div mu)
  have s1: "unat (T - F) = unat T - unat F" using FP by (intro unat_diff_le) simp
  have s2: "unat (T - F - B) = unat T - unat F - unat B"
    using FP BP s1 by (subst unat_diff_le) auto
  have s3: "unat (T - F - B - cached_mem E div mem_unit E) = unat T - unat F - unat P"
    using FP BP s2 cd by (subst unat_diff_le) auto
  show "unat (cached_mem E) = (unat (me_pages E NR_FILE_PAGES) - unat (si_bufferram (me_info E))) * 4096"
    using c by (simp add: d)
  show "unat (used_mem E) = (unat (si_totalram (me_info E)) - unat (si_freeram (me_info E))
            - unat (me_pages E NR_FILE_PAGES)) * 4096"
    unfolding used_mem_def Let_def d using s3 T mu
    by (subst unat_mult_small) auto
  show "unat (si_totalram (me_info E) * mem_unit E) = unat (si_totalram (me_info E)) * 4096"
    unfolding d mu using T by (subst unat_mult_small) auto
qed

text \<open>The report in exact arithmetic, from page counts: total, free, buffer and file pages.\<close>

definition ram_report :: "nat \<Rightarrow> nat \<Rightarrow> nat \<Rightarrow> nat \<Rightarrow> nat list" where
  "ram_report t f b p =
     [t * 4096, (t - f - p) * 4096, f * 4096, (p - b) * 4096, b * 4096, (t - f - p) * 100 div t]"

text \<open>C20: on a consistent snapshot, \<open>get_ram_stats\<close> reports as used exactly the pages that are
  neither free nor file pages, in bytes, and the percentage is the exact quotient rounded
  down: no step of the 64-bit computation wraps.\<close>
theorem ram_values_exact:
  assumes "ram_snapshot E"
  shows "map unat (ram_values E) =
    ram_report (unat (si_totalram (me_info E))) (unat (si_freeram (me_info E)))
      (unat (si_bufferram (me_info E))) (unat (me_pages E NR_FILE_PAGES))"
proof -
  define T F B P where "T = unat (si_totalram (me_info E))" and "F = unat (si_freeram (me_info E))"
    and "B = unat (si_bufferram (me_info E))" and "P = unat (me_pages E NR_FILE_PAGES)"
  note d = T_def [symmetric] F_def [symmetric] B_def [symmetric] P_def [symmetric]
  have T: "T * 409600 < 2 ^ 64" "0 < T" and BP: "B \<le> P" and FP: "F + P \<le> T"
    using assms by (auto simp: ram_snapshot_def d)
  have mu: "mem_unit E = 4096" using assms by (simp add: ram_snapshot_def mem_unit_4096)
  note v = ram_snapshot_values [OF assms, unfolded d]
  have f: "unat (si_freeram (me_info E) * 4096) = F * 4096"
    using T FP by (subst unat_mult_small) (auto simp: d)
  have b: "unat (si_bufferram (me_info E) * 4096) = B * 4096"
    using T BP FP by (subst unat_mult_small) (auto simp: d)
  have "unat (used_mem E * 100) = (T - F - P) * 4096 * 100"
    using v(2) T by (subst unat_mult_small) auto
  then have "unat (used_mem E * 100 div (si_totalram (me_info E) * mem_unit E))
      = ((T - F - P) * 100 * 4096) div (T * 4096)"
    using v(3) by (simp add: unat_div)
  then have p: "unat (used_mem E * 100 div (si_totalram (me_info E) * mem_unit E)) = (T - F - P) * 100 div T"
    by (simp only: div_mult_mult2)
  show ?thesis
    using v f b p by (simp add: ram_values_def ram_report_def Let_def mu flip: d)
qed

text \<open>A concrete machine, used as the witness: 4 GiB in 4 KiB pages.\<close>

definition sample_info :: sysinfo where
  "sample_info = \<lparr>si_uptime = 0, si_loads = [], si_totalram = 1048576, si_freeram = 262144,
     si_sharedram = 0, si_bufferram = 1000, si_totalswap = 524288, si_freeswap = 500000,
     si_procs = 0, si_totalhigh = 0, si_freehigh = 0, si_mem_unit = 4096\<rparr>"

definition sample_mem :: mem_env where
  "sample_mem = \<lparr>me_info = sample_info, me_pages = (\<lambda>_. 400000), me_uncopied = (\<lambda>_ _. 0)\<rparr>"

lemma sample_snapshot: "ram_snapshot sample_mem"
  by (simp add: ram_snapshot_def sample_mem_def sample_info_def)

theorem ram_values_exact_witness:
  "ram_snapshot sample_mem \<and>
   map unat (ram_values sample_mem) = [4294967296, 1582825472, 1073741824, 1634304000, 4096000, 36]"
  using ram_values_exact [OF sample_snapshot] sample_snapshot
  by (simp add: sample_mem_def sample_info_def ram_report_def)

text \<open>The module subtracts the buffer pages twice: its used memory is the system call's
  used memory less the buffers, for every machine with 4 KiB units whose page cache is
  at least as large as its buffers (modulo \<open>2^64\<close>, wrapping included).\<close>
theorem module_used_differs:
  assumes "si_mem_unit (me_info E) = 4096"
    and "unat (si_bufferram (me_info E)) \<le> unat (me_pages E NR_FILE_PAGES)"
    and "unat (me_pages E NR_FILE_PAGES) * 4096 < 2 ^ 64"
  shows "module_used E = used_mem E - si_bufferram (me_info E) * 4096"
proof -
  have mu: "mem_unit E = 4096" using assms(1) by (rule mem_unit_4096)
  have "unat (cached_mem E) = unat (me_pages E NR_FILE_PAGES - si_bufferram (me_info E)) * 4096"
    unfolding cached_mem_def PAGE_SIZE_def
    using assms(2,3) unat_diff_le [OF assms(2)] by (subst unat_mult_small) auto
  then have "cached_mem E div 4096 = me_pages E NR_FILE_PAGES - si_bufferram (me_info E)"
    by (intro word_unat_eq_iff [THEN iffD2]) (simp add: unat_div)
  then have "me_pages E NR_FILE_PAGES = cached_mem E div 4096 + si_bufferram (me_info E)" by simp
  then show ?thesis
    by (simp add: module_used_def used_mem_def Let_def mu PAGE_SIZE_def algebra_simps)
qed

theorem module_used_differs_witness:
  "module_used sample_mem = 1578729472 \<and> used_mem sample_mem = 1582825472"
proof -
  have "module_used sample_mem = used_mem sample_mem - si_bufferram (me_info sample_mem) * 4096"
    by (rule module_used_differs) (simp_all add: sample_mem_def sample_info_def)
  moreover have "used_mem sample_mem = 1582825472"
    by (simp add: used_mem_def Let_def cached_mem_def mem_unit_def PAGE_SIZE_def sample_mem_def sample_info_def)
  ultimately show ?thesis by (simp add: sample_mem_def sample_info_def)
qed

text \<open>The minor-fault figure is the difference of two unrelated page counters: with more
  free pages than file pages, as on a freshly booted machine, it wraps to a value of at least \<open>2^63\<close>
  as soon as the counters are below \<open>2^63\<close>.\<close>
theorem minor_faults_wrap:
  assumes "unat (me_pages E NR_FILE_PAGES) < unat (me_pages E NR_FREE_PAGES)"
    and "unat (me_pages E NR_FREE_PAGES) < 2 ^ 63"
  shows "unat (hd (faults_values E)) =
           2 ^ 64 - (unat (me_pages E NR_FREE_PAGES) - unat (me_pages E NR_FILE_PAGES))
         \<and> 2 ^ 63 \<le> unat (hd (faults_values E))"
proof -
  let ?a = "me_pages E NR_FILE_PAGES" and ?b = "me_pages E NR_FREE_PAGES"
  have "unat (?a - ?b) = 2 ^ 64 + unat ?a - unat ?b"
    using assms(1) unat_sub_if' [of ?a ?b] by (auto simp: word_le_nat_alt)
  then show ?thesis using assms by (simp add: faults_values_def)
qed

theorem minor_faults_wrap_witness:
  "unat (hd (faults_values
     (sample_mem\<lparr>me_pages := (\<lambda>i. if i = NR_FREE_PAGES then 900000 else 100000)\<rparr>))) = 2 ^ 64 - 800000"
  using minor_faults_wrap [of "sample_mem\<lparr>me_pages := (\<lambda>i. if i = NR_FREE_PAGES then 900000 else 100000)\<rparr>"]
  by simp

end
