(* ===== verification/Api_Server.thy ===== *)
theory Api_Server
  imports Mem_Stats
begin

text \<open>
  The HTTP server of \<open>Proyecto/Api/Backend/api_syscalls.c\<close>: it calls the statistics system
  calls, scans their text with \<open>sscanf\<close>, builds a JSON object and answers the request.
  \<open>syscall\<close> itself, \<open>cJSON_Parse\<close>, \<open>cJSON_Print\<close>, the accessors on parsed trees and the
  conversion of \<open>unsigned long\<close> to \<open>double\<close> are parameters (record \<open>api_env\<close>). JSON trees
  the server builds are values of a datatype; a number is \<open>None\<close> where the code passes an
  uninitialised local variable.
\<close>

subsection \<open>Data\<close>

datatype 'd json =
    JNum "'d option"
  | JStr string
  | JArr "'d json list"
  | JObj "(string \<times> 'd json) list"
  | JOther

record 'd api_env =
  ae_syscall :: "nat \<Rightarrow> nat \<Rightarrow> int \<times> cbuf"
  ae_double :: "u64 \<Rightarrow> 'd"
  ae_parse :: "string \<Rightarrow> 'd json option"
  ae_item :: "'d json \<Rightarrow> string \<Rightarrow> 'd json option"
  ae_valuedouble :: "'d json \<Rightarrow> 'd"
  ae_valuestring :: "'d json \<Rightarrow> string option"
  ae_print :: "'d json \<Rightarrow> string"

definition SYS_get_ram_stats :: nat where "SYS_get_ram_stats = 469"
definition SYS_get_swap_info :: nat where "SYS_get_swap_info = 470"
definition SYS_get_page_faults_info :: nat where "SYS_get_page_faults_info = 471"
definition SYS_get_memory_pages_info :: nat where "SYS_get_memory_pages_info = 472"
definition SYS_procesos_info :: nat where "SYS_procesos_info = 473"

lemmas sys_numbers = SYS_get_ram_stats_def SYS_get_swap_info_def SYS_get_page_faults_info_def
  SYS_get_memory_pages_info_def SYS_procesos_info_def

subsection \<open>get\_system\_info\<close>

text \<open>
  A 912-byte buffer is cleared, the kernel overwrites a prefix of it, and the C string at
  its start becomes the \<open>data\<close> string of an object; a non-zero result gives NULL. \<open>Oops\<close>
  is a string read that runs into uninitialised bytes or past the buffer.
\<close>

definition overlay :: "cbuf \<Rightarrow> cbuf \<Rightarrow> cbuf" where
  "overlay new old = take (length old) (new @ drop (length new) old)"

definition get_system_info :: "'d api_env \<Rightarrow> nat \<Rightarrow> string option outcome" where
  "get_system_info A num =
     (let (r, written) = ae_syscall A num 912 in
      if r = 0 then
        (case cstr (overlay written (replicate 912 (Some NUL))) of
           None \<Rightarrow> Oops
         | Some s \<Rightarrow> Done (Some s))
      else Done None)"

subsection \<open>The four statistics handlers\<close>

definition scanned :: "'d api_env \<Rightarrow> u64 list \<Rightarrow> nat \<Rightarrow> 'd json" where
  "scanned A vals k = JNum (if k < length vals then Some (ae_double A (vals ! k)) else None)"

definition stats_handler ::
  "'d api_env \<Rightarrow> nat \<Rightarrow> string \<Rightarrow> string \<Rightarrow> string list \<Rightarrow> 'd json option outcome" where
  "stats_handler A num scan outer ks =
     (case get_system_info A num of
        Oops \<Rightarrow> Oops
      | Done None \<Rightarrow> Done None
      | Done (Some s) \<Rightarrow>
          (let vals = sscanf_lu s scan in
           Done (Some (JObj [(outer, JObj (map (\<lambda>k. (ks ! k, scanned A vals k)) [0..<length ks]))]))))"

definition ram_scan :: string where
  "ram_scan = ''\"ram_stats\": {\<newline>  \"total\": %lu,\<newline>  \"used\": %lu,\<newline>  \"free\": %lu,\<newline>  \"cache\": %lu,\<newline>  \"percentage_used\": %lu\<newline>}''"

definition handle_ram_stats :: "'d api_env \<Rightarrow> 'd json option outcome" where
  "handle_ram_stats A =
     stats_handler A SYS_get_ram_stats ram_scan ''ram_stats''
       [''total'', ''used'', ''free'', ''cache'', ''percentage_used'']"

definition swap_scan :: string where
  "swap_scan = ''\"swap_info\": {\<newline>  \"total\": %lu,\<newline>  \"used\": %lu,\<newline>  \"free\": %lu\<newline>}''"

definition handle_swap_info :: "'d api_env \<Rightarrow> 'd json option outcome" where
  "handle_swap_info A =
     stats_handler A SYS_get_swap_info swap_scan ''swap_info'' [''total'', ''used'', ''free'']"

definition faults_scan :: string where
  "faults_scan = ''\"page_faults_info\": {\<newline>  \"minor_faults\": %lu,\<newline>  \"major_faults\": %lu\<newline>}''"

definition handle_page_faults_info :: "'d api_env \<Rightarrow> 'd json option outcome" where
  "handle_page_faults_info A =
     stats_handler A SYS_get_page_faults_info faults_scan ''page_faults_info''
       [''minor_faults'', ''major_faults'']"

definition pages_scan :: string where
  "pages_scan = ''\"memory_pages_info\": {\<newline>  \"active\": %lu,\<newline>  \"inactive\": %lu\<newline>}''"

definition handle_memory_pages_info :: "'d api_env \<Rightarrow> 'd json option outcome" where
  "handle_memory_pages_info A =
     stats_handler A SYS_get_memory_pages_info pages_scan ''memory_pages_info''
       [''active'', ''inactive'']"

subsection \<open>handle\_procesos\_info\<close>

text \<open>
  The process list is parsed as JSON. Each element is copied field by field; a missing
  field is a read through a null pointer. A string item without a value is not added.
\<close>

definition copy_process :: "'d api_env \<Rightarrow> 'd json \<Rightarrow> 'd json outcome" where
  "copy_process A p =
     (case (ae_item A p ''pid'', ae_item A p ''name'', ae_item A p ''rss'', ae_item A p ''cpu_time'') of
        (Some i, Some n, Some r, Some c) \<Rightarrow>
          Done (JObj ([(''pid'', JNum (Some (ae_valuedouble A i)))]
            @ (case ae_valuestring A n of None \<Rightarrow> [] | Some s \<Rightarrow> [(''name'', JStr s)])
            @ [(''rss'', JNum (Some (ae_valuedouble A r))), (''cpu_time'', JNum (Some (ae_valuedouble A c)))]))
      | _ \<Rightarrow> Oops)"

fun copy_processes :: "'d api_env \<Rightarrow> 'd json list \<Rightarrow> 'd json list outcome" where
  "copy_processes A [] = Done []"
| "copy_processes A (p # ps) =
     (case copy_process A p of
        Oops \<Rightarrow> Oops
      | Done q \<Rightarrow> (case copy_processes A ps of Oops \<Rightarrow> Oops | Done qs \<Rightarrow> Done (q # qs)))"

definition handle_procesos_info :: "'d api_env \<Rightarrow> 'd json option outcome" where
  "handle_procesos_info A =
     (case get_system_info A SYS_procesos_info of
        Oops \<Rightarrow> Oops
      | Done None \<Rightarrow> Done None
      | Done (Some s) \<Rightarrow>
          (case ae_parse A s of
             None \<Rightarrow> Done None
           | Some parsed \<Rightarrow>
               (case ae_item A parsed ''Procesos_que_mas_memoria_usan'' of
                  Some (JArr ps) \<Rightarrow>
                    (case copy_processes A ps of
                       Oops \<Rightarrow> Oops
                     | Done qs \<Rightarrow> Done (Some (JObj [(''Procesos_que_mas_memoria_usan'', JArr qs)])))
                | _ \<Rightarrow> Done None)))"

subsection \<open>The request handler\<close>

record response =
  status :: nat
  headers :: "(string \<times> string) list"
  body :: string

definition cors_headers :: "(string \<times> string) list" where
  "cors_headers =
     [(''Access-Control-Allow-Origin'', ''*''), (''Access-Control-Allow-Methods'', ''GET, OPTIONS''),
      (''Access-Control-Allow-Headers'', ''Content-Type'')]"

definition route :: "'d api_env \<Rightarrow> string \<Rightarrow> 'd json option outcome" where
  "route A url =
     (if url = ''/ram_stats'' then handle_ram_stats A
      else if url = ''/swap_info'' then handle_swap_info A
      else if url = ''/page_faults_info'' then handle_page_faults_info A
      else if url = ''/memory_pages_info'' then handle_memory_pages_info A
      else if url = ''/procesos_info'' then handle_procesos_info A
      else Done (Some (JObj [(''error'', JStr ''Invalid endpoint'')])))"

definition request_handler :: "'d api_env \<Rightarrow> string \<Rightarrow> string \<Rightarrow> response outcome" where
  "request_handler A url meth =
     (if meth = ''OPTIONS'' then Done \<lparr>status = 200, headers = cors_headers, body = []\<rparr>
      else
        (case route A url of
           Oops \<Rightarrow> Oops
         | Done (Some j) \<Rightarrow>
             Done \<lparr>status = 200, headers = (''Content-Type'', ''application/json'') # cors_headers,
                   body = ae_print A j\<rparr>
         | Done None \<Rightarrow>
             Done \<lparr>status = 500, headers = [(''Access-Control-Allow-Origin'', ''*'')], body = []\<rparr>))"

text \<open>\<open>main\<close>: the daemon runs until a character arrives on the standard input.\<close>

datatype server_event = Daemon_started nat | Input_awaited | Daemon_stopped

definition PORT :: nat where "PORT = 8888"

definition server_main :: "(nat \<Rightarrow> bool) \<Rightarrow> server_event list \<times> int" where
  "server_main starts =
     (if \<not> starts PORT then ([], 1) else ([Daemon_started PORT, Input_awaited, Daemon_stopped], 0))"

subsection \<open>The text channel between kernel and server\<close>

text \<open>
  The interface between a statistics call and its handler: the kernel's format (with the
  laws of \<open>stats_text\<close>) and the handler's \<open>sscanf\<close> format. The law compares the two format
  strings and gives the number \<open>k\<close> of conversions that succeed.
\<close>

locale stats_channel = stats_text fmt size n
  for fmt :: string and size n :: nat +
  fixes sfmt :: string and k :: nat
  assumes conv: "conv_count (fmt_items fmt) (fmt_items sfmt) = Some k"
    and lus: "lu_count (fmt_items fmt) = n"
    and small: "size \<le> 912"
begin

lemma scan_text: "length ws = n \<Longrightarrow> sscanf_lu (format_text fmt (map LU ws)) sfmt = take k ws"
  unfolding sscanf_lu_def format_text_def using conv lus by (intro scan_print) auto

lemma system_info:
  assumes "ae_syscall A num 912 = (0, reply_buffer size fmt (map LU ws))" and "length ws = n"
  shows "get_system_info A num = Done (Some (format_text fmt (map LU ws)))"
proof -
  let ?t = "format_text fmt (map LU ws)"
  have l: "length ?t < size" using assms(2) by (rule text_length)
  have "overlay (reply_buffer size fmt (map LU ws)) (replicate 912 (Some NUL)) =
      map Some ?t @ Some NUL # replicate (size - length ?t - 1) None @ replicate (912 - size) (Some NUL)"
    using l small by (simp add: buffer_layout [OF assms(2)] overlay_def)
  then show ?thesis
    using assms(1) by (simp add: get_system_info_def cstr_text text_no_nul)
qed

lemma handler_result:
  assumes "ae_syscall A num 912 = (0, reply_buffer size fmt (map LU ws))" and "length ws = n"
  shows "stats_handler A num sfmt outer ks =
    Done (Some (JObj [(outer, JObj (map (\<lambda>i. (ks ! i, scanned A (take k ws) i)) [0..<length ks]))]))"
  by (simp add: stats_handler_def system_info [OF assms] scan_text [OF assms(2)] Let_def)

end

interpretation ram_ch: stats_channel ram_fmt 256 6 ram_scan 4
  by unfold_locales (simp_all add: ram_fmt_def ram_scan_def solid_start_def digit_stop_def is_space_def is_digit_def)

interpretation swap_ch: stats_channel swap_fmt 128 3 swap_scan 3
  by unfold_locales (simp_all add: swap_fmt_def swap_scan_def solid_start_def digit_stop_def is_space_def is_digit_def)

interpretation faults_ch: stats_channel faults_fmt 128 2 faults_scan 2
  by unfold_locales (simp_all add: faults_fmt_def faults_scan_def solid_start_def digit_stop_def is_space_def is_digit_def)

interpretation pages_ch: stats_channel pages_fmt 128 2 pages_scan 2
  by unfold_locales (simp_all add: pages_fmt_def pages_scan_def solid_start_def digit_stop_def is_space_def is_digit_def)

subsection \<open>The server on top of the kernel\<close>

text \<open>
  \<open>libc_result\<close>: what \<open>syscall\<close> reports to user space and the bytes it left in the buffer.
  \<open>wired A E u\<close>: the server's \<open>syscall\<close> runs the four calls modelled in \<open>Mem_Stats\<close>
  under their table numbers on the machine \<open>E\<close>, for a buffer at address \<open>u\<close>.
\<close>

fun libc_result :: "sys_result \<Rightarrow> (int \<times> cbuf) option" where
  "libc_result Oops = None"
| "libc_result (Done (r, Copy_To_User u b left # es)) = Some (if r < 0 then - 1 else r, b)"
| "libc_result (Done (r, es)) = Some (if r < 0 then - 1 else r, [])"

definition stats_table :: "mem_env \<Rightarrow> u64 \<Rightarrow> nat \<Rightarrow> sys_result" where
  "stats_table E u num =
     (if num = 469 then get_ram_stats E u
      else if num = 470 then get_swap_info E u
      else if num = 471 then get_page_faults_info E u
      else get_memory_pages_info E u)"

definition wired :: "'d api_env \<Rightarrow> mem_env \<Rightarrow> u64 \<Rightarrow> bool" where
  "wired A E u \<longleftrightarrow>
     list_all (\<lambda>num. case libc_result (stats_table E u num) of
                       None \<Rightarrow> True | Some r \<Rightarrow> ae_syscall A num 912 = r) [469, 470, 471, 472]"

definition copies :: "mem_env \<Rightarrow> u64 \<Rightarrow> bool" where
  "copies E u \<longleftrightarrow> list_all (\<lambda>b. me_uncopied E u b = 0)
     [reply_buffer 256 ram_fmt (map LU (ram_values E)), reply_buffer 128 swap_fmt (map LU (swap_values E)),
      reply_buffer 128 faults_fmt (map LU (faults_values E)),
      reply_buffer 128 pages_fmt (map LU (pages_values E))]"

lemma wired_replies:
  assumes "wired A E u" and "copies E u"
  shows "ae_syscall A 470 912 = (0, reply_buffer 128 swap_fmt (map LU (swap_values E)))"
    and "ae_syscall A 471 912 = (0, reply_buffer 128 faults_fmt (map LU (faults_values E)))"
    and "ae_syscall A 472 912 = (0, reply_buffer 128 pages_fmt (map LU (pages_values E)))"
    and "get_ram_stats E u \<noteq> Oops \<Longrightarrow>
      ae_syscall A 469 912 = (0, reply_buffer 256 ram_fmt (map LU (ram_values E)))"
  using assms
  by (auto simp: wired_def copies_def stats_table_def get_swap_info_def get_page_faults_info_def
      get_memory_pages_info_def get_ram_stats_def reply_text [OF swap.text_complete]
      reply_text [OF faults.text_complete] reply_text [OF mpages.text_complete]
      reply_text [OF ram.text_complete] split: if_splits)

text \<open>The object a handler should build: the kernel's values under the field names.\<close>

definition relayed :: "'d api_env \<Rightarrow> string \<Rightarrow> string list \<Rightarrow> u64 list \<Rightarrow> 'd json option outcome" where
  "relayed A outer ks vs =
     Done (Some (JObj [(outer, JObj (zip ks (map (\<lambda>v. JNum (Some (ae_double A v))) vs)))]))"

text \<open>C12: for swap, page faults and memory pages the server relays the kernel's values
  faithfully: printing in the kernel, copying through the 912-byte buffer and scanning in
  the server give back exactly the numbers the kernel computed, for all counters.\<close>
theorem server_relays_kernel:
  assumes "wired A E u" and "copies E u"
  shows "handle_swap_info A = relayed A ''swap_info'' [''total'', ''used'', ''free''] (swap_values E)
    \<and> handle_page_faults_info A =
        relayed A ''page_faults_info'' [''minor_faults'', ''major_faults''] (faults_values E)
    \<and> handle_memory_pages_info A =
        relayed A ''memory_pages_info'' [''active'', ''inactive''] (pages_values E)"
  using swap_ch.handler_result [OF wired_replies(1) [OF assms]]
    faults_ch.handler_result [OF wired_replies(2) [OF assms]]
    pages_ch.handler_result [OF wired_replies(3) [OF assms]]
  by (simp add: handle_swap_info_def handle_page_faults_info_def handle_memory_pages_info_def
      sys_numbers relayed_def scanned_def swap_values_def faults_values_def pages_values_def
      Let_def upt_rec)

definition sample_api :: "u64 api_env" where
  "sample_api = \<lparr>ae_syscall = (\<lambda>num _. the (libc_result (stats_table sample_mem 4096 num))),
     ae_double = id, ae_parse = (\<lambda>_. None), ae_item = (\<lambda>_ _. None), ae_valuedouble = (\<lambda>_. 0),
     ae_valuestring = (\<lambda>_. None), ae_print = (\<lambda>_. [])\<rparr>"

lemma sample_wired: "wired sample_api sample_mem 4096"
  by (auto simp: wired_def sample_api_def split: option.split)

lemma sample_copies: "copies sample_mem u"
  by (simp add: copies_def sample_mem_def)

theorem server_relays_kernel_witness:
  "wired sample_api sample_mem 4096 \<and> copies sample_mem 4096 \<and>
   handle_swap_info sample_api =
     Done (Some (JObj [(''swap_info'', JObj [(''total'', JNum (Some 2097152)),
       (''used'', JNum (Some 97152)), (''free'', JNum (Some 2000000))])]))"
  using server_relays_kernel [OF sample_wired sample_copies] sample_wired sample_copies
  by (simp add: relayed_def swap_values_def sample_mem_def sample_info_def PAGE_SHIFT_def Let_def
      sample_api_def)

text \<open>For RAM the formats of kernel and server disagree: the kernel prints
  \<open>buffers\<close> before \<open>percentage_used\<close>, the server's format does not read it. \<open>sscanf\<close>
  stops after four values, on every machine, and the \<open>percentage_used\<close> the server
  publishes is an uninitialised variable.\<close>
theorem ram_percentage_lost:
  assumes "wired A E u" and "copies E u" and "get_ram_stats E u \<noteq> Oops"
  shows "handle_ram_stats A =
    Done (Some (JObj [(''ram_stats'', JObj
      (zip [''total'', ''used'', ''free'', ''cache''] (map (\<lambda>v. JNum (Some (ae_double A v))) (take 4 (ram_values E)))
       @ [(''percentage_used'', JNum None)]))]))"
  using ram_ch.handler_result [OF wired_replies(4) [OF assms]]
  by (simp add: handle_ram_stats_def sys_numbers scanned_def ram_values_def Let_def upt_rec)

theorem ram_percentage_lost_witness:
  "get_ram_stats sample_mem 4096 \<noteq> Oops \<and>
   handle_ram_stats sample_api =
     Done (Some (JObj [(''ram_stats'', JObj
       [(''total'', JNum (Some 4294967296)), (''used'', JNum (Some 1582825472)),
        (''free'', JNum (Some 1073741824)), (''cache'', JNum (Some 1634304000)),
        (''percentage_used'', JNum None)])]))"
proof -
  have n: "get_ram_stats sample_mem 4096 \<noteq> Oops"
    by (simp add: get_ram_stats_def ram.reply_delivered delivered_def Let_def mem_unit_def
        sample_mem_def sample_info_def)
  show ?thesis
    using n ram_percentage_lost [OF sample_wired sample_copies n]
    by (simp add: sample_mem_def sample_info_def ram_values_def used_mem_def cached_mem_def
        mem_unit_def PAGE_SIZE_def Let_def sample_api_def)
qed

text \<open>Every answer the server gives allows any origin; it is 500 with an empty body exactly
  when the handler of the URL failed, and 200 otherwise, also for an unknown URL.\<close>
theorem request_handler_answers:
  assumes "request_handler A url meth = Done r"
  shows "(''Access-Control-Allow-Origin'', ''*'') \<in> set (headers r)
    \<and> (status r = 500 \<longleftrightarrow> meth \<noteq> ''OPTIONS'' \<and> route A url = Done None)
    \<and> (status r \<noteq> 500 \<longrightarrow> status r = 200) \<and> (status r = 500 \<longrightarrow> body r = [])"
  using assms
  by (auto simp: request_handler_def cors_headers_def split: if_splits outcome.splits option.splits)

theorem request_handler_answers_witness:
  "request_handler sample_api ''/nope'' ''GET'' =
     Done \<lparr>status = 200, headers = (''Content-Type'', ''application/json'') # cors_headers, body = []\<rparr>
   \<and> status \<lparr>status = 200, headers = (''Content-Type'', ''application/json'') # cors_headers, body = []\<rparr> \<noteq> 500"
proof -
  have e: "request_handler sample_api ''/nope'' ''GET'' =
     Done \<lparr>status = 200, headers = (''Content-Type'', ''application/json'') # cors_headers, body = []\<rparr>"
    by (simp add: request_handler_def route_def sample_api_def)
  show ?thesis using e request_handler_answers [OF e] by simp
qed

end
