(* ===== verification/Proc_Info.thy ===== *)
theory Proc_Info
  imports Text_Format
begin

text \<open>
  The process list system call of \<open>Proyecto/linux-6.6.44/kernel/my_sys.c\<close>:
  \<open>obtener_info_procesos\<close> collects one record per process, \<open>procesos_info\<close> prints up to
  five of them as JSON into a buffer of the caller's size. The task list, the clock and
  the answers of the allocator and of \<open>copy_to_user\<close> are parameters.
\<close>

subsection \<open>Data\<close>

definition TASK_COMM_LEN :: nat where "TASK_COMM_LEN = 16"
definition max_procs :: nat where "max_procs = 1024"

text \<open>What the loop reads of a \<open>task_struct\<close>; \<open>tk_rss\<close> is \<open>None\<close> for a task without \<open>mm\<close>.\<close>

record task =
  tk_pid :: int
  tk_rss :: "u64 option"
  tk_utime :: u64
  tk_stime :: u64
  tk_comm :: string

record proc_mem_info =
  pm_pid :: int
  pm_rss :: u64
  pm_cpu_time :: u64
  pm_comm :: string
  pm_cpu_percentage :: u64

record proc_env =
  pe_tasks :: "task list"
  pe_now_ns :: u64
  pe_alloc_procs :: bool
  pe_alloc_output :: "u64 \<Rightarrow> bool"
  pe_uncopied :: "u64 \<Rightarrow> string \<Rightarrow> u64"

datatype proc_effect =
  Alloc_Procs | Alloc_Output | Free_Procs | Free_Output | Copy_Text u64 string u64

subsection \<open>obtener\_info\_procesos\<close>

definition proc_of_task :: "u64 \<Rightarrow> task \<Rightarrow> u64 \<Rightarrow> proc_mem_info" where
  "proc_of_task now t rss =
     (let task_total_time = tk_utime t + tk_stime t in
      \<lparr>pm_pid = tk_pid t, pm_rss = push_bit PAGE_SHIFT rss, pm_cpu_time = task_total_time,
       pm_comm = strncpy_text (tk_comm t) TASK_COMM_LEN,
       pm_cpu_percentage = task_total_time * 100 div (now div 1000000000)\<rparr>)"

text \<open>The loop over all tasks; the quotient by the seconds since boot traps in the first second.\<close>

fun collect_procs :: "u64 \<Rightarrow> task list \<Rightarrow> proc_mem_info list \<Rightarrow> proc_mem_info list outcome" where
  "collect_procs now [] procs = Done procs"
| "collect_procs now (t # ts) procs =
     (case tk_rss t of
        None \<Rightarrow> collect_procs now ts procs
      | Some rss \<Rightarrow>
          if length procs < max_procs then
            (if now div 1000000000 = 0 then Oops
             else collect_procs now ts (procs @ [proc_of_task now t rss]))
          else collect_procs now ts procs)"

definition obtener_info_procesos :: "proc_env \<Rightarrow> (int \<times> proc_mem_info list) outcome" where
  "obtener_info_procesos E =
     (if \<not> pe_alloc_procs E then Done (- ENOMEM, [])
      else (case collect_procs (pe_now_ns E) (pe_tasks E) [] of
              Oops \<Rightarrow> Oops
            | Done procs \<Rightarrow> Done (0, procs)))"

subsection \<open>procesos\_info\<close>

definition procs_head :: string where
  "procs_head = ''{\<newline>  \"Procesos_que_mas_memoria_usan\": [\<newline>''"

definition procs_row :: string where
  "procs_row = ''    { \"pid\": %d, \"name\": \"%s\", \"rss\": %lu, \"cpu_time\": %lu, \"cpu_percentage\": %lu }%s\<newline>''"

definition procs_tail :: string where
  "procs_tail = ''  ]\<newline>}\<newline>''"

definition row_text :: "proc_mem_info list \<Rightarrow> nat \<Rightarrow> string" where
  "row_text procs i =
     (let p = procs ! i in
      format_text procs_row
        [D (pm_pid p), S (text_upto_nul (pm_comm p)), LU (pm_rss p), LU (pm_cpu_time p),
         LU (pm_cpu_percentage p), S (if i = 4 \<or> i = length procs - 1 then [] else '','')])"

text \<open>\<open>snprintf(output + strlen(output), output_size - strlen(output), \<dots>)\<close>.\<close>

definition append_text :: "cbuf \<Rightarrow> nat \<Rightarrow> string \<Rightarrow> cbuf outcome" where
  "append_text out osize s =
     (case cstr out of None \<Rightarrow> Oops | Some t \<Rightarrow> Done (snprintf_at out (length t) (osize - length t) s))"

text \<open>The loop \<open>for (int i = 0; i < 5 && i < proc_count; i++)\<close>, over the remaining indices.\<close>

fun append_rows :: "proc_mem_info list \<Rightarrow> nat \<Rightarrow> nat list \<Rightarrow> cbuf \<Rightarrow> cbuf outcome" where
  "append_rows procs osize [] out = Done out"
| "append_rows procs osize (i # is) out =
     (case append_text out osize (row_text procs i) of
        Oops \<Rightarrow> Oops | Done out' \<Rightarrow> append_rows procs osize is out')"

definition procs_output :: "proc_mem_info list \<Rightarrow> nat \<Rightarrow> cbuf outcome" where
  "procs_output procs osize =
     (case append_rows procs osize [0..<min 5 (length procs)]
             (snprintf_at (replicate osize None) 0 osize procs_head) of
        Oops \<Rightarrow> Oops
      | Done out \<Rightarrow> append_text out osize procs_tail)"

text \<open>
  \<open>output_size\<close> is the caller's \<open>size_t\<close> converted to \<open>int\<close>, and converted back for
  \<open>kmalloc\<close>. An allocation of zero bytes yields a pointer that may not be read, so the
  first \<open>strlen\<close> traps; \<open>kmalloc\<close> grants no negative osize (more than \<open>KMALLOC_MAX_SIZE\<close>).
\<close>

definition procesos_info ::
  "proc_env \<Rightarrow> u64 \<Rightarrow> u64 \<Rightarrow> (int \<times> proc_effect list) outcome" where
  "procesos_info E buffer osize =
     (let output_size = sint (ucast osize :: u32) in
      case obtener_info_procesos E of
        Oops \<Rightarrow> Oops
      | Done (err, procs) \<Rightarrow>
          if err \<noteq> 0 then Done (err, [])
          else if \<not> pe_alloc_output E (size_of_int output_size) then
            Done (- ENOMEM, [Alloc_Procs, Free_Procs])
          else if output_size \<le> 0 then Oops
          else
            (case procs_output procs (nat output_size) of
               Oops \<Rightarrow> Oops
             | Done out \<Rightarrow>
                 (case cstr out of
                    None \<Rightarrow> Oops
                  | Some t \<Rightarrow>
                      (let left = pe_uncopied E buffer t in
                       Done (if left \<noteq> 0 then - EFAULT else 0,
                             [Alloc_Procs, Alloc_Output, Copy_Text buffer t left, Free_Procs, Free_Output])))))"

subsection \<open>Appending\<close>

lemma append_text_prefix:
  assumes "cstr out = Some (take (osize - 1) t)" and "0 < osize" and "NUL \<notin> set s"
  shows "\<exists>out'. append_text out osize s = Done out' \<and> cstr out' = Some (take (osize - 1) (t @ s))"
proof -
  let ?t = "take (osize - 1) t"
  have n: "0 < osize - length ?t" using assms(2) by simp
  have "cstr (snprintf_at out (length ?t) (osize - length ?t) s) = Some (?t @ take (osize - length ?t - 1) s)"
    using assms(1,3) n by (rule cstr_snprintf_at_end)
  moreover have "?t @ take (osize - length ?t - 1) s = take (osize - 1) (t @ s)"
    by (cases "length t \<le> osize - 1") (simp_all add: min_def)
  ultimately show ?thesis using assms(1) by (simp add: append_text_def)
qed

definition rows_text :: "proc_mem_info list \<Rightarrow> nat list \<Rightarrow> string" where
  "rows_text procs is = concat (map (row_text procs) is)"

lemma append_rows_prefix:
  assumes "0 < osize" and "\<And>i. i \<in> set is \<Longrightarrow> NUL \<notin> set (row_text procs i)"
    and "cstr out = Some (take (osize - 1) t)"
  shows "\<exists>out'. append_rows procs osize is out = Done out'
    \<and> cstr out' = Some (take (osize - 1) (t @ rows_text procs is))"
  using assms(2,3)
proof (induction "is" arbitrary: out t)
  case Nil
  then show ?case by (simp add: rows_text_def)
next
  case (Cons i "is")
  obtain o1 where o1: "append_text out osize (row_text procs i) = Done o1"
    "cstr o1 = Some (take (osize - 1) (t @ row_text procs i))"
    using append_text_prefix [OF Cons.prems(2) assms(1) Cons.prems(1)] by auto
  obtain o2 where "append_rows procs osize is o1 = Done o2"
    "cstr o2 = Some (take (osize - 1) ((t @ row_text procs i) @ rows_text procs is))"
    using Cons.IH [OF _ o1(2)] Cons.prems(1) by auto
  with o1 show ?case by (simp add: rows_text_def)
qed

text \<open>The text the call means to print.\<close>

definition procs_text :: "proc_mem_info list \<Rightarrow> string" where
  "procs_text procs = procs_head @ rows_text procs [0..<min 5 (length procs)] @ procs_tail"

lemma NUL_text_upto_nul: "NUL \<notin> set (text_upto_nul s)"
  by (auto simp: text_upto_nul_def dest: set_takeWhileD)

lemma row_no_nul: "NUL \<notin> set (row_text procs i)"
  unfolding row_text_def format_text_def Let_def
  by (rule print_items_no_nul) (auto simp: procs_row_def NUL_text_upto_nul split: if_splits)

lemma procs_output_prefix:
  assumes "0 < osize"
  shows "\<exists>out. procs_output procs osize = Done out \<and> cstr out = Some (take (osize - 1) (procs_text procs))"
proof -
  have h: "cstr (snprintf_at (replicate osize None) 0 osize procs_head) = Some (take (osize - 1) procs_head)"
    using assms by (rule cstr_snprintf_at_0) (simp add: procs_head_def)
  obtain o1 where o1: "append_rows procs osize [0..<min 5 (length procs)]
      (snprintf_at (replicate osize None) 0 osize procs_head) = Done o1"
    "cstr o1 = Some (take (osize - 1) (procs_head @ rows_text procs [0..<min 5 (length procs)]))"
    using append_rows_prefix [OF assms row_no_nul h] by blast
  obtain o2 where "append_text o1 osize procs_tail = Done o2"
    "cstr o2 = Some (take (osize - 1) ((procs_head @ rows_text procs [0..<min 5 (length procs)]) @ procs_tail))"
    using append_text_prefix [OF o1(2) assms, of procs_tail] by (auto simp: procs_tail_def)
  with o1 show ?thesis by (simp add: procs_output_def procs_text_def)
qed

subsection \<open>What the call reports\<close>

definition proc_infos :: "u64 \<Rightarrow> task list \<Rightarrow> proc_mem_info list" where
  "proc_infos now ts =
     concat (map (\<lambda>t. case tk_rss t of None \<Rightarrow> [] | Some rss \<Rightarrow> [proc_of_task now t rss]) ts)"

lemma collect_procs_spec:
  "now div 1000000000 \<noteq> 0 \<Longrightarrow> length procs \<le> max_procs \<Longrightarrow>
   collect_procs now ts procs = Done (procs @ take (max_procs - length procs) (proc_infos now ts))"
  by (induction now ts procs rule: collect_procs.induct)
    (auto simp: proc_infos_def Suc_diff_le max_procs_def split: option.splits)

text \<open>C2: after the first second of uptime and when both allocations succeed, the call copies,
  for every buffer size, the longest prefix that fits of the JSON text built from the first
  1024 processes with an address space, in list order; it returns 0 or \<open>-EFAULT\<close> and
  frees both allocations.\<close>
theorem procesos_info_reports:
  assumes "pe_now_ns E div 1000000000 \<noteq> 0" and "pe_alloc_procs E"
    and "0 < sint (ucast osize :: u32)" and "pe_alloc_output E (size_of_int (sint (ucast osize :: u32)))"
  shows "procesos_info E buffer osize =
    (let procs = take max_procs (proc_infos (pe_now_ns E) (pe_tasks E));
         t = take (nat (sint (ucast osize :: u32)) - 1) (procs_text procs);
         left = pe_uncopied E buffer t
     in Done (if left \<noteq> 0 then - EFAULT else 0,
              [Alloc_Procs, Alloc_Output, Copy_Text buffer t left, Free_Procs, Free_Output]))"
proof -
  let ?n = "nat (sint (ucast osize :: u32))"
  let ?procs = "take max_procs (proc_infos (pe_now_ns E) (pe_tasks E))"
  have o: "obtener_info_procesos E = Done (0, ?procs)"
    using assms(1,2) by (simp add: obtener_info_procesos_def collect_procs_spec)
  have "0 < ?n" using assms(3) by simp
  then obtain out where "procs_output ?procs ?n = Done out"
    and "cstr out = Some (take (?n - 1) (procs_text ?procs))"
    using procs_output_prefix by blast
  with o assms(3,4) show ?thesis by (simp add: procesos_info_def Let_def)
qed

definition sample_task :: "int \<Rightarrow> u64 \<Rightarrow> task" where
  "sample_task i rss = \<lparr>tk_pid = i, tk_rss = Some rss, tk_utime = 5000000000, tk_stime = 0, tk_comm = ''sh''\<rparr>"

definition sample_procs :: proc_env where
  "sample_procs = \<lparr>pe_tasks = [sample_task 1 10, (sample_task 2 0)\<lparr>tk_rss := None\<rparr>],
     pe_now_ns = 10000000000, pe_alloc_procs = True, pe_alloc_output = (\<lambda>_. True),
     pe_uncopied = (\<lambda>_ _. 0)\<rparr>"

theorem procesos_info_reports_witness:
  "\<exists>t. procesos_info sample_procs 0 912 =
     Done (0, [Alloc_Procs, Alloc_Output, Copy_Text 0 t 0, Free_Procs, Free_Output])
   \<and> t = take 911 (procs_text [proc_of_task 10000000000 (sample_task 1 10) 10])"
  using procesos_info_reports [of sample_procs 912 0]
  by (simp add: sample_procs_def sample_task_def proc_infos_def max_procs_def Let_def)

text \<open>
  The bound that makes the server's 912-byte buffer large enough: names of at most 15
  characters and 32-bit process ids.
\<close>

definition printable_proc :: "proc_mem_info \<Rightarrow> bool" where
  "printable_proc p \<longleftrightarrow> length (text_upto_nul (pm_comm p)) < TASK_COMM_LEN
     \<and> - (2 ^ 31) \<le> pm_pid p \<and> pm_pid p < 2 ^ 31"

lemma row_length:
  assumes "printable_proc (procs ! i)"
  shows "length (row_text procs i) \<le> 158"
proof -
  let ?p = "procs ! i"
  let ?as = "[D (pm_pid ?p), S (text_upto_nul (pm_comm ?p)), LU (pm_rss ?p), LU (pm_cpu_time ?p),
         LU (pm_cpu_percentage ?p), S (if i = 4 \<or> i = length procs - 1 then [] else '','')]"
  have "length (row_text procs i) \<le> lit_count (fmt_items procs_row) + sum_list (map arg_max ?as)"
    unfolding row_text_def format_text_def Let_def by (rule length_print_items)
  moreover have "lit_count (fmt_items procs_row) = 71" by (simp add: procs_row_def)
  moreover have "length (dec_int (pm_pid ?p)) \<le> 11"
    using assms by (intro length_dec_int) (auto simp: printable_proc_def)
  moreover have "length (if i = 4 \<or> i = length procs - 1 then [] else '','') \<le> 1" by simp
  ultimately show ?thesis using assms by (auto simp: printable_proc_def TASK_COMM_LEN_def)
qed

lemma length_rows:
  assumes "\<And>i. i \<in> set is \<Longrightarrow> length (row_text procs i) \<le> k"
  shows "length (rows_text procs is) \<le> k * length is"
  using assms by (induction "is") (fastforce simp: rows_text_def)+

text \<open>The list of five never needs more than 835 bytes: with a buffer of at least 836 bytes,
  such as the server's 912, no reply is ever cut, whatever the counters and names.\<close>
theorem procs_text_fits:
  assumes "\<forall>p \<in> set procs. printable_proc p" and "836 \<le> n"
  shows "take (n - 1) (procs_text procs) = procs_text procs"
proof -
  have "length (row_text procs i) \<le> 158" if "i \<in> set [0..<min 5 (length procs)]" for i
    using that assms(1) by (intro row_length) auto
  then have "length (rows_text procs [0..<min 5 (length procs)]) \<le> 158 * length [0..<min 5 (length procs)]"
    by (rule length_rows)
  then have "length (rows_text procs [0..<min 5 (length procs)]) \<le> 790" by simp
  moreover have "length procs_head = 39" "length procs_tail = 6"
    by (simp_all add: procs_head_def procs_tail_def)
  ultimately show ?thesis using assms(2) by (simp add: procs_text_def)
qed

theorem procs_text_fits_witness:
  "take 911 (procs_text [proc_of_task 10000000000 (sample_task 1 10) 10]) =
   procs_text [proc_of_task 10000000000 (sample_task 1 10) 10]"
  using procs_text_fits [of "[proc_of_task 10000000000 (sample_task 1 10) 10]" 912]
  by (simp add: printable_proc_def proc_of_task_def sample_task_def Let_def TASK_COMM_LEN_def
      text_upto_nul_strncpy)

text \<open>The report lists the first five processes of the task list, not the five that use
  most memory: nothing about any later process can change it.\<close>
theorem report_ignores_later_processes:
  assumes "length xs = 5"
  shows "procs_text (xs @ ys) = procs_text xs"
proof -
  have "row_text (xs @ ys) i = row_text xs i" if "i < 5" for i
    using that assms by (auto simp: row_text_def Let_def nth_append)
  then have "rows_text (xs @ ys) [0..<5] = rows_text xs [0..<5]"
    unfolding rows_text_def by (intro arg_cong [where f = concat] map_cong) auto
  then show ?thesis using assms by (simp add: procs_text_def)
qed

theorem report_ignores_later_processes_witness:
  "procs_text (replicate 5 (proc_of_task 2000000000 (sample_task 1 1) 1)
      @ [proc_of_task 2000000000 (sample_task 6 1000000) 1000000]) =
   procs_text (replicate 5 (proc_of_task 2000000000 (sample_task 1 1) 1))
   \<and> pm_rss (proc_of_task 2000000000 (sample_task 1 1) 1)
       < pm_rss (proc_of_task 2000000000 (sample_task 6 1000000) 1000000)"
  using report_ignores_later_processes
    [of "replicate 5 (proc_of_task 2000000000 (sample_task 1 1) 1)"]
  by (simp add: proc_of_task_def Let_def PAGE_SHIFT_def)

text \<open>The \<open>cpu_percentage\<close> field divides nanoseconds of CPU time by seconds of uptime: a
  process that ran \<open>s\<close> of \<open>n\<close> seconds is reported at \<open>10^9\<close> times its percentage.\<close>
theorem cpu_percentage_scale:
  assumes "unat (tk_utime t + tk_stime t) = s * 1000000000" and "unat now = n * 1000000000"
    and "s * 100000000000 < 2 ^ 64"
  shows "unat (pm_cpu_percentage (proc_of_task now t rss)) = s * 100 * 1000000000 div n"
proof -
  have "unat ((tk_utime t + tk_stime t) * 100) = s * 100 * 1000000000"
    using assms(1,3) unat_mult_lem [of "tk_utime t + tk_stime t" 100] by simp
  moreover have "unat (now div 1000000000) = n" using assms(2) by (simp add: unat_div)
  ultimately show ?thesis by (simp add: proc_of_task_def Let_def unat_div)
qed

theorem cpu_percentage_scale_witness:
  "unat (pm_cpu_percentage (proc_of_task 10000000000 (sample_task 1 10) 10)) = 50 * 1000000000"
  using cpu_percentage_scale [of "sample_task 1 10" 5 10000000000 10 10]
  by (simp add: sample_task_def)

end
