(* ===== verification/Xor_Cipher.thy ===== *)
theory Xor_Cipher
  imports Kernel_Prelude
begin

text \<open>
  The cipher of \<open>Practica2/linux-6.6.44/kernel/my_encrypt.c\<close> below its file handling: the
  division of the buffer into fragments, the loop of one worker thread, and the creation
  of, the waiting for and the interleaving of all of them. The C structures hold pointers
  to one shared data buffer and one shared key; here both are passed explicitly.
\<close>

subsection \<open>Fragments\<close>

record fragment =
  fr_data_size :: u64
  fr_key_length :: u64
  fr_start_idx :: u64
  fr_end_idx :: u64

text \<open>
  The fragment the creation loop stores for index \<open>i\<close>. \<open>i\<close> and \<open>thread_count\<close> are \<open>int\<close> and
  are converted to \<open>size_t\<close> where they meet \<open>file_size\<close> and \<open>fragment_size\<close>.
\<close>

definition fragment_of :: "u64 \<Rightarrow> u64 \<Rightarrow> int \<Rightarrow> nat \<Rightarrow> fragment" where
  "fragment_of file_size key_length thread_count i =
     (let fragment_size = file_size div size_of_int thread_count;
          extra_bytes = file_size mod size_of_int thread_count
      in \<lparr>fr_data_size = file_size, fr_key_length = key_length,
          fr_start_idx = size_of_int (int i) * fragment_size,
          fr_end_idx =
            (if int i = thread_count - 1
             then size_of_int (int i + 1) * fragment_size + extra_bytes
             else size_of_int (int i + 1) * fragment_size)\<rparr>)"

subsection \<open>One worker\<close>

text \<open>
  The loop of \<open>perform_xor_operation\<close>; \<open>None\<close> is an access outside the buffer or the key,
  or a division by a zero key length.
\<close>

definition xor_byte :: "bytes \<Rightarrow> bytes \<Rightarrow> u64 \<Rightarrow> u64 \<Rightarrow> u8 option" where
  "xor_byte buf key key_length i =
     (if key_length = 0 \<or> length buf \<le> unat i \<or> length key \<le> unat (i mod key_length) then None
      else Some ((buf ! unat i) XOR (key ! unat (i mod key_length))))"

function xor_loop :: "bytes \<Rightarrow> bytes \<Rightarrow> u64 \<Rightarrow> u64 \<Rightarrow> u64 \<Rightarrow> bytes option" where
  "xor_loop buf key key_length i end_idx =
     (if i < end_idx then
        (case xor_byte buf key key_length i of
           None \<Rightarrow> None
         | Some v \<Rightarrow> xor_loop (buf[unat i := v]) key key_length (i + 1) end_idx)
      else Some buf)"
  by pat_completeness auto
termination
  by (relation "measure (\<lambda>(buf, key, kl, i, e). unat e - unat i)")
    (auto simp: unat_Suc_less word_less_nat_alt)

declare xor_loop.simps [simp del]

definition perform_xor_operation :: "bytes \<Rightarrow> bytes \<Rightarrow> fragment \<Rightarrow> bytes option" where
  "perform_xor_operation buf key f =
     xor_loop buf key (fr_key_length f) (fr_start_idx f) (fr_end_idx f)"

text \<open>All workers one after the other, the schedule in which no two of them overlap.\<close>

fun run_workers :: "bytes \<Rightarrow> fragment list \<Rightarrow> bytes \<Rightarrow> bytes option" where
  "run_workers key [] buf = Some buf"
| "run_workers key (f # fs) buf =
     (case perform_xor_operation buf key f of None \<Rightarrow> None | Some buf' \<Rightarrow> run_workers key fs buf')"

definition run_threads :: "bytes \<Rightarrow> u64 \<Rightarrow> int \<Rightarrow> bytes \<Rightarrow> bytes option" where
  "run_threads key file_size n buf =
     run_workers key (map (fragment_of file_size (of_nat (length key)) n) [0..<nat n]) buf"

subsection \<open>The cipher it computes\<close>

definition xor_at :: "bytes \<Rightarrow> bytes \<Rightarrow> nat \<Rightarrow> u8" where
  "xor_at key data j = (data ! j) XOR (key ! (j mod length key))"

definition xor_all :: "bytes \<Rightarrow> bytes \<Rightarrow> bytes" where
  "xor_all key data = map (xor_at key data) [0..<length data]"

definition xor_range :: "bytes \<Rightarrow> nat \<Rightarrow> nat \<Rightarrow> bytes \<Rightarrow> bytes" where
  "xor_range key a b data =
     map (\<lambda>j. if a \<le> j \<and> j < b then xor_at key data j else data ! j) [0..<length data]"

lemma length_xor_all [simp]: "length (xor_all key data) = length data"
  by (simp add: xor_all_def)

lemma nth_xor_all [simp]: "j < length data \<Longrightarrow> xor_all key data ! j = xor_at key data j"
  by (simp add: xor_all_def)

lemma length_xor_range [simp]: "length (xor_range key a b data) = length data"
  by (simp add: xor_range_def)

lemma nth_xor_range [simp]:
  "j < length data \<Longrightarrow>
   xor_range key a b data ! j = (if a \<le> j \<and> j < b then xor_at key data j else data ! j)"
  by (simp add: xor_range_def)

lemma xor_range_empty [simp]: "b \<le> a \<Longrightarrow> xor_range key a b data = data"
  by (rule nth_equalityI) auto

lemma xor_range_full: "length data \<le> b \<Longrightarrow> xor_range key 0 b data = xor_all key data"
  by (rule nth_equalityI) auto

lemma xor_range_range:
  "a \<le> b \<Longrightarrow> b \<le> c \<Longrightarrow> xor_range key b c (xor_range key a b data) = xor_range key a c data"
  by (rule nth_equalityI) (auto simp: xor_at_def)

lemma xor_all_involution: "xor_all key (xor_all key data) = data"
  by (rule nth_equalityI) (auto simp: xor_at_def xor.assoc)

lemma xor_byte_Some:
  assumes "unat kl = length key" and "key \<noteq> []" and "unat i < length buf"
  shows "xor_byte buf key kl i = Some (xor_at key buf (unat i))"
proof -
  have "kl \<noteq> 0" using assms(1,2) by (metis length_greater_0_conv less_irrefl unat_0)
  moreover have "unat (i mod kl) = unat i mod length key" using assms(1) by (simp add: unat_mod)
  moreover have "unat i mod length key < length key" using assms(2) by simp
  ultimately show ?thesis using assms(3) by (simp add: xor_byte_def xor_at_def)
qed

lemma xor_loop_spec:
  "unat kl = length key \<Longrightarrow> key \<noteq> [] \<Longrightarrow> unat e \<le> length buf \<Longrightarrow>
   xor_loop buf key kl i e = Some (xor_range key (unat i) (unat e) buf)"
proof (induction buf key kl i e rule: xor_loop.induct)
  case (1 buf key kl i e)
  show ?case
  proof (cases "i < e")
    case True
    then have i: "unat i < length buf" "unat i < unat e"
      using "1.prems"(3) by (auto simp: word_less_nat_alt)
    let ?v = "xor_at key buf (unat i)"
    have b: "xor_byte buf key kl i = Some ?v" using "1.prems" i by (intro xor_byte_Some)
    have "xor_loop (buf[unat i := ?v]) key kl (i + 1) e =
        Some (xor_range key (unat (i + 1)) (unat e) (buf[unat i := ?v]))"
      using "1.IH" [OF True b] "1.prems" by simp
    moreover have "xor_range key (unat (i + 1)) (unat e) (buf[unat i := ?v]) = xor_range key (unat i) (unat e) buf"
      using i by (intro nth_equalityI) (auto simp: unat_Suc_less [OF True] nth_list_update xor_at_def)
    ultimately show ?thesis using True b by (simp add: xor_loop.simps [of buf])
  next
    case False
    then have "unat e \<le> unat i" by (simp add: word_less_nat_alt)
    with False show ?thesis by (simp add: xor_loop.simps [of buf])
  qed
qed

subsection \<open>The fragments tile the buffer\<close>

text \<open>The \<open>k\<close>-th cut point of a buffer of \<open>sz\<close> bytes shared by \<open>n\<close> threads.\<close>

definition cut_at :: "nat \<Rightarrow> nat \<Rightarrow> nat \<Rightarrow> nat" where
  "cut_at sz n k = (if k = n then sz else k * (sz div n))"

lemma cut_0 [simp]: "0 < n \<Longrightarrow> cut_at sz n 0 = 0"
  by (simp add: cut_at_def)

lemma cut_n [simp]: "cut_at sz n n = sz"
  by (simp add: cut_at_def)

lemma cut_step: "k < n \<Longrightarrow> cut_at sz n k \<le> cut_at sz n (Suc k)"
proof -
  assume k: "k < n"
  have "k * (sz div n) \<le> n * (sz div n)" using k by simp
  also have "\<dots> \<le> sz" by simp
  finally have "k * (sz div n) \<le> sz" .
  then show ?thesis using k by (simp add: cut_at_def)
qed

lemma cut_mono:
  assumes "i \<le> j" and "j \<le> n"
  shows "cut_at sz n i \<le> cut_at sz n j"
  using assms
proof (induction j)
  case (Suc j)
  then show ?case using cut_step [of j n sz] by (cases "i = Suc j") auto
qed simp

lemma cut_le: "k \<le> n \<Longrightarrow> cut_at sz n k \<le> sz"
  using cut_mono [of k n n sz] by simp

lemma cut_unique:
  assumes "cut_at sz n s \<le> j" "j < cut_at sz n (Suc s)" "cut_at sz n t \<le> j" "j < cut_at sz n (Suc t)"
    and "s < n" "t < n"
  shows "s = t"
proof (rule ccontr)
  assume "s \<noteq> t"
  then consider "Suc s \<le> t" | "Suc t \<le> s" by linarith
  then show False
  proof cases
    case 1
    then have "cut_at sz n (Suc s) \<le> cut_at sz n t" using assms(6) by (intro cut_mono) auto
    with assms show False by simp
  next
    case 2
    then have "cut_at sz n (Suc t) \<le> cut_at sz n s" using assms(5) by (intro cut_mono) auto
    with assms show False by simp
  qed
qed

lemma cut_cover:
  assumes "j < sz" and "0 < n"
  shows "\<exists>t < n. cut_at sz n t \<le> j \<and> j < cut_at sz n (Suc t)"
proof -
  have "\<exists>t < k. cut_at sz n t \<le> j \<and> j < cut_at sz n (Suc t)" if "j < cut_at sz n k" "k \<le> n" for k
    using that
  proof (induction k)
    case 0
    then show ?case using assms(2) by simp
  next
    case (Suc k)
    show ?case
    proof (cases "j < cut_at sz n k")
      case True
      then obtain t where "t < k" "cut_at sz n t \<le> j" "j < cut_at sz n (Suc t)"
        using Suc by auto
      then show ?thesis by (intro exI [of _ t]) simp
    next
      case False
      then show ?thesis using Suc.prems by (intro exI [of _ k]) simp
    qed
  qed
  from this [of n] show ?thesis using assms(1) by simp
qed

text \<open>\<open>thread_count\<close> as the C \<open>int\<close> it is: positive and at most \<open>INT_MAX\<close>.\<close>

definition valid_count :: "int \<Rightarrow> bool" where
  "valid_count n \<longleftrightarrow> 0 < n \<and> n < 2 ^ 31"

lemma fragment_bounds:
  fixes fs kl :: u64
  assumes "valid_count n" and "t < nat n"
  shows "unat (fr_start_idx (fragment_of fs kl n t)) = cut_at (unat fs) (nat n) t"
    and "unat (fr_end_idx (fragment_of fs kl n t)) = cut_at (unat fs) (nat n) (Suc t)"
    and "fr_key_length (fragment_of fs kl n t) = kl"
proof -
  let ?q = "fs div size_of_int n" and ?r = "fs mod size_of_int n"
  have n: "0 < n" "n < 2 ^ 31" using assms(1) by (auto simp: valid_count_def)
  have sn: "unat (size_of_int n) = nat n" using n by (intro unat_size_of_int) auto
  have q: "unat ?q = unat fs div nat n" and r: "unat ?r = unat fs mod nat n"
    using sn by (simp_all add: unat_div unat_mod)
  have b: "unat fs < 2 ^ 64" by simp
  have le: "k * (unat fs div nat n) \<le> unat fs" if "k \<le> nat n" for k
  proof -
    have "k * (unat fs div nat n) \<le> nat n * (unat fs div nat n)" using that by (rule mult_le_mono1)
    also have "\<dots> \<le> unat fs" by (rule times_div_less_eq_dividend)
    finally show ?thesis .
  qed
  have m: "unat (size_of_int (int k) * ?q) = k * (unat fs div nat n)" if "k \<le> nat n" for k
  proof -
    have "unat (size_of_int (int k)) = k" using that n by (simp add: unat_size_of_int)
    moreover have "k * (unat fs div nat n) < 2 ^ 64" using le [OF that] b by (rule le_less_trans)
    ultimately show ?thesis using q by (subst unat_mult_small) simp_all
  qed
  have m1: "unat (size_of_int (int t) * ?q) = t * (unat fs div nat n)"
    using m [of t] assms(2) by simp
  have m2: "unat (size_of_int (int t + 1) * ?q) = Suc t * (unat fs div nat n)"
    using m [of "Suc t"] assms(2) by (simp add: add.commute)
  show "unat (fr_start_idx (fragment_of fs kl n t)) = cut_at (unat fs) (nat n) t"
    using m1 assms(2) by (simp add: fragment_of_def Let_def cut_at_def)
  show "unat (fr_end_idx (fragment_of fs kl n t)) = cut_at (unat fs) (nat n) (Suc t)"
  proof (cases "int t = n - 1")
    case True
    then have nt: "nat n = Suc t" by simp
    have sum: "Suc t * (unat fs div nat n) + unat fs mod nat n = unat fs"
      unfolding nt [symmetric] by (rule mult_div_mod_eq)
    have "unat (size_of_int (int t + 1) * ?q + ?r) = unat fs"
      using m2 r sum b by (subst unat_add_small) simp_all
    then show ?thesis using True nt by (simp add: fragment_of_def Let_def cut_at_def)
  next
    case False
    then have "Suc t \<noteq> nat n" using assms(2) by linarith
    then show ?thesis using False m2 by (simp add: fragment_of_def Let_def cut_at_def)
  qed
  show "fr_key_length (fragment_of fs kl n t) = kl" by (simp add: fragment_of_def Let_def)
qed

text \<open>C9: for every positive thread count, also one larger than the file, the fragments are
  consecutive, start at 0, end at the file size and never wrap, so that each byte of the
  file belongs to exactly one fragment.\<close>
theorem fragments_tile:
  assumes "valid_count n" and "j < unat (fs :: u64)"
  shows "\<exists>!t. t < nat n \<and> unat (fr_start_idx (fragment_of fs kl n t)) \<le> j
                \<and> j < unat (fr_end_idx (fragment_of fs kl n t))"
proof -
  have "0 < nat n" using assms(1) by (simp add: valid_count_def)
  then obtain t where t: "t < nat n" "cut_at (unat fs) (nat n) t \<le> j" "j < cut_at (unat fs) (nat n) (Suc t)"
    using cut_cover [OF assms(2)] by blast
  show ?thesis
  proof (rule ex1I [of _ t])
    show "t < nat n \<and> unat (fr_start_idx (fragment_of fs kl n t)) \<le> j
        \<and> j < unat (fr_end_idx (fragment_of fs kl n t))"
      using t by (simp add: fragment_bounds [OF assms(1)])
  next
    fix s
    assume s: "s < nat n \<and> unat (fr_start_idx (fragment_of fs kl n s)) \<le> j
        \<and> j < unat (fr_end_idx (fragment_of fs kl n s))"
    then have "cut_at (unat fs) (nat n) s \<le> j" "j < cut_at (unat fs) (nat n) (Suc s)"
      using fragment_bounds [OF assms(1), of s] by auto
    with s t show "s = t" by (intro cut_unique) auto
  qed
qed

theorem fragments_tile_witness:
  "valid_count 3 \<and> (\<exists>!t. t < nat 3 \<and> unat (fr_start_idx (fragment_of 10 4 3 t)) \<le> 9
                \<and> 9 < unat (fr_end_idx (fragment_of 10 4 3 t)))"
  using fragments_tile [of 3 9 10 4] by (simp add: valid_count_def)

lemma run_workers_prefix:
  assumes n: "valid_count n" and kl: "length key < 2 ^ 64" "key \<noteq> []" and fs: "unat fs = length buf"
    and k: "k \<le> nat n"
  shows "run_workers key (map (fragment_of fs (of_nat (length key)) n) [0..<k]) buf =
    Some (xor_range key 0 (cut_at (unat fs) (nat n) k) buf)"
proof -
  have app: "run_workers key (xs @ ys) b =
      (case run_workers key xs b of None \<Rightarrow> None | Some b' \<Rightarrow> run_workers key ys b')" for xs ys b
    by (induction xs arbitrary: b) (auto split: option.splits)
  have klw: "unat (of_nat (length key) :: u64) = length key"
    using kl(1) by (simp add: unat_of_nat take_bit_nat_eq_self)
  show ?thesis
    using k
  proof (induction k)
    case 0
    then show ?case using n by (simp add: valid_count_def)
  next
    case (Suc k)
    let ?f = "fragment_of fs (of_nat (length key)) n k"
    let ?b = "xor_range key 0 (cut_at (unat fs) (nat n) k) buf"
    have k: "k < nat n" using Suc by simp
    note fb = fragment_bounds [OF n k, of fs "of_nat (length key)"]
    have "perform_xor_operation ?b key ?f =
        Some (xor_range key (unat (fr_start_idx ?f)) (unat (fr_end_idx ?f)) ?b)"
      unfolding perform_xor_operation_def using fb klw kl fs Suc.prems cut_le [of "Suc k" "nat n" "unat fs"]
      by (intro xor_loop_spec) auto
    also have "\<dots> = Some (xor_range key 0 (cut_at (unat fs) (nat n) (Suc k)) buf)"
      using fb cut_step [OF k] by (simp add: xor_range_range)
    finally show ?case using Suc by (simp add: app)
  qed
qed

lemma run_threads_xor_all:
  assumes "valid_count n" and "length key < 2 ^ 64" "key \<noteq> []" and "unat fs = length buf"
  shows "run_threads key fs n buf = Some (xor_all key buf)"
  using run_workers_prefix [OF assms, of "nat n"] assms(4)
  by (simp add: run_threads_def xor_range_full)

end
