(* ===== verification/Xor_Threads.thy ===== *)
theory Xor_Threads
  imports Xor_Cipher
begin

text \<open>
  The concurrent part of \<open>handle_file_encryption\<close>: the main thread creates the workers one
  by one while those already created run, waits for their completions in order, and writes
  the buffer. One step is one thread doing one memory access (a worker's read of its byte
  and key byte, or its write) or one call of the main thread; the scheduler is arbitrary,
  so the steps are a relation.
\<close>

subsection \<open>States and steps\<close>

text \<open>
  A worker between two accesses of its loop: about to load, about to store the value it
  computed, or past \<open>complete()\<close>. The main thread: creating worker \<open>i\<close>, waiting for worker
  \<open>j\<close>, past \<open>kernel_write\<close>, or past the error exit after a failed \<open>kthread_run\<close>.
\<close>

datatype wpc = Loading | Storing u8 | Completed

record worker =
  wk_i :: u64
  wk_frag :: fragment
  wk_pc :: wpc

datatype mpc = Creating nat | Waiting nat | Written | Failed int

record threads =
  th_buf :: bytes
  th_workers :: "worker list"
  th_main :: mpc
  th_output :: "bytes option"
  th_freed :: bool

definition new_worker :: "fragment \<Rightarrow> worker" where
  "new_worker f = \<lparr>wk_i = fr_start_idx f, wk_frag = f, wk_pc = Loading\<rparr>"

text \<open>
  \<open>key\<close>, \<open>fs\<close> (the file size) and \<open>n\<close> (the thread count) do not change. \<open>th_freed\<close> is set
  when the main thread runs the clean-up code that frees the buffer and the task list.
\<close>

inductive thread_step :: "bytes \<Rightarrow> u64 \<Rightarrow> int \<Rightarrow> threads \<Rightarrow> threads \<Rightarrow> bool"
  for key :: bytes and fs :: u64 and n :: int where
  load:
    "t < length (th_workers s) \<Longrightarrow> w = th_workers s ! t \<Longrightarrow> wk_pc w = Loading \<Longrightarrow>
     wk_i w < fr_end_idx (wk_frag w) \<Longrightarrow>
     xor_byte (th_buf s) key (fr_key_length (wk_frag w)) (wk_i w) = Some v \<Longrightarrow>
     thread_step key fs n s (s\<lparr>th_workers := (th_workers s)[t := w\<lparr>wk_pc := Storing v\<rparr>]\<rparr>)"
| store:
    "t < length (th_workers s) \<Longrightarrow> w = th_workers s ! t \<Longrightarrow> wk_pc w = Storing v \<Longrightarrow>
     thread_step key fs n s
       (s\<lparr>th_buf := (th_buf s)[unat (wk_i w) := v],
          th_workers := (th_workers s)[t := w\<lparr>wk_i := wk_i w + 1, wk_pc := Loading\<rparr>]\<rparr>)"
| complete:
    "t < length (th_workers s) \<Longrightarrow> w = th_workers s ! t \<Longrightarrow> wk_pc w = Loading \<Longrightarrow>
     \<not> wk_i w < fr_end_idx (wk_frag w) \<Longrightarrow>
     thread_step key fs n s (s\<lparr>th_workers := (th_workers s)[t := w\<lparr>wk_pc := Completed\<rparr>]\<rparr>)"
| create:
    "th_main s = Creating i \<Longrightarrow> int i < n \<Longrightarrow>
     thread_step key fs n s
       (s\<lparr>th_workers := th_workers s @ [new_worker (fragment_of fs (of_nat (length key)) n i)],
          th_main := Creating (Suc i)\<rparr>)"
| create_fails:
    "th_main s = Creating i \<Longrightarrow> int i < n \<Longrightarrow> e < 0 \<Longrightarrow>
     thread_step key fs n s (s\<lparr>th_main := Failed e, th_freed := True\<rparr>)"
| created:
    "th_main s = Creating i \<Longrightarrow> \<not> int i < n \<Longrightarrow> thread_step key fs n s (s\<lparr>th_main := Waiting 0\<rparr>)"
| wait:
    "th_main s = Waiting j \<Longrightarrow> int j < n \<Longrightarrow> wk_pc (th_workers s ! j) = Completed \<Longrightarrow>
     thread_step key fs n s (s\<lparr>th_main := Waiting (Suc j)\<rparr>)"
| finish_write:
    "th_main s = Waiting j \<Longrightarrow> \<not> int j < n \<Longrightarrow>
     thread_step key fs n s (s\<lparr>th_main := Written, th_output := Some (th_buf s), th_freed := True\<rparr>)"

definition start_threads :: "bytes \<Rightarrow> threads" where
  "start_threads data =
     \<lparr>th_buf = data, th_workers = [], th_main = Creating 0, th_output = None, th_freed = False\<rparr>"

inductive_cases thread_stepE: "thread_step key fs n s s'"

subsection \<open>The invariant\<close>

text \<open>Progress of worker \<open>t\<close>: the bytes of its fragment before its index are done.\<close>

definition progress :: "threads \<Rightarrow> nat \<Rightarrow> nat \<Rightarrow> bool" where
  "progress s t j \<longleftrightarrow> t < length (th_workers s) \<and> j < unat (wk_i (th_workers s ! t))"

definition buf_inv :: "bytes \<Rightarrow> bytes \<Rightarrow> nat \<Rightarrow> threads \<Rightarrow> bool" where
  "buf_inv key data m s \<longleftrightarrow>
     length (th_buf s) = length data \<and>
     (\<forall>t < m. \<forall>j. cut_at (length data) m t \<le> j \<longrightarrow> j < cut_at (length data) m (Suc t) \<longrightarrow>
        th_buf s ! j = (if progress s t j then xor_at key data j else data ! j))"

definition worker_inv :: "bytes \<Rightarrow> bytes \<Rightarrow> u64 \<Rightarrow> int \<Rightarrow> nat \<Rightarrow> worker \<Rightarrow> bool" where
  "worker_inv key data fs n t w \<longleftrightarrow>
     wk_frag w = fragment_of fs (of_nat (length key)) n t
     \<and> cut_at (length data) (nat n) t \<le> unat (wk_i w)
     \<and> unat (wk_i w) \<le> cut_at (length data) (nat n) (Suc t)
     \<and> (case wk_pc w of
          Loading \<Rightarrow> True
        | Storing v \<Rightarrow> unat (wk_i w) < cut_at (length data) (nat n) (Suc t) \<and> v = xor_at key data (unat (wk_i w))
        | Completed \<Rightarrow> unat (wk_i w) = cut_at (length data) (nat n) (Suc t))"

definition main_inv :: "bytes \<Rightarrow> bytes \<Rightarrow> nat \<Rightarrow> threads \<Rightarrow> bool" where
  "main_inv key data m s \<longleftrightarrow>
     (case th_main s of
        Creating i \<Rightarrow> length (th_workers s) = i \<and> i \<le> m \<and> \<not> th_freed s
      | Waiting j \<Rightarrow> length (th_workers s) = m \<and> j \<le> m \<and> \<not> th_freed s
          \<and> (\<forall>t < j. wk_pc (th_workers s ! t) = Completed)
      | Written \<Rightarrow> th_output s = Some (xor_all key data) \<and> length (th_workers s) = m
          \<and> (\<forall>t < m. wk_pc (th_workers s ! t) = Completed)
      | Failed e \<Rightarrow> th_output s = None \<and> length (th_workers s) \<le> m)
     \<and> (th_output s = None \<or> th_main s = Written)"

definition crypt_setup :: "bytes \<Rightarrow> bytes \<Rightarrow> u64 \<Rightarrow> int \<Rightarrow> bool" where
  "crypt_setup key data fs n \<longleftrightarrow>
     valid_count n \<and> key \<noteq> [] \<and> length key < 2 ^ 64 \<and> unat fs = length data"

definition thread_inv :: "bytes \<Rightarrow> bytes \<Rightarrow> u64 \<Rightarrow> int \<Rightarrow> threads \<Rightarrow> bool" where
  "thread_inv key data fs n s \<longleftrightarrow>
     crypt_setup key data fs n \<and> buf_inv key data (nat n) s
     \<and> (\<forall>t < length (th_workers s). worker_inv key data fs n t (th_workers s ! t))
     \<and> length (th_workers s) \<le> nat n \<and> main_inv key data (nat n) s"

lemma setup_key_length: "crypt_setup key data fs n \<Longrightarrow> unat (of_nat (length key) :: u64) = length key"
  by (simp add: crypt_setup_def unat_of_nat take_bit_nat_eq_self)

lemma start_inv:
  assumes "crypt_setup key data fs n"
  shows "thread_inv key data fs n (start_threads data)"
  using assms
  by (simp add: thread_inv_def start_threads_def buf_inv_def main_inv_def progress_def crypt_setup_def valid_count_def)

lemma end_idx_inv:
  assumes "crypt_setup key data fs n" and "t < nat n" and "worker_inv key data fs n t w"
  shows "unat (fr_end_idx (wk_frag w)) = cut_at (length data) (nat n) (Suc t)"
    and "unat (fr_start_idx (wk_frag w)) = cut_at (length data) (nat n) t"
    and "unat (fr_key_length (wk_frag w)) = length key"
  using assms fragment_bounds [of n t fs "of_nat (length key)"] setup_key_length [OF assms(1)]
  by (simp_all add: worker_inv_def crypt_setup_def)

lemma worker_bound:
  assumes "thread_inv key data fs n s" and "t < length (th_workers s)"
  shows "t < nat n" and "worker_inv key data fs n t (th_workers s ! t)"
  using assms by (auto simp: thread_inv_def)

lemma load_value:
  assumes inv: "thread_inv key data fs n s" and t: "t < length (th_workers s)"
    and w: "w = th_workers s ! t" and lt: "wk_i w < fr_end_idx (wk_frag w)"
  shows "xor_byte (th_buf s) key (fr_key_length (wk_frag w)) (wk_i w) = Some (xor_at key data (unat (wk_i w)))"
    and "unat (wk_i w) < cut_at (length data) (nat n) (Suc t)"
proof -
  have su: "crypt_setup key data fs n" and b: "buf_inv key data (nat n) s"
    using inv by (auto simp: thread_inv_def)
  note wb = worker_bound [OF inv t, folded w]
  note e = end_idx_inv [OF su wb]
  let ?i = "unat (wk_i w)"
  have lo: "cut_at (length data) (nat n) t \<le> ?i" using wb(2) by (simp add: worker_inv_def)
  show hi: "?i < cut_at (length data) (nat n) (Suc t)" using lt e(1) by (simp add: word_less_nat_alt)
  have len: "?i < length data" using hi cut_le [of "Suc t" "nat n" "length data"] wb(1) by simp
  have "\<not> progress s t ?i" using w by (simp add: progress_def)
  then have "th_buf s ! ?i = data ! ?i" using b wb(1) lo hi by (simp add: buf_inv_def)
  moreover have "xor_byte (th_buf s) key (fr_key_length (wk_frag w)) (wk_i w) = Some (xor_at key (th_buf s) ?i)"
    using e(3) su b len by (intro xor_byte_Some) (auto simp: crypt_setup_def buf_inv_def)
  ultimately show "xor_byte (th_buf s) key (fr_key_length (wk_frag w)) (wk_i w) = Some (xor_at key data ?i)"
    by (simp add: xor_at_def)
qed

text \<open>A step of worker \<open>t\<close> that keeps its index keeps the buffer and the main thread's part.\<close>

lemma main_inv_worker_step:
  assumes "main_inv key data m s" and "t < length (th_workers s)"
    and "wk_pc (th_workers s ! t) \<noteq> Completed"
  shows "main_inv key data m (s\<lparr>th_workers := (th_workers s)[t := w']\<rparr>)"
    and "main_inv key data m (s\<lparr>th_buf := b, th_workers := (th_workers s)[t := w']\<rparr>)"
  using assms by (auto simp: main_inv_def nth_list_update split: mpc.splits)

lemma pc_step_inv:
  assumes inv: "thread_inv key data fs n s" and t: "t < length (th_workers s)"
    and nc: "wk_pc (th_workers s ! t) \<noteq> Completed"
    and i: "wk_i w' = wk_i (th_workers s ! t)" and w': "worker_inv key data fs n t w'"
  shows "thread_inv key data fs n (s\<lparr>th_workers := (th_workers s)[t := w']\<rparr>)"
proof -
  have "progress (s\<lparr>th_workers := (th_workers s)[t := w']\<rparr>) u j = progress s u j" for u j
    using t i by (simp add: progress_def nth_list_update)
  then show ?thesis
    using inv t w' main_inv_worker_step(1) [of key data "nat n" s t w'] nc
    by (simp add: thread_inv_def buf_inv_def nth_list_update)
qed

lemma store_buf_inv:
  assumes inv: "thread_inv key data fs n s" and t: "t < length (th_workers s)"
    and w: "w = th_workers s ! t" and pc: "wk_pc w = Storing v"
  shows "buf_inv key data (nat n)
    (s\<lparr>th_buf := (th_buf s)[unat (wk_i w) := v],
       th_workers := (th_workers s)[t := w\<lparr>wk_i := wk_i w + 1, wk_pc := Loading\<rparr>]\<rparr>)"
    and "unat (wk_i w + 1) = Suc (unat (wk_i w))"
proof -
  let ?i = "unat (wk_i w)" and ?L = "length data" and ?m = "nat n"
  let ?s' = "s\<lparr>th_buf := (th_buf s)[?i := v],
       th_workers := (th_workers s)[t := w\<lparr>wk_i := wk_i w + 1, wk_pc := Loading\<rparr>]\<rparr>"
  have b: "buf_inv key data ?m s" and su: "crypt_setup key data fs n" using inv by (auto simp: thread_inv_def)
  note wb = worker_bound [OF inv t, folded w]
  have lo: "cut_at ?L ?m t \<le> ?i" and hi: "?i < cut_at ?L ?m (Suc t)" and v: "v = xor_at key data ?i"
    using wb(2) pc by (auto simp: worker_inv_def)
  have "wk_i w < fr_end_idx (wk_frag w)" using hi end_idx_inv(1) [OF su wb] by (simp add: word_less_nat_alt)
  then show suc: "unat (wk_i w + 1) = Suc ?i" by (rule unat_Suc_less)
  have len: "?i < ?L" using hi cut_le [of "Suc t" ?m ?L] wb(1) by simp
  have "th_buf ?s' ! j = (if progress ?s' u j then xor_at key data j else data ! j)"
    if u: "u < ?m" "cut_at ?L ?m u \<le> j" "j < cut_at ?L ?m (Suc u)" for u j
  proof (cases "u = t")
    case False
    then have "j \<noteq> ?i" using cut_unique [of ?L ?m u j t] u wb(1) lo hi by auto
    moreover have "progress ?s' u j = progress s u j" using False by (simp add: progress_def)
    ultimately show ?thesis using b u by (simp add: buf_inv_def)
  next
    case True
    have "progress ?s' t j = (j < Suc ?i)" using t suc by (simp add: progress_def)
    moreover have "progress s t j = (j < ?i)" using t w by (simp add: progress_def)
    ultimately show ?thesis
      using True b u v len by (cases "j = ?i") (auto simp: buf_inv_def less_Suc_eq)
  qed
  then show "buf_inv key data ?m ?s'" using b by (simp add: buf_inv_def)
qed

lemma create_inv:
  assumes inv: "thread_inv key data fs n s" and m: "th_main s = Creating i" and lt: "int i < n"
  shows "thread_inv key data fs n
    (s\<lparr>th_workers := th_workers s @ [new_worker (fragment_of fs (of_nat (length key)) n i)],
       th_main := Creating (Suc i)\<rparr>)"
proof -
  let ?L = "length data" and ?m = "nat n" and ?f = "fragment_of fs (of_nat (length key)) n i"
  let ?s' = "s\<lparr>th_workers := th_workers s @ [new_worker ?f], th_main := Creating (Suc i)\<rparr>"
  have su: "crypt_setup key data fs n" and len: "length (th_workers s) = i" and b: "buf_inv key data ?m s"
    using inv m by (auto simp: thread_inv_def main_inv_def)
  have i: "i < ?m" using lt by simp
  note fb = fragment_bounds [of n i fs "of_nat (length key)"]
  have start: "unat (fr_start_idx ?f) = cut_at ?L ?m i" using fb i su by (simp add: crypt_setup_def)
  have "worker_inv key data fs n i (new_worker ?f)"
    using start cut_step [OF i, of ?L] by (simp add: worker_inv_def new_worker_def)
  then have ws: "\<forall>t < length (th_workers ?s'). worker_inv key data fs n t (th_workers ?s' ! t)"
    using inv len by (auto simp: thread_inv_def nth_append less_Suc_eq)
  have "progress ?s' u j = progress s u j" if "cut_at ?L ?m u \<le> j" for u j
    using that len start by (auto simp: progress_def nth_append new_worker_def less_Suc_eq)
  then have "buf_inv key data ?m ?s'" using b by (simp add: buf_inv_def)
  with ws su inv m len i show ?thesis by (simp add: thread_inv_def main_inv_def)
qed

lemma write_value:
  assumes inv: "thread_inv key data fs n s" and m: "th_main s = Waiting j" and "\<not> int j < n"
  shows "th_buf s = xor_all key data"
proof (rule nth_equalityI)
  let ?L = "length data" and ?m = "nat n"
  have b: "buf_inv key data ?m s" and su: "crypt_setup key data fs n" and j: "j = ?m"
    and len: "length (th_workers s) = ?m" and all: "\<forall>t < ?m. wk_pc (th_workers s ! t) = Completed"
    using inv m assms(3) by (auto simp: thread_inv_def main_inv_def)
  show "length (th_buf s) = length (xor_all key data)" using b by (simp add: buf_inv_def)
  fix k
  assume "k < length (th_buf s)"
  then have k: "k < ?L" using b by (simp add: buf_inv_def)
  have "0 < ?m" using su by (simp add: crypt_setup_def valid_count_def)
  then obtain t where t: "t < ?m" "cut_at ?L ?m t \<le> k" "k < cut_at ?L ?m (Suc t)"
    using cut_cover [OF k] by blast
  have "worker_inv key data fs n t (th_workers s ! t)" using worker_bound [OF inv] len t by simp
  then have "progress s t k" using all len t by (simp add: worker_inv_def progress_def)
  then show "th_buf s ! k = xor_all key data ! k" using b t k by (simp add: buf_inv_def)
qed

lemma thread_step_inv:
  assumes inv: "thread_inv key data fs n s" and "thread_step key fs n s s'"
  shows "thread_inv key data fs n s'"
  using assms(2)
proof cases
  case (load t w v)
  have "worker_inv key data fs n t (w\<lparr>wk_pc := Storing v\<rparr>)"
    using load_value [OF inv load(2,3,5)] worker_bound [OF inv load(2)] load
    by (simp add: worker_inv_def)
  then show ?thesis using load by (simp add: pc_step_inv [OF inv])
next
  case (store t w v)
  let ?w' = "w\<lparr>wk_i := wk_i w + 1, wk_pc := Loading\<rparr>"
  note b = store_buf_inv [OF inv store(2,3,4)]
  have w: "worker_inv key data fs n t w" using worker_bound [OF inv store(2)] store(3) by simp
  then have "worker_inv key data fs n t ?w'" using b(2) store(4) by (simp add: worker_inv_def)
  then show ?thesis
    using inv b(1) main_inv_worker_step(2) [of key data "nat n" s t] store
    by (simp add: thread_inv_def nth_list_update)
next
  case (complete t w)
  have "crypt_setup key data fs n" using inv by (simp add: thread_inv_def)
  note e = end_idx_inv(1) [OF this worker_bound [OF inv complete(2)]]
  have "worker_inv key data fs n t (w\<lparr>wk_pc := Completed\<rparr>)"
    using e worker_bound [OF inv complete(2)] complete by (simp add: worker_inv_def word_less_nat_alt)
  then show ?thesis using complete by (simp add: pc_step_inv [OF inv])
next
  case (create i)
  then show ?thesis by (simp add: create_inv [OF inv])
next
  case (create_fails i e)
  then show ?thesis
    using inv by (auto simp: thread_inv_def main_inv_def buf_inv_def progress_def)
next
  case (created i)
  then show ?thesis
    using inv by (auto simp: thread_inv_def main_inv_def buf_inv_def progress_def)
next
  case (wait j)
  then show ?thesis
    using inv by (auto simp: thread_inv_def main_inv_def buf_inv_def progress_def less_Suc_eq)
next
  case (finish_write j)
  then show ?thesis
    using inv write_value [OF inv finish_write(2,3)]
    by (auto simp: thread_inv_def main_inv_def buf_inv_def progress_def)
qed

interpretation xor_sys: step_system "thread_step key fs n" "thread_inv key data fs n"
  for key data fs n
  by unfold_locales (rule thread_step_inv)

subsection \<open>Every schedule computes the cipher\<close>

text \<open>C3: however the scheduler interleaves the creation of the workers, their single memory
  accesses and the waiting, if the main thread reaches \<open>kernel_write\<close> then what it writes
  is the file combined with the repeated key, the result of the sequential schedule.\<close>
theorem every_schedule_writes_xor:
  assumes "crypt_setup key data fs n" and "reach (thread_step key fs n) (start_threads data) s"
    and "th_main s = Written"
  shows "th_output s = Some (xor_all key data) \<and> run_threads key fs n data = th_output s"
proof -
  have "thread_inv key data fs n s"
    using xor_sys.reach_keeps [OF assms(2)] start_inv [OF assms(1)] by blast
  then have "th_output s = Some (xor_all key data)"
    using assms(3) by (simp add: thread_inv_def main_inv_def)
  then show ?thesis
    using assms(1) run_threads_xor_all [of n key fs data] by (simp add: crypt_setup_def)
qed

definition sample_run_end :: threads where
  "sample_run_end =
     \<lparr>th_buf = [6], th_workers = [\<lparr>wk_i = 1, wk_frag = fragment_of 1 1 1 0, wk_pc = Completed\<rparr>],
      th_main = Written, th_output = Some [6], th_freed = True\<rparr>"

lemma sample_fragment: "fragment_of 1 1 1 0 = \<lparr>fr_data_size = 1, fr_key_length = 1, fr_start_idx = 0, fr_end_idx = 1\<rparr>"
  by (simp add: fragment_of_def size_of_int_def)

lemma sample_run: "reach (thread_step [3] 1 1) (start_threads [5]) sample_run_end"
proof -
  let ?st = "thread_step [3] 1 1"
  let ?f = "fragment_of 1 1 1 0"
  define s1 where "s1 = (start_threads [5])\<lparr>th_workers := [new_worker ?f], th_main := Creating 1\<rparr>"
  define s2 where "s2 = s1\<lparr>th_workers := [(new_worker ?f)\<lparr>wk_pc := Storing 6\<rparr>]\<rparr>"
  define s3 where "s3 = s2\<lparr>th_buf := [6], th_workers := [(new_worker ?f)\<lparr>wk_i := 1\<rparr>]\<rparr>"
  define s4 where "s4 = s3\<lparr>th_workers := [(new_worker ?f)\<lparr>wk_i := 1, wk_pc := Completed\<rparr>]\<rparr>"
  define s5 where "s5 = s4\<lparr>th_main := Waiting 0\<rparr>"
  define s6 where "s6 = s5\<lparr>th_main := Waiting 1\<rparr>"
  note d = s1_def s2_def s3_def s4_def s5_def s6_def start_threads_def new_worker_def sample_fragment
  have 1: "?st (start_threads [5]) s1"
    using thread_step.create [of "start_threads [5]" 0 1 "[3]" 1] by (simp add: d)
  have 2: "?st s1 s2"
    using thread_step.load [of 0 s1 "new_worker ?f" "[3]" 6 1 1] by (simp add: d xor_byte_def)
  have 3: "?st s2 s3"
    using thread_step.store [of 0 s2 "(new_worker ?f)\<lparr>wk_pc := Storing 6\<rparr>" 6 "[3]" 1 1] by (simp add: d)
  have 4: "?st s3 s4"
    using thread_step.complete [of 0 s3 "(new_worker ?f)\<lparr>wk_i := 1\<rparr>" "[3]" 1 1] by (simp add: d)
  have 5: "?st s4 s5" using thread_step.created [of s4 1 1 "[3]" 1] by (simp add: d)
  have 6: "?st s5 s6" using thread_step.wait [of s5 0 1 "[3]" 1] by (simp add: d)
  have 7: "?st s6 sample_run_end"
    using thread_step.finish_write [of s6 1 1 "[3]" 1] by (simp add: d sample_run_end_def)
  note r1 = reach_one [of ?st, OF 1]
  note r2 = reach_step [OF r1 2]
  note r3 = reach_step [OF r2 3]
  note r4 = reach_step [OF r3 4]
  note r5 = reach_step [OF r4 5]
  note r6 = reach_step [OF r5 6]
  show ?thesis by (rule reach_step [OF r6 7])
qed

lemma sample_setup: "crypt_setup [3] [5] 1 1"
  by (simp add: crypt_setup_def valid_count_def)

theorem every_schedule_writes_xor_witness:
  "reach (thread_step [3] 1 1) (start_threads [5]) sample_run_end
   \<and> th_output sample_run_end = Some [6] \<and> run_threads [3] 1 1 [5] = Some [6]"
  using every_schedule_writes_xor [OF sample_setup sample_run] sample_run
  by (simp add: sample_run_end_def)

subsection \<open>No deadlock, no endless run\<close>



fun worker_pot :: "worker \<Rightarrow> nat" where
  "worker_pot w =
     (case wk_pc w of
        Completed \<Rightarrow> 0
      | Loading \<Rightarrow> Suc (2 * (unat (fr_end_idx (wk_frag w)) - unat (wk_i w)))
      | Storing v \<Rightarrow> 2 * (unat (fr_end_idx (wk_frag w)) - unat (wk_i w)))"

definition main_pot :: "nat \<Rightarrow> nat \<Rightarrow> mpc \<Rightarrow> nat" where
  "main_pot len m pc =
     (case pc of
        Creating i \<Rightarrow> 2 * (len - cut_at len m i) + 2 * (m - i) + m + 2
      | Waiting j \<Rightarrow> (m - j) + 1
      | _ \<Rightarrow> 0)"

definition potential :: "nat \<Rightarrow> nat \<Rightarrow> threads \<Rightarrow> nat" where
  "potential len m s = sum_list (map worker_pot (th_workers s)) + main_pot len m (th_main s)"

lemma sum_worker_update:
  assumes "t < length ws" and "worker_pot w' < worker_pot (ws ! t)"
  shows "sum_list (map worker_pot (ws[t := w'])) < sum_list (map worker_pot ws)"
proof -
  have "worker_pot (ws ! t) \<le> sum_list (map worker_pot ws)"
    using assms(1) elem_le_sum_list [of t "map worker_pot ws"] by simp
  then show ?thesis using assms by (simp add: map_update sum_list_update del: worker_pot.simps)
qed

lemma step_decreases:
  assumes inv: "thread_inv key data fs n s" and "thread_step key fs n s s'"
  shows "potential (length data) (nat n) s' < potential (length data) (nat n) s"
  using assms(2)
proof cases
  case (load t w v)
  then show ?thesis by (auto simp: potential_def intro: sum_worker_update)
next
  case (store t w v)
  have su: "crypt_setup key data fs n" using inv by (simp add: thread_inv_def)
  note wb = worker_bound [OF inv store(2), folded store(3)]
  have "unat (wk_i w) < unat (fr_end_idx (wk_frag w))"
    using end_idx_inv(1) [OF su wb] wb(2) store(4) by (simp add: worker_inv_def)
  then show ?thesis
    using store store_buf_inv(2) [OF inv store(2,3,4)]
    by (auto simp: potential_def intro!: sum_worker_update)
next
  case (complete t w)
  then show ?thesis by (auto simp: potential_def intro: sum_worker_update)
next
  case (create i)
  let ?f = "fragment_of fs (of_nat (length key)) n i" and ?L = "length data" and ?m = "nat n"
  have su: "crypt_setup key data fs n" and i: "i < ?m" using inv create by (auto simp: thread_inv_def)
  note fb = fragment_bounds [of n i fs "of_nat (length key)"]
  have "worker_pot (new_worker ?f) = Suc (2 * (cut_at ?L ?m (Suc i) - cut_at ?L ?m i))"
    using fb su i by (simp add: new_worker_def crypt_setup_def)
  moreover have "cut_at ?L ?m i \<le> cut_at ?L ?m (Suc i)" "cut_at ?L ?m (Suc i) \<le> ?L"
    using i cut_step [OF i] cut_le [of "Suc i" ?m] by auto
  moreover from this have "2 * (cut_at ?L ?m (Suc i) - cut_at ?L ?m i) + 2 * (?L - cut_at ?L ?m (Suc i))
      = 2 * (?L - cut_at ?L ?m i)" by linarith
  moreover have "?m - i = Suc (?m - Suc i)" using i by simp
  ultimately show ?thesis using create i
    by (simp add: potential_def main_pot_def del: worker_pot.simps)
next
  case (created i)
  then show ?thesis using inv by (auto simp: potential_def main_pot_def thread_inv_def main_inv_def)
qed (auto simp: potential_def main_pot_def)

interpretation xor_run: bounded_system "thread_step key fs n" "thread_inv key data fs n" "potential (length data) (nat n)"
  for key data fs n
  by unfold_locales (rule step_decreases)

text \<open>C10: no schedule runs for ever: every run from the start, whatever the scheduler and
  \<open>kthread_run\<close> do, has at most \<open>2 * size + 3 * threads + 2\<close> steps.\<close>
theorem runs_are_bounded:
  assumes "crypt_setup key data fs n" and "steps (thread_step key fs n) k (start_threads data) s"
  shows "k \<le> 2 * length data + 3 * nat n + 2"
proof -
  have "k + potential (length data) (nat n) s \<le> potential (length data) (nat n) (start_threads data)"
    by (rule xor_run.run_bounded [OF assms(2) start_inv [OF assms(1)]])
  moreover have "0 < nat n" using assms(1) by (simp add: crypt_setup_def valid_count_def)
  ultimately show ?thesis by (simp add: potential_def start_threads_def main_pot_def)
qed

theorem runs_are_bounded_witness:
  "(0::nat) \<le> 2 * length ([5] :: bytes) + 3 * nat 1 + 2 \<and> steps (thread_step [3] 1 1) 0 (start_threads [5]) (start_threads [5])"
  using runs_are_bounded [OF sample_setup steps_none] by (simp add: steps_none)

subsection \<open>When the buffer is released\<close>

text \<open>C11: unless a \<open>kthread_run\<close> failed, the clean-up code that frees the buffer, the key and the
  task list runs only when every worker has passed its \<open>complete()\<close>.\<close>
theorem released_after_last_worker:
  assumes "crypt_setup key data fs n" and "reach (thread_step key fs n) (start_threads data) s"
    and "th_freed s" and "\<And>e. th_main s \<noteq> Failed e"
  shows "length (th_workers s) = nat n \<and> (\<forall>w \<in> set (th_workers s). wk_pc w = Completed)"
proof -
  have "thread_inv key data fs n s"
    using xor_sys.reach_keeps [OF assms(2)] start_inv [OF assms(1)] by blast
  then show ?thesis
    using assms(3,4)
    by (cases "th_main s") (auto simp: thread_inv_def main_inv_def in_set_conv_nth)
qed

theorem released_after_last_worker_witness:
  "th_freed sample_run_end \<and> list_all (\<lambda>w. wk_pc w = Completed) (th_workers sample_run_end)"
  using released_after_last_worker [OF sample_setup sample_run]
  by (simp add: sample_run_end_def list_all_iff)

definition sample_failed :: threads where
  "sample_failed =
     \<lparr>th_buf = [5, 7],
      th_workers = [\<lparr>wk_i = 0, wk_frag = fragment_of 2 1 2 0, wk_pc = Storing 6\<rparr>],
      th_main = Failed (- ENOMEM), th_output = None, th_freed = True\<rparr>"

text \<open>C40: when the creation of a later thread fails, the jump to \<open>free_all_resources\<close> does not
  wait for the threads already started: there is a schedule in which the buffer is freed
  and a worker then stores into it.\<close>
theorem failed_creation_frees_live_buffer:
  "\<exists>s s'. reach (thread_step [3] 2 2) (start_threads [5, 7]) s \<and> th_freed s
     \<and> th_main s = Failed (- ENOMEM) \<and> thread_step [3] 2 2 s s' \<and> th_buf s' = [6, 7]"
proof -
  let ?st = "thread_step [3] 2 2"
  have f: "fragment_of 2 1 2 0 = \<lparr>fr_data_size = 2, fr_key_length = 1, fr_start_idx = 0, fr_end_idx = 1\<rparr>"
    by (simp add: fragment_of_def size_of_int_def)
  define s1 where "s1 = (start_threads [5, 7])\<lparr>th_workers := [new_worker (fragment_of 2 1 2 0)], th_main := Creating 1\<rparr>"
  define s2 where "s2 = s1\<lparr>th_workers := [(new_worker (fragment_of 2 1 2 0))\<lparr>wk_pc := Storing 6\<rparr>]\<rparr>"
  note d = s1_def s2_def start_threads_def new_worker_def f sample_failed_def
  have 1: "?st (start_threads [5, 7]) s1"
    using thread_step.create [of "start_threads [5, 7]" 0 2 "[3]" 2] by (simp add: d)
  have 2: "?st s1 s2"
    using thread_step.load [of 0 s1 "new_worker (fragment_of 2 1 2 0)" "[3]" 6 2 2] by (simp add: d xor_byte_def)
  have 3: "?st s2 sample_failed"
    using thread_step.create_fails [of s2 1 2 "- ENOMEM" "[3]" 2] by (simp add: d)
  note r1 = reach_one [of ?st, OF 1]
  note r2 = reach_step [OF r1 2]
  note r3 = reach_step [OF r2 3]
  obtain s' where s': "?st sample_failed s'" "th_buf s' = [6, 7]"
    using thread_step.store [of 0 sample_failed _ 6 "[3]" 2 2, OF _ refl] by (auto simp: sample_failed_def)
  show ?thesis using r3 s' by (intro exI [of _ sample_failed] exI [of _ s']) (simp add: sample_failed_def)
qed

end
