(* ===== verification/Kernel_IO.thy ===== *)
theory Kernel_IO
  imports Kernel_Prelude
begin

text \<open>
  The kernel services the file-encryption code calls: files, memory, threads and copies of
  user strings. None of them is code of the repository, so each is a parameter, a function
  of the history of the effects so far: the model makes no assumption about them. The
  effects are recorded as a log of events, from which the balance of the resources and the
  contents of the files are read. The locale \<open>kernel_fs\<close> states what a working kernel
  promises, and \<open>disk_env\<close> is a kernel that keeps these promises.
\<close>

subsection \<open>Events and services\<close>

text \<open>The flags of the two kinds of \<open>filp_open\<close> call in the source.\<close>

datatype open_mode = RDONLY | WRONLY_CREAT_TRUNC

text \<open>
  \<open>FreedErr e\<close> is a call of \<open>kfree\<close> on \<open>ERR_PTR(e)\<close>. \<open>Wrote f b r\<close>: \<open>kernel_write\<close> of \<open>b\<close>
  to \<open>f\<close> at offset 0 returned \<open>r\<close>.
\<close>

datatype event =
    Opened string open_mode nat
  | Closed nat
  | Allocated nat
  | Freed nat
  | FreedErr int
  | Started nat
  | Waited nat
  | Wrote nat bytes int

type_synonym history = "event list"

record kernel_env =
  filp_open :: "history \<Rightarrow> string \<Rightarrow> open_mode \<Rightarrow> nat errptr"
  i_size_read :: "history \<Rightarrow> nat \<Rightarrow> int"
  kmalloc :: "history \<Rightarrow> u64 \<Rightarrow> nat option"
  memory_at :: "nat \<Rightarrow> nat \<Rightarrow> u8"
  kernel_read :: "history \<Rightarrow> nat \<Rightarrow> u64 \<Rightarrow> int \<times> bytes"
  kernel_write :: "history \<Rightarrow> nat \<Rightarrow> bytes \<Rightarrow> int"
  kthread_run :: "history \<Rightarrow> nat \<Rightarrow> nat errptr"
  strndup_user :: "history \<Rightarrow> u64 \<Rightarrow> (nat \<times> string) errptr"
  sizeof_task_params :: u64

text \<open>
  \<open>memory_at env p k\<close> is the byte a fresh block \<open>p\<close> holds at offset \<open>k\<close>: \<open>kmalloc\<close> does not
  clear it. \<open>read_into\<close> is the effect of \<open>kernel_read\<close> on a buffer: a prefix is replaced.
\<close>

definition fresh_block :: "kernel_env \<Rightarrow> nat \<Rightarrow> u64 \<Rightarrow> bytes" where
  "fresh_block env p sz = map (memory_at env p) [0..<unat sz]"

definition read_into :: "bytes \<Rightarrow> bytes \<Rightarrow> bytes" where
  "read_into bs buf = take (length buf) bs @ drop (length bs) buf"

lemma length_fresh_block [simp]: "length (fresh_block env p sz) = unat sz"
  by (simp add: fresh_block_def)

lemma length_read_into [simp]: "length (read_into bs buf) = length buf"
  by (simp add: read_into_def)

lemma read_into_all: "length bs = length buf \<Longrightarrow> read_into bs buf = bs"
  by (simp add: read_into_def)

definition do_open :: "kernel_env \<Rightarrow> string \<Rightarrow> open_mode \<Rightarrow> history \<Rightarrow> nat errptr \<times> history" where
  "do_open env p m h =
     (case filp_open env h p m of Inl e \<Rightarrow> (Inl e, h) | Inr f \<Rightarrow> (Inr f, h @ [Opened p m f]))"

definition do_kmalloc :: "kernel_env \<Rightarrow> u64 \<Rightarrow> history \<Rightarrow> nat option \<times> history" where
  "do_kmalloc env sz h =
     (case kmalloc env h sz of None \<Rightarrow> (None, h) | Some p \<Rightarrow> (Some p, h @ [Allocated p]))"

text \<open>\<open>kfree\<close> on the pointer of \<open>kmalloc\<close> (\<open>kfree(NULL)\<close> does nothing) and on the result of
  \<open>strndup_user\<close>.\<close>

definition kfree :: "nat option \<Rightarrow> history \<Rightarrow> history" where
  "kfree p h = (case p of None \<Rightarrow> h | Some q \<Rightarrow> h @ [Freed q])"

definition kfree_user :: "(nat \<times> string) errptr \<Rightarrow> history \<Rightarrow> history" where
  "kfree_user p h = h @ [case p of Inl e \<Rightarrow> FreedErr e | Inr (q, t) \<Rightarrow> Freed q]"

definition do_strndup :: "kernel_env \<Rightarrow> u64 \<Rightarrow> history \<Rightarrow> (nat \<times> string) errptr \<times> history" where
  "do_strndup env a h =
     (case strndup_user env h a of
        Inl e \<Rightarrow> (Inl e, h)
      | Inr (q, t) \<Rightarrow> (Inr (q, t), h @ [Allocated q]))"

subsection \<open>The balance of the resources\<close>

fun file_change :: "event \<Rightarrow> nat \<Rightarrow> int" where
  "file_change (Opened p m g) f = (if g = f then 1 else 0)"
| "file_change (Closed g) f = (if g = f then - 1 else 0)"
| "file_change _ f = 0"

fun mem_change :: "event \<Rightarrow> nat \<Rightarrow> int" where
  "mem_change (Allocated q) p = (if q = p then 1 else 0)"
| "mem_change (Freed q) p = (if q = p then - 1 else 0)"
| "mem_change _ p = 0"

definition open_count :: "history \<Rightarrow> nat \<Rightarrow> int" where
  "open_count h f = sum_list (map (\<lambda>e. file_change e f) h)"

definition alloc_count :: "history \<Rightarrow> nat \<Rightarrow> int" where
  "alloc_count h p = sum_list (map (\<lambda>e. mem_change e p) h)"

text \<open>\<open>h'\<close> holds the files and blocks that \<open>h\<close> held, no more and no less.\<close>

definition same_resources :: "history \<Rightarrow> history \<Rightarrow> bool" where
  "same_resources h h' \<longleftrightarrow> open_count h' = open_count h \<and> alloc_count h' = alloc_count h"

lemma open_count_append [simp]: "open_count (h @ k) f = open_count h f + open_count k f"
  by (simp add: open_count_def)

lemma alloc_count_append [simp]: "alloc_count (h @ k) p = alloc_count h p + alloc_count k p"
  by (simp add: alloc_count_def)

lemma counts_Nil [simp]: "open_count [] f = 0" "alloc_count [] p = 0"
  by (simp_all add: open_count_def alloc_count_def)

lemma counts_Cons [simp]:
  "open_count (e # h) f = file_change e f + open_count h f"
  "alloc_count (e # h) p = mem_change e p + alloc_count h p"
  by (simp_all add: open_count_def alloc_count_def)

lemma counts_threads [simp]:
  "open_count (map Started is) f = 0" "alloc_count (map Started is) p = 0"
  "open_count (map Waited is) f = 0" "alloc_count (map Waited is) p = 0"
  by (induction "is") auto

lemma same_resourcesI:
  "(\<And>f. open_count h' f = open_count h f) \<Longrightarrow> (\<And>p. alloc_count h' p = alloc_count h p) \<Longrightarrow>
   same_resources h h'"
  by (simp add: same_resources_def fun_eq_iff)

subsection \<open>The contents of the files\<close>

text \<open>
  The disk and the paths of the open files after a history: an open with \<open>O_TRUNC\<close> empties
  the file, a write at offset 0 replaces a prefix. A write counts as many bytes as it
  reports.
\<close>

type_synonym disk = "string \<rightharpoonup> bytes"

fun fs_event :: "disk \<times> (nat \<rightharpoonup> string) \<Rightarrow> event \<Rightarrow> disk \<times> (nat \<rightharpoonup> string)" where
  "fs_event (d, fd) (Opened p RDONLY f) = (d, fd(f \<mapsto> p))"
| "fs_event (d, fd) (Opened p WRONLY_CREAT_TRUNC f) = (d(p \<mapsto> []), fd(f \<mapsto> p))"
| "fs_event (d, fd) (Closed f) = (d, fd(f := None))"
| "fs_event (d, fd) (Wrote f b r) =
     (case fd f of
        None \<Rightarrow> (d, fd)
      | Some p \<Rightarrow>
          (case d p of
             None \<Rightarrow> (d, fd)
           | Some old \<Rightarrow> (d(p \<mapsto> take (nat r) b @ drop (length (take (nat r) b)) old), fd)))"
| "fs_event (d, fd) _ = (d, fd)"

definition fs_after :: "disk \<Rightarrow> history \<Rightarrow> disk \<times> (nat \<rightharpoonup> string)" where
  "fs_after d h = foldl fs_event (d, Map.empty) h"

abbreviation contents :: "disk \<Rightarrow> history \<Rightarrow> disk" where "contents d h \<equiv> fst (fs_after d h)"
abbreviation open_at :: "disk \<Rightarrow> history \<Rightarrow> nat \<rightharpoonup> string" where "open_at d h \<equiv> snd (fs_after d h)"

lemma fs_after_snoc: "fs_after d (h @ [e]) = fs_event (fs_after d h) e"
  by (simp add: fs_after_def)

lemma fs_after_neutral:
  "fs_after d (h @ [Allocated q]) = fs_after d h" "fs_after d (h @ [Freed q]) = fs_after d h"
  by (cases "fs_after d h"; simp add: fs_after_snoc)+

lemma fs_after_threads:
  "fs_after d (h @ map Started is) = fs_after d h" "fs_after d (h @ map Waited is) = fs_after d h"
proof -
  have "foldl fs_event s (map Started is) = s \<and> foldl fs_event s (map Waited is) = s" for s
    by (induction "is" arbitrary: s) (simp_all add: prod_eq_iff split: prod.splits, auto)
  then show "fs_after d (h @ map Started is) = fs_after d h" "fs_after d (h @ map Waited is) = fs_after d h"
    by (simp_all add: fs_after_def)
qed

lemma open_read_fs:
  "contents d (h @ [Opened p RDONLY f]) = contents d h"
  "open_at d (h @ [Opened p RDONLY f]) = (open_at d h)(f \<mapsto> p)"
  by (cases "fs_after d h"; simp add: fs_after_snoc)+

lemma open_trunc_fs:
  "contents d (h @ [Opened p WRONLY_CREAT_TRUNC f]) = (contents d h)(p \<mapsto> [])"
  "open_at d (h @ [Opened p WRONLY_CREAT_TRUNC f]) = (open_at d h)(f \<mapsto> p)"
  by (cases "fs_after d h"; simp add: fs_after_snoc)+

lemma close_fs:
  "contents d (h @ [Closed f]) = contents d h"
  "open_at d (h @ [Closed f]) = (open_at d h)(f := None)"
  by (cases "fs_after d h"; simp add: fs_after_snoc)+

lemma write_fs:
  assumes "open_at d h f = Some p" and "contents d h p = Some []" and "r = int (length b)"
  shows "contents d (h @ [Wrote f b r]) = (contents d h)(p \<mapsto> b)"
    and "open_at d (h @ [Wrote f b r]) = open_at d h"
  using assms by (cases "fs_after d h"; simp add: fs_after_snoc)+

subsection \<open>A working kernel\<close>

text \<open>
  What the kernel promises when nothing fails: files that exist can be opened under a
  handle not in use, sizes and reads report the contents, reads and writes of up to
  \<open>MAX_RW_COUNT\<close> bytes are complete, blocks of up to \<open>KMALLOC_MAX_SIZE\<close> (4 MiB) can be had,
  and threads can be created.
\<close>

definition MAX_RW_COUNT :: nat where "MAX_RW_COUNT = 0x7ffff000"
definition KMALLOC_MAX_SIZE :: nat where "KMALLOC_MAX_SIZE = 0x400000"

locale kernel_fs =
  fixes env :: kernel_env and disk :: disk
  assumes open_read:
      "contents disk h p = Some b \<Longrightarrow> \<exists>f. filp_open env h p RDONLY = Inr f \<and> open_at disk h f = None"
    and open_trunc: "\<exists>f. filp_open env h p WRONLY_CREAT_TRUNC = Inr f \<and> open_at disk h f = None"
    and size_reads:
      "open_at disk h f = Some p \<Longrightarrow> contents disk h p = Some b \<Longrightarrow> i_size_read env h f = int (length b)"
    and read_all:
      "open_at disk h f = Some p \<Longrightarrow> contents disk h p = Some b \<Longrightarrow> length b \<le> MAX_RW_COUNT \<Longrightarrow>
       kernel_read env h f (of_nat (length b)) = (int (length b), b)"
    and write_all:
      "open_at disk h f = Some p \<Longrightarrow> length b \<le> MAX_RW_COUNT \<Longrightarrow> kernel_write env h f b = int (length b)"
    and alloc: "unat sz \<le> KMALLOC_MAX_SIZE \<Longrightarrow> kmalloc env h sz \<noteq> None"
    and spawn: "\<not> IS_ERR (kthread_run env h i)"

text \<open>
  A kernel that works: its answers are computed from the history. The handle it gives is
  larger than every handle given before.
\<close>

fun handle_of :: "event \<Rightarrow> nat" where
  "handle_of (Opened p m f) = f"
| "handle_of _ = 0"

definition next_handle :: "history \<Rightarrow> nat" where
  "next_handle h = Suc (sum_list (map handle_of h))"

definition file_bytes :: "disk \<Rightarrow> history \<Rightarrow> nat \<Rightarrow> bytes" where
  "file_bytes d h f =
     (case open_at d h f of
        None \<Rightarrow> []
      | Some p \<Rightarrow> (case contents d h p of None \<Rightarrow> [] | Some b \<Rightarrow> b))"

definition disk_env :: "disk \<Rightarrow> kernel_env" where
  "disk_env d =
     \<lparr>filp_open = (\<lambda>h p m.
        (case m of
           RDONLY \<Rightarrow> if contents d h p = None then Inl (- ENOENT) else Inr (next_handle h)
         | WRONLY_CREAT_TRUNC \<Rightarrow> Inr (next_handle h))),
      i_size_read = (\<lambda>h f. int (length (file_bytes d h f))),
      kmalloc = (\<lambda>h sz. if unat sz \<le> KMALLOC_MAX_SIZE then Some (length h) else None),
      memory_at = (\<lambda>p k. 0xAA),
      kernel_read = (\<lambda>h f n.
        (let b = take (min (unat n) MAX_RW_COUNT) (file_bytes d h f) in (int (length b), b))),
      kernel_write = (\<lambda>h f b. int (min (length b) MAX_RW_COUNT)),
      kthread_run = (\<lambda>h i. Inr i),
      strndup_user = (\<lambda>h a. if a = 0 then Inl (- EFAULT) else Inr (length h, ''f'')),
      sizeof_task_params = 80\<rparr>"

lemma handle_le_next: "Opened p m f \<in> set h \<Longrightarrow> f < next_handle h"
proof -
  assume "Opened p m f \<in> set h"
  then have "f \<in> set (map handle_of h)" by force
  then have "f \<le> sum_list (map handle_of h)" by (rule member_le_sum_list) simp
  then show ?thesis by (simp add: next_handle_def)
qed

lemma open_at_opened: "open_at d h f = Some p \<Longrightarrow> \<exists>m. Opened p m f \<in> set h"
proof (induction h rule: rev_induct)
  case (snoc e h)
  show ?case
  proof (cases e)
    case (Opened q m g)
    then show ?thesis
      using snoc by (cases m) (auto simp: open_read_fs open_trunc_fs split: if_splits)
  next
    case (Closed g)
    then show ?thesis using snoc by (auto simp: close_fs split: if_splits)
  next
    case (Wrote g b r)
    have "open_at d (h @ [e]) = open_at d h"
      using Wrote by (cases "fs_after d h") (simp add: fs_after_snoc split: option.splits)
    then show ?thesis using snoc by auto
  qed (use snoc in \<open>cases "fs_after d h"; auto simp: fs_after_snoc\<close>)+
qed (simp add: fs_after_def)

lemma next_handle_fresh: "open_at d h (next_handle h) = None"
  using open_at_opened [of d h "next_handle h"] handle_le_next
  by (metis less_irrefl not_None_eq)

interpretation disk_kernel: kernel_fs "disk_env d" d for d
proof
  fix h :: history and f p b
  assume "open_at d h f = Some p" "contents d h p = Some b" and le: "length b \<le> MAX_RW_COUNT"
  then have "file_bytes d h f = b" by (simp add: file_bytes_def)
  moreover have "unat (of_nat (length b) :: u64) = length b"
    using le by (simp add: MAX_RW_COUNT_def unat_of_nat take_bit_nat_eq_self)
  ultimately show "kernel_read (disk_env d) h f (of_nat (length b)) = (int (length b), b)"
    using le by (simp add: disk_env_def)
qed (auto simp: disk_env_def next_handle_fresh file_bytes_def)

end
