(* ===== verification/File_Crypt.thy ===== *)
theory File_Crypt
  imports Kernel_IO Xor_Cipher
begin

text \<open>
  \<open>handle_file_encryption\<close> and the system call \<open>my_encrypt\<close> of
  \<open>Practica2/linux-6.6.44/kernel/my_encrypt.c\<close>, statement by statement: the order of the
  calls, the checks after each and the clean-up labels they jump to. A label is a function
  of the resources held there; a \<open>goto\<close> calls it. The threads are run one after the other,
  which by \<open>every_schedule_writes_xor\<close> of \<open>Xor_Threads\<close> gives the result of every schedule.
  The \<open>printk\<close> calls are left out.
\<close>

subsection \<open>The clean-up labels\<close>

type_synonym 'a io = "history \<Rightarrow> 'a outcome \<times> history"

definition close_input_file :: "nat \<Rightarrow> int \<Rightarrow> int io" where
  "close_input_file input_file ret_val h = (Done ret_val, h @ [Closed input_file])"

definition close_output_file :: "nat \<Rightarrow> nat \<Rightarrow> int \<Rightarrow> int io" where
  "close_output_file output_file input_file ret_val h =
     close_input_file input_file ret_val (h @ [Closed output_file])"

definition close_key_file :: "nat \<Rightarrow> nat \<Rightarrow> nat \<Rightarrow> int \<Rightarrow> int io" where
  "close_key_file key_file output_file input_file ret_val h =
     close_output_file output_file input_file ret_val (h @ [Closed key_file])"

definition free_encryption_key :: "nat \<Rightarrow> nat \<Rightarrow> nat \<Rightarrow> nat \<Rightarrow> int \<Rightarrow> int io" where
  "free_encryption_key encryption_key key_file output_file input_file ret_val h =
     close_key_file key_file output_file input_file ret_val (kfree (Some encryption_key) h)"

definition free_file_buffer :: "nat \<Rightarrow> nat \<Rightarrow> nat \<Rightarrow> nat \<Rightarrow> nat \<Rightarrow> int \<Rightarrow> int io" where
  "free_file_buffer file_buffer encryption_key key_file output_file input_file ret_val h =
     free_encryption_key encryption_key key_file output_file input_file ret_val
       (kfree (Some file_buffer) h)"

definition free_all_resources ::
  "nat \<Rightarrow> nat \<Rightarrow> nat \<Rightarrow> nat \<Rightarrow> nat \<Rightarrow> nat \<Rightarrow> nat \<Rightarrow> nat \<Rightarrow> int \<Rightarrow> int io" where
  "free_all_resources thread_list task_list fragment_list file_buffer encryption_key
       key_file output_file input_file ret_val h =
     free_file_buffer file_buffer encryption_key key_file output_file input_file ret_val
       (kfree (Some fragment_list) (kfree (Some task_list) (kfree (Some thread_list) h)))"

subsection \<open>Threads and the write\<close>

text \<open>The creation loop, which stops at the first \<open>kthread_run\<close> that fails.\<close>

fun create_workers :: "kernel_env \<Rightarrow> nat list \<Rightarrow> history \<Rightarrow> int option \<times> history" where
  "create_workers env [] h = (None, h)"
| "create_workers env (i # is) h =
     (case kthread_run env h i of
        Inl e \<Rightarrow> (Some e, h)
      | Inr t \<Rightarrow> create_workers env is (h @ [Started i]))"

text \<open>
  From the computation of \<open>fragment_size\<close> to the label \<open>free_all_resources\<close>, which is the
  argument \<open>free_all\<close>. \<open>file_size / thread_count\<close> traps when the count is zero.
\<close>

definition encrypt_and_write ::
  "kernel_env \<Rightarrow> nat \<Rightarrow> u64 \<Rightarrow> bytes \<Rightarrow> bytes \<Rightarrow> int \<Rightarrow> (int \<Rightarrow> int io) \<Rightarrow> int io" where
  "encrypt_and_write env output_file file_size key buffer thread_count free_all h =
     (if size_of_int thread_count = 0 then (Oops, h)
      else
        (case create_workers env [0..<nat thread_count] h of
           (Some e, h1) \<Rightarrow> free_all (c_int e) h1
         | (None, h1) \<Rightarrow>
             (case run_threads key file_size thread_count buffer of
                None \<Rightarrow> (Oops, h1)
              | Some buffer' \<Rightarrow>
                  let h2 = h1 @ map Waited [0..<nat thread_count];
                      r = kernel_write env h2 output_file buffer'
                  in free_all (c_int r) (h2 @ [Wrote output_file buffer' r]))))"

text \<open>
  The three lists, allocated one after the other and tested together. When one is missing
  the jump goes to \<open>free_file_buffer\<close>, which does not free the others.
\<close>

definition alloc_lists_and_encrypt ::
  "kernel_env \<Rightarrow> nat \<Rightarrow> nat \<Rightarrow> nat \<Rightarrow> nat \<Rightarrow> bytes \<Rightarrow> nat \<Rightarrow> u64 \<Rightarrow> bytes \<Rightarrow> int \<Rightarrow> int io" where
  "alloc_lists_and_encrypt env input_file output_file key_file encryption_key key file_buffer
       file_size buffer thread_count h =
     (let (thread_list, h1) = do_kmalloc env (8 * size_of_int thread_count) h;
          (task_list, h2) = do_kmalloc env (sizeof_task_params env * size_of_int thread_count) h1;
          (fragment_list, h3) = do_kmalloc env (48 * size_of_int thread_count) h2
      in case (thread_list, task_list, fragment_list) of
           (Some pt, Some pa, Some pf) \<Rightarrow>
             encrypt_and_write env output_file file_size key buffer thread_count
               (free_all_resources pt pa pf file_buffer encryption_key key_file output_file input_file) h3
         | _ \<Rightarrow>
             free_file_buffer file_buffer encryption_key key_file output_file input_file (- ENOMEM) h3)"

subsection \<open>Reading the key and the file\<close>

definition read_input_and_encrypt ::
  "kernel_env \<Rightarrow> nat \<Rightarrow> nat \<Rightarrow> nat \<Rightarrow> nat \<Rightarrow> bytes \<Rightarrow> int \<Rightarrow> int io" where
  "read_input_and_encrypt env input_file output_file key_file encryption_key key thread_count h =
     (let file_size = word_of_int (i_size_read env h input_file) :: u64 in
      if file_size \<le> 0 then
        free_encryption_key encryption_key key_file output_file input_file (- EINVAL) h
      else
        (case do_kmalloc env file_size h of
           (None, h1) \<Rightarrow>
             free_encryption_key encryption_key key_file output_file input_file (- ENOMEM) h1
         | (Some file_buffer, h1) \<Rightarrow>
             let (r, bs) = kernel_read env h1 input_file file_size;
                 buffer = read_into bs (fresh_block env file_buffer file_size)
             in if c_int r < 0 then
                  free_file_buffer file_buffer encryption_key key_file output_file input_file (c_int r) h1
                else
                  alloc_lists_and_encrypt env input_file output_file key_file encryption_key key
                    file_buffer file_size buffer thread_count h1))"

definition read_key_and_encrypt :: "kernel_env \<Rightarrow> nat \<Rightarrow> nat \<Rightarrow> nat \<Rightarrow> int \<Rightarrow> int io" where
  "read_key_and_encrypt env input_file output_file key_file thread_count h =
     (let key_length = word_of_int (i_size_read env h key_file) :: u64 in
      if key_length \<le> 0 then close_key_file key_file output_file input_file (- EINVAL) h
      else
        (case do_kmalloc env key_length h of
           (None, h1) \<Rightarrow> close_key_file key_file output_file input_file (- ENOMEM) h1
         | (Some encryption_key, h1) \<Rightarrow>
             let (r, bs) = kernel_read env h1 key_file key_length;
                 key = read_into bs (fresh_block env encryption_key key_length)
             in if c_int r < 0 then
                  free_encryption_key encryption_key key_file output_file input_file (c_int r) h1
                else
                  read_input_and_encrypt env input_file output_file key_file encryption_key key
                    thread_count h1))"

subsection \<open>The whole operation\<close>

text \<open>All three opens are done before the first result is looked at.\<close>

definition handle_file_encryption :: "kernel_env \<Rightarrow> string \<Rightarrow> string \<Rightarrow> string \<Rightarrow> int \<Rightarrow> int io" where
  "handle_file_encryption env input_filepath output_filepath key_filepath thread_count h =
     (let (input_file, h1) = do_open env input_filepath RDONLY h;
          (output_file, h2) = do_open env output_filepath WRONLY_CREAT_TRUNC h1;
          (key_file, h3) = do_open env key_filepath RDONLY h2
      in case input_file of
           Inl e \<Rightarrow> (Done (c_int e), h3)
         | Inr fi \<Rightarrow>
             (case output_file of
                Inl e \<Rightarrow> close_input_file fi (c_int e) h3
              | Inr fo \<Rightarrow>
                  (case key_file of
                     Inl e \<Rightarrow> close_output_file fo fi (c_int e) h3
                   | Inr fk \<Rightarrow> read_key_and_encrypt env fi fo fk thread_count h3)))"

text \<open>
  The system call. The copied paths are freed on every path, also those that are error
  pointers.
\<close>

definition my_encrypt :: "kernel_env \<Rightarrow> u64 \<Rightarrow> u64 \<Rightarrow> u64 \<Rightarrow> int \<Rightarrow> int io" where
  "my_encrypt env input_filepath output_filepath key_filepath thread_count h =
     (let (k_input, h1) = do_strndup env input_filepath h;
          (k_output, h2) = do_strndup env output_filepath h1;
          (k_key, h3) = do_strndup env key_filepath h2;
          free_memory = (\<lambda>h. kfree_user k_key (kfree_user k_output (kfree_user k_input h)))
      in case (k_input, k_output, k_key) of
           (Inr (pi, i), Inr (po, o'), Inr (pk, k)) \<Rightarrow>
             (case handle_file_encryption env i o' k thread_count h3 of
                (Oops, h4) \<Rightarrow> (Oops, h4)
              | (Done r, h4) \<Rightarrow> (Done r, free_memory h4))
         | _ \<Rightarrow> (Done (- EFAULT), free_memory h3))"

lemmas encrypt_labels = close_input_file_def close_output_file_def close_key_file_def
  free_encryption_key_def free_file_buffer_def free_all_resources_def kfree_def

subsection \<open>What every path releases\<close>

text \<open>\<open>h'\<close> is \<open>h\<close> with the files \<open>fs\<close> closed and the blocks \<open>ps\<close> freed.\<close>

definition releases :: "nat list \<Rightarrow> nat list \<Rightarrow> history \<Rightarrow> history \<Rightarrow> bool" where
  "releases fs ps h h' \<longleftrightarrow>
     (\<forall>f. open_count h' f = open_count h f - int (count_list fs f)) \<and>
     (\<forall>p. alloc_count h' p = alloc_count h p - int (count_list ps p))"

lemma releases_alloc:
  "releases fs (p # ps) (h @ [Allocated p]) h' \<Longrightarrow> releases fs ps h h'"
  by (simp add: releases_def fun_eq_iff)

lemma releases_same: "releases [] [] h h' \<Longrightarrow> same_resources h h'"
  by (simp add: releases_def same_resources_def fun_eq_iff)

lemma create_workers_log: "create_workers env is h = (x, h') \<Longrightarrow> \<exists>ks. h' = h @ map Started ks"
proof (induction env "is" h rule: create_workers.induct)
  case (2 env i "is" h)
  show ?case
  proof (cases "kthread_run env h i")
    case (Inl e)
    then show ?thesis using 2 by (intro exI [of _ "[]"]) simp
  next
    case (Inr t)
    then obtain ks where "h' = (h @ [Started i]) @ map Started ks" using 2 by auto
    then show ?thesis by (intro exI [of _ "i # ks"]) simp
  qed
qed (auto intro: exI [of _ "[]"])

lemma encrypt_and_write_releases:
  assumes "\<And>r h r' h'. free_all r h = (Done r', h') \<Longrightarrow> releases fs ps h h'"
    and "encrypt_and_write env fo sz key buf n free_all h = (Done r, h')"
  shows "releases fs ps h h'"
proof -
  obtain x h1 where c: "create_workers env [0..<nat n] h = (x, h1)" by fastforce
  obtain ks where h1: "h1 = h @ map Started ks" using create_workers_log [OF c] by blast
  show ?thesis
  proof (cases x)
    case (Some e)
    then have "free_all (c_int e) h1 = (Done r, h')"
      using assms(2) c by (simp add: encrypt_and_write_def split: if_splits)
    then show ?thesis using assms(1) h1 by (fastforce simp: releases_def)
  next
    case None
    then obtain b w where "free_all (c_int w) (h1 @ map Waited [0..<nat n] @ [Wrote fo b w]) = (Done r, h')"
      using assms(2) c by (auto simp: encrypt_and_write_def Let_def split: if_splits option.splits)
    then show ?thesis using assms(1) h1 by (fastforce simp: releases_def)
  qed
qed

text \<open>The sizes of the three lists, and the case in which \<open>kmalloc\<close> treats them alike.\<close>

definition list_sizes :: "kernel_env \<Rightarrow> int \<Rightarrow> u64 set" where
  "list_sizes env n = {8 * size_of_int n, sizeof_task_params env * size_of_int n, 48 * size_of_int n}"

definition lists_all_or_none :: "kernel_env \<Rightarrow> int \<Rightarrow> bool" where
  "lists_all_or_none env n \<longleftrightarrow>
     (\<forall>h. \<forall>sz \<in> list_sizes env n. kmalloc env h sz \<noteq> None) \<or>
     (\<forall>h. \<forall>sz \<in> list_sizes env n. kmalloc env h sz = None)"

lemma free_all_releases:
  "free_all_resources pt pa pf pb pk fk fo fi r h = (Done r', h') \<Longrightarrow>
   releases [fi, fo, fk] [pf, pa, pt, pb, pk] h h'"
  by (auto simp: encrypt_labels releases_def)

lemma alloc_lists_releases:
  assumes all: "lists_all_or_none env n"
    and run: "alloc_lists_and_encrypt env fi fo fk pk key pb sz buf n h = (Done r, h')"
  shows "releases [fi, fo, fk] [pb, pk] h h'"
proof (cases "\<forall>h. \<forall>s \<in> list_sizes env n. kmalloc env h s \<noteq> None")
  case True
  define s1 where "s1 = 8 * size_of_int n"
  define s2 where "s2 = sizeof_task_params env * size_of_int n"
  define s3 where "s3 = 48 * size_of_int n"
  have ls: "kmalloc env k s1 \<noteq> None" "kmalloc env k s2 \<noteq> None" "kmalloc env k s3 \<noteq> None" for k
    using True by (simp_all add: list_sizes_def s1_def s2_def s3_def)
  obtain pt where 1: "kmalloc env h s1 = Some pt" using ls by blast
  obtain pa where 2: "kmalloc env (h @ [Allocated pt]) s2 = Some pa" using ls by blast
  obtain pf where 3: "kmalloc env (h @ [Allocated pt, Allocated pa]) s3 = Some pf" using ls by blast
  have "encrypt_and_write env fo sz key buf n (free_all_resources pt pa pf pb pk fk fo fi)
      (h @ [Allocated pt, Allocated pa, Allocated pf]) = (Done r, h')"
    using run 1 2 3
    by (simp add: alloc_lists_and_encrypt_def do_kmalloc_def s1_def s2_def s3_def)
  then have "releases [fi, fo, fk] [pf, pa, pt, pb, pk] (h @ [Allocated pt, Allocated pa, Allocated pf]) h'"
    by (rule encrypt_and_write_releases [rotated]) (rule free_all_releases)
  then show ?thesis by (simp add: releases_def fun_eq_iff)
next
  case False
  then have "\<forall>h. \<forall>s \<in> list_sizes env n. kmalloc env h s = None" using all unfolding lists_all_or_none_def by blast
  then show ?thesis using run
    by (auto simp: alloc_lists_and_encrypt_def do_kmalloc_def list_sizes_def encrypt_labels releases_def)
qed

lemma read_input_releases:
  assumes all: "lists_all_or_none env n"
    and run: "read_input_and_encrypt env fi fo fk pk key n h = (Done r, h')"
  shows "releases [fi, fo, fk] [pk] h h'"
proof -
  consider (bad) "r = - EINVAL \<or> r = - ENOMEM" "h' = h @ [Freed pk, Closed fk, Closed fo, Closed fi]"
    | (unread) p where "h' = h @ [Allocated p, Freed p, Freed pk, Closed fk, Closed fo, Closed fi]"
    | (go) p sz buf where "alloc_lists_and_encrypt env fi fo fk pk key p sz buf n (h @ [Allocated p]) = (Done r, h')"
    using run
    by (auto simp: read_input_and_encrypt_def do_kmalloc_def encrypt_labels Let_def
        split: if_splits option.splits prod.splits)
  then show ?thesis
  proof cases
    case go
    then show ?thesis using alloc_lists_releases [OF all go] by (simp add: releases_alloc)
  qed (auto simp: releases_def)
qed

lemma read_key_releases:
  assumes all: "lists_all_or_none env n"
    and run: "read_key_and_encrypt env fi fo fk n h = (Done r, h')"
  shows "releases [fi, fo, fk] [] h h'"
proof -
  consider (bad) "r = - EINVAL \<or> r = - ENOMEM" "h' = h @ [Closed fk, Closed fo, Closed fi]"
    | (unread) p where "h' = h @ [Allocated p, Freed p, Closed fk, Closed fo, Closed fi]"
    | (go) p key where "read_input_and_encrypt env fi fo fk p key n (h @ [Allocated p]) = (Done r, h')"
    using run
    by (auto simp: read_key_and_encrypt_def do_kmalloc_def encrypt_labels Let_def
        split: if_splits option.splits prod.splits)
  then show ?thesis
  proof cases
    case go
    then show ?thesis using read_input_releases [OF all go] by (simp add: releases_alloc)
  qed (auto simp: releases_def)
qed

lemma handle_file_encryption_releases:
  assumes opens: "\<And>h. \<not> IS_ERR (filp_open env h inp RDONLY)"
      "\<And>h. \<not> IS_ERR (filp_open env h outp WRONLY_CREAT_TRUNC)"
    and all: "lists_all_or_none env n"
    and run: "handle_file_encryption env inp outp keyp n h = (Done r, h')"
  shows "same_resources h h'"
proof -
  obtain fi where 1: "filp_open env h inp RDONLY = Inr fi" using opens(1) by (metis isl_def sum.exhaust)
  let ?h1 = "h @ [Opened inp RDONLY fi]"
  obtain fo where 2: "filp_open env ?h1 outp WRONLY_CREAT_TRUNC = Inr fo" using opens(2) by (metis isl_def sum.exhaust)
  let ?h2 = "?h1 @ [Opened outp WRONLY_CREAT_TRUNC fo]"
  show ?thesis
  proof (cases "filp_open env ?h2 keyp RDONLY")
    case (Inl e)
    then show ?thesis using run 1 2
      by (auto simp: handle_file_encryption_def do_open_def encrypt_labels intro!: same_resourcesI)
  next
    case (Inr fk)
    then have "read_key_and_encrypt env fi fo fk n (?h2 @ [Opened keyp RDONLY fk]) = (Done r, h')"
      using run 1 2 by (simp add: handle_file_encryption_def do_open_def)
    note rel = read_key_releases [OF all this]
    have "releases [] [] h h'" using rel by (auto simp: releases_def)
    then show ?thesis by (rule releases_same)
  qed
qed

subsection \<open>The run in which nothing fails\<close>

lemma unat_mult_le: "unat (a * b :: u64) \<le> unat a * unat b"
  by (metis mod_less_eq_dividend unat_mult_lem unat_word_ariths(2))

lemma unat_len: "length (b :: bytes) \<le> KMALLOC_MAX_SIZE \<Longrightarrow> unat (of_nat (length b) :: u64) = length b"
  by (simp add: KMALLOC_MAX_SIZE_def unat_of_nat take_bit_nat_eq_self)

lemma size_pos: "b \<noteq> [] \<Longrightarrow> length (b :: bytes) \<le> KMALLOC_MAX_SIZE \<Longrightarrow> (of_nat (length b) :: u64) \<noteq> 0"
  by (metis length_0_conv unat_0 unat_len)

lemma c_int_len: "n \<le> MAX_RW_COUNT \<Longrightarrow> c_int (int n) = int n"
  by (simp add: MAX_RW_COUNT_def)

lemma max_sizes: "n \<le> KMALLOC_MAX_SIZE \<Longrightarrow> n \<le> MAX_RW_COUNT"
  by (simp add: MAX_RW_COUNT_def KMALLOC_MAX_SIZE_def)

lemma create_workers_ok:
  assumes "\<And>h i. \<not> IS_ERR (kthread_run env h i)"
  shows "create_workers env is h = (None, h @ map Started is)"
proof (induction "is" arbitrary: h)
  case (Cons i "is")
  obtain t where "kthread_run env h i = Inr t" using assms by (metis isl_def sum.exhaust)
  then show ?case using Cons by simp
qed simp

text \<open>
  A request: the contents of the files named, paths that do not overwrite an input, sizes
  that \<open>kmalloc\<close> serves (\<open>crypt_inputs\<close>), and a positive thread count.
\<close>

definition crypt_inputs :: "disk \<Rightarrow> string \<Rightarrow> string \<Rightarrow> string \<Rightarrow> bytes \<Rightarrow> bytes \<Rightarrow> bool" where
  "crypt_inputs files inp outp keyp data key \<longleftrightarrow>
     files inp = Some data \<and> files keyp = Some key \<and> inp \<noteq> outp \<and> keyp \<noteq> outp
     \<and> data \<noteq> [] \<and> length data \<le> KMALLOC_MAX_SIZE \<and> key \<noteq> [] \<and> length key \<le> KMALLOC_MAX_SIZE"

definition crypt_request ::
  "kernel_env \<Rightarrow> disk \<Rightarrow> string \<Rightarrow> string \<Rightarrow> string \<Rightarrow> int \<Rightarrow> bytes \<Rightarrow> bytes \<Rightarrow> bool" where
  "crypt_request env files inp outp keyp n data key \<longleftrightarrow>
     crypt_inputs files inp outp keyp data key
     \<and> valid_count n \<and> unat (sizeof_task_params env) * nat n \<le> KMALLOC_MAX_SIZE
     \<and> 48 * nat n \<le> KMALLOC_MAX_SIZE"

context kernel_fs
begin

lemma encrypt_and_write_ok:
  assumes n: "valid_count n" and key: "key \<noteq> []" "length key < 2 ^ 64" and sz: "unat sz = length buf"
    and len: "length buf \<le> MAX_RW_COUNT"
    and out: "open_at disk h fo = Some outp" "contents disk h outp = Some []"
    and free: "\<And>r h. \<exists>h'. free_all r h = (Done r, h') \<and> contents disk h' = contents disk h"
  shows "\<exists>h'. encrypt_and_write env fo sz key buf n free_all h = (Done (int (length buf)), h')
    \<and> contents disk h' = (contents disk h)(outp \<mapsto> xor_all key buf)"
proof -
  let ?h1 = "h @ map Started [0..<nat n]"
  let ?h2 = "?h1 @ map Waited [0..<nat n]" and ?b = "xor_all key buf"
  have nz: "size_of_int n \<noteq> 0"
    using n unat_size_of_int [of n] by (auto simp: valid_count_def)
  have c: "create_workers env [0..<nat n] h = (None, ?h1)" by (rule create_workers_ok [OF spawn])
  have r: "run_threads key sz n buf = Some ?b" by (rule run_threads_xor_all [OF n key(2,1) sz])
  have fs: "fs_after disk ?h2 = fs_after disk h" by (simp only: fs_after_threads append_assoc [symmetric])
  then have w: "kernel_write env ?h2 fo ?b = int (length buf)" using out len by (simp add: write_all)
  obtain h' where h': "free_all (int (length buf)) (?h2 @ [Wrote fo ?b (int (length buf))]) = (Done (int (length buf)), h')"
    "contents disk h' = contents disk (?h2 @ [Wrote fo ?b (int (length buf))])" using free by blast
  have "contents disk h' = (contents disk h)(outp \<mapsto> ?b)"
    unfolding h'(2) using out fs by (subst write_fs) simp_all
  moreover have "encrypt_and_write env fo sz key buf n free_all h = (Done (int (length buf)), h')"
    using nz c r w h'(1) c_int_len [OF len] by (simp add: encrypt_and_write_def Let_def del: append_assoc)
  ultimately show ?thesis by blast
qed

lemma free_all_contents:
  "\<exists>h'. free_all_resources pt pa pf pb pk fk fo fi r h = (Done r, h') \<and> contents disk h' = contents disk h"
  by (simp add: encrypt_labels fs_after_neutral close_fs del: append_assoc)

lemma lists_ok:
  assumes "crypt_request env files inp outp keyp n data key" and "sz \<in> list_sizes env n"
  shows "kmalloc env h sz \<noteq> None"
proof (rule alloc)
  have "unat (size_of_int n) = nat n"
    using assms(1) by (intro unat_size_of_int) (auto simp: crypt_request_def valid_count_def)
  then have "unat (8 * size_of_int n) \<le> 8 * nat n"
    "unat (sizeof_task_params env * size_of_int n) \<le> unat (sizeof_task_params env) * nat n"
    "unat (48 * size_of_int n) \<le> 48 * nat n"
    using unat_mult_le [of 8 "size_of_int n"] unat_mult_le [of "sizeof_task_params env" "size_of_int n"]
      unat_mult_le [of 48 "size_of_int n"] by simp_all
  then show "unat sz \<le> KMALLOC_MAX_SIZE" using assms by (auto simp: list_sizes_def crypt_request_def)
qed

lemma alloc_lists_ok:
  assumes req: "crypt_request env files inp outp keyp n data key"
    and out: "open_at disk h fo = Some outp" "contents disk h outp = Some []"
  shows "\<exists>h'. alloc_lists_and_encrypt env fi fo fk pk key pb (of_nat (length data)) data n h
      = (Done (int (length data)), h') \<and> contents disk h' = (contents disk h)(outp \<mapsto> xor_all key data)"
proof -
  note ok = lists_ok [OF req]
  obtain pt where 1: "kmalloc env h (8 * size_of_int n) = Some pt" using ok by (force simp: list_sizes_def)
  let ?h1 = "h @ [Allocated pt]"
  obtain pa where 2: "kmalloc env ?h1 (sizeof_task_params env * size_of_int n) = Some pa"
    using ok by (force simp: list_sizes_def)
  let ?h2 = "?h1 @ [Allocated pa]"
  obtain pf where 3: "kmalloc env ?h2 (48 * size_of_int n) = Some pf" using ok by (force simp: list_sizes_def)
  let ?h3 = "?h2 @ [Allocated pf]"
  have fs: "fs_after disk ?h3 = fs_after disk h" by (simp only: fs_after_neutral)
  have run: "alloc_lists_and_encrypt env fi fo fk pk key pb (of_nat (length data)) data n h =
    encrypt_and_write env fo (of_nat (length data)) key data n (free_all_resources pt pa pf pb pk fk fo fi) ?h3"
    using 1 2 3 by (simp add: alloc_lists_and_encrypt_def do_kmalloc_def del: append_assoc)
  have len: "length data \<le> KMALLOC_MAX_SIZE" "length key < 2 ^ 64"
    using req by (auto simp: crypt_request_def crypt_inputs_def KMALLOC_MAX_SIZE_def)
  have "\<exists>h'. encrypt_and_write env fo (of_nat (length data)) key data n
      (free_all_resources pt pa pf pb pk fk fo fi) ?h3 = (Done (int (length data)), h')
    \<and> contents disk h' = (contents disk ?h3)(outp \<mapsto> xor_all key data)"
    using req out fs len by (intro encrypt_and_write_ok free_all_contents)
      (auto simp: crypt_request_def crypt_inputs_def unat_len max_sizes simp del: append_assoc)
  then show ?thesis using run fs by simp
qed

text \<open>The reads, up to the allocation of the lists, whatever the thread count.\<close>

lemma read_input_reduces:
  assumes req: "crypt_inputs files inp outp keyp data key"
    and fi: "open_at disk h fi = Some inp" "contents disk h inp = Some data"
  shows "\<exists>pb. read_input_and_encrypt env fi fo fk pk key n h =
      alloc_lists_and_encrypt env fi fo fk pk key pb (of_nat (length data)) data n (h @ [Allocated pb])"
proof -
  have len: "length data \<le> KMALLOC_MAX_SIZE" "data \<noteq> []" using req by (auto simp: crypt_inputs_def)
  note sz = unat_len [OF len(1)] size_pos [OF len(2,1)]
  obtain pb where 1: "kmalloc env h (of_nat (length data)) = Some pb"
    using alloc [of "of_nat (length data)" h] sz len by auto
  let ?h1 = "h @ [Allocated pb]"
  have fs: "fs_after disk ?h1 = fs_after disk h" by (simp only: fs_after_neutral)
  have rd: "kernel_read env ?h1 fi (of_nat (length data)) = (int (length data), data)"
    using fi fs by (intro read_all max_sizes [OF len(1)]) simp_all
  have "read_input_and_encrypt env fi fo fk pk key n h =
    alloc_lists_and_encrypt env fi fo fk pk key pb (of_nat (length data)) data n ?h1"
    using 1 sz rd size_reads [OF fi] c_int_len [OF max_sizes [OF len(1)]]
    by (simp add: read_input_and_encrypt_def do_kmalloc_def Let_def read_into_all)
  then show ?thesis by blast
qed

lemma read_key_reduces:
  assumes key: "key \<noteq> []" "length key \<le> KMALLOC_MAX_SIZE"
    and fk: "open_at disk h fk = Some keyp" "contents disk h keyp = Some key"
  shows "\<exists>pk. read_key_and_encrypt env fi fo fk n h =
      read_input_and_encrypt env fi fo fk pk key n (h @ [Allocated pk])"
proof -
  note sz = unat_len [OF key(2)] size_pos [OF key]
  obtain pk where 1: "kmalloc env h (of_nat (length key)) = Some pk"
    using alloc [of "of_nat (length key)" h] sz key by auto
  let ?h1 = "h @ [Allocated pk]"
  have fs: "fs_after disk ?h1 = fs_after disk h" by (simp only: fs_after_neutral)
  have rd: "kernel_read env ?h1 fk (of_nat (length key)) = (int (length key), key)"
    using fk fs by (intro read_all max_sizes [OF key(2)]) simp_all
  have "read_key_and_encrypt env fi fo fk n h = read_input_and_encrypt env fi fo fk pk key n ?h1"
    using 1 sz rd size_reads [OF fk] c_int_len [OF max_sizes [OF key(2)]]
    by (simp add: read_key_and_encrypt_def do_kmalloc_def Let_def read_into_all)
  then show ?thesis by blast
qed

text \<open>The three opens: the handles are distinct, and only the output is changed.\<close>

lemma open_three:
  assumes c: "contents disk h inp = Some data" "contents disk h keyp = Some key" "keyp \<noteq> outp"
  obtains fi fo fk h3 where
    "filp_open env h inp RDONLY = Inr fi"
    "filp_open env (h @ [Opened inp RDONLY fi]) outp WRONLY_CREAT_TRUNC = Inr fo"
    "filp_open env (h @ [Opened inp RDONLY fi, Opened outp WRONLY_CREAT_TRUNC fo]) keyp RDONLY = Inr fk"
    "h3 = h @ [Opened inp RDONLY fi, Opened outp WRONLY_CREAT_TRUNC fo, Opened keyp RDONLY fk]"
    "open_at disk h3 fi = Some inp" "open_at disk h3 fo = Some outp" "open_at disk h3 fk = Some keyp"
    "contents disk h3 = (contents disk h)(outp \<mapsto> [])"
proof -
  obtain fi where 1: "filp_open env h inp RDONLY = Inr fi" using open_read [OF c(1)] by blast
  let ?h1 = "h @ [Opened inp RDONLY fi]"
  obtain fo where 2: "filp_open env ?h1 outp WRONLY_CREAT_TRUNC = Inr fo" "open_at disk ?h1 fo = None"
    using open_trunc by blast
  let ?h2 = "?h1 @ [Opened outp WRONLY_CREAT_TRUNC fo]"
  have k: "contents disk ?h2 keyp = Some key" using c by (simp only: open_trunc_fs open_read_fs) simp
  obtain fk where 3: "filp_open env ?h2 keyp RDONLY = Inr fk" "open_at disk ?h2 fk = None"
    using open_read [OF k] by blast
  let ?h3 = "?h2 @ [Opened keyp RDONLY fk]"
  have "fo \<noteq> fi" using 2(2) by (auto simp: open_read_fs)
  moreover have "fk \<noteq> fo" "fk \<noteq> fi"
    using 3(2) by (auto simp: open_read_fs open_trunc_fs simp del: append_assoc split: if_splits)
  ultimately have "open_at disk ?h3 fi = Some inp" "open_at disk ?h3 fo = Some outp"
    "open_at disk ?h3 fk = Some keyp" "contents disk ?h3 = (contents disk h)(outp \<mapsto> [])"
    by (simp_all add: open_read_fs open_trunc_fs del: append_assoc)
  then show thesis using that [OF 1 2(1), of fk ?h3] 3(1) by simp
qed

text \<open>With all inputs in place the run gets to the allocation of the lists.\<close>

lemma handle_reduces:
  assumes req: "crypt_inputs (contents disk h) inp outp keyp data key"
  obtains fi fo fk pk pb h' where
    "handle_file_encryption env inp outp keyp n h =
       alloc_lists_and_encrypt env fi fo fk pk key pb (of_nat (length data)) data n h'"
    "open_at disk h' fo = Some outp" "contents disk h' = (contents disk h)(outp \<mapsto> [])"
proof -
  have c: "contents disk h inp = Some data" "contents disk h keyp = Some key" "keyp \<noteq> outp" "inp \<noteq> outp"
    and key: "key \<noteq> []" "length key \<le> KMALLOC_MAX_SIZE"
    using req by (auto simp: crypt_inputs_def)
  obtain fi fo fk h3 where o: "filp_open env h inp RDONLY = Inr fi"
    "filp_open env (h @ [Opened inp RDONLY fi]) outp WRONLY_CREAT_TRUNC = Inr fo"
    "filp_open env (h @ [Opened inp RDONLY fi, Opened outp WRONLY_CREAT_TRUNC fo]) keyp RDONLY = Inr fk"
    "h3 = h @ [Opened inp RDONLY fi, Opened outp WRONLY_CREAT_TRUNC fo, Opened keyp RDONLY fk]"
    and s: "open_at disk h3 fi = Some inp" "open_at disk h3 fo = Some outp" "open_at disk h3 fk = Some keyp"
    "contents disk h3 = (contents disk h)(outp \<mapsto> [])"
    using open_three [OF c(1,2,3)] by blast
  have f: "contents disk h3 inp = Some data" "contents disk h3 keyp = Some key" using s(4) c by auto
  obtain pk where k: "read_key_and_encrypt env fi fo fk n h3 =
      read_input_and_encrypt env fi fo fk pk key n (h3 @ [Allocated pk])"
    using read_key_reduces [OF key s(3) f(2)] by blast
  let ?h4 = "h3 @ [Allocated pk]"
  have 4: "fs_after disk ?h4 = fs_after disk h3" by (simp only: fs_after_neutral)
  have "open_at disk ?h4 fi = Some inp" "contents disk ?h4 inp = Some data" using 4 s(1) f(1) by simp_all
  then obtain pb where i: "read_input_and_encrypt env fi fo fk pk key n ?h4 =
      alloc_lists_and_encrypt env fi fo fk pk key pb (of_nat (length data)) data n (?h4 @ [Allocated pb])"
    using read_input_reduces [OF req] by blast
  have "fs_after disk (?h4 @ [Allocated pb]) = fs_after disk h3" using 4 by (simp only: fs_after_neutral)
  moreover have "handle_file_encryption env inp outp keyp n h = read_key_and_encrypt env fi fo fk n h3"
    using o by (simp add: handle_file_encryption_def do_open_def)
  ultimately show thesis
    using k i s(2,4) by (intro that [of fi fo fk pk pb "?h4 @ [Allocated pb]"]) simp_all
qed

lemma handle_file_encryption_writes:
  assumes req: "crypt_request env (contents disk h) inp outp keyp n data key"
  shows "\<exists>h'. handle_file_encryption env inp outp keyp n h = (Done (int (length data)), h')
    \<and> contents disk h' = (contents disk h)(outp \<mapsto> xor_all key data)"
proof -
  have "crypt_inputs (contents disk h) inp outp keyp data key" using req by (simp add: crypt_request_def)
  from handle_reduces [OF this, of n] obtain fi fo fk pk pb h' where
    "handle_file_encryption env inp outp keyp n h =
       alloc_lists_and_encrypt env fi fo fk pk key pb (of_nat (length data)) data n h'"
    and s: "open_at disk h' fo = Some outp" "contents disk h' = (contents disk h)(outp \<mapsto> [])" by blast
  then show ?thesis using alloc_lists_ok [OF req s(1), of fi fk pk pb] by simp
qed

lemma no_threads_trap:
  assumes req: "crypt_inputs (contents disk h) inp outp keyp data key"
  shows "fst (handle_file_encryption env inp outp keyp 0 h) = Oops"
proof -
  obtain fi fo fk pk pb h' where
    eq: "handle_file_encryption env inp outp keyp 0 h =
       alloc_lists_and_encrypt env fi fo fk pk key pb (of_nat (length data)) data 0 h'"
    and "open_at disk h' fo = Some outp" "contents disk h' = (contents disk h)(outp \<mapsto> [])"
    using handle_reduces [OF req, of 0] by blast
  have k: "\<exists>p. kmalloc env k 0 = Some p" for k using alloc [of 0 k] by simp
  obtain a where a: "kmalloc env h' 0 = Some a" using k by blast
  obtain b where b: "kmalloc env (h' @ [Allocated a]) 0 = Some b" using k by blast
  obtain c where c: "kmalloc env (h' @ [Allocated a, Allocated b]) 0 = Some c" using k by blast
  from a b c show ?thesis
    by (simp add: eq alloc_lists_and_encrypt_def do_kmalloc_def encrypt_and_write_def size_of_int_def)
qed

lemma negative_count_fails:
  assumes req: "crypt_inputs (contents disk h) inp outp keyp data key"
    and n: "n < 0" "- (2 ^ 31) \<le> n"
    and big: "\<And>sz h. KMALLOC_MAX_SIZE < unat sz \<Longrightarrow> kmalloc env h sz = None"
  shows "\<exists>h'. handle_file_encryption env inp outp keyp n h = (Done (- ENOMEM), h')
    \<and> contents disk h' = (contents disk h)(outp \<mapsto> [])"
proof -
  obtain fi fo fk pk pb h' where
    eq: "handle_file_encryption env inp outp keyp n h =
       alloc_lists_and_encrypt env fi fo fk pk key pb (of_nat (length data)) data n h'"
    and "open_at disk h' fo = Some outp" and s: "contents disk h' = (contents disk h)(outp \<mapsto> [])"
    using handle_reduces [OF req, of n] by blast
  have "8 * size_of_int n = word_of_int (8 * n)" by (simp add: size_of_int_def)
  then have "uint (8 * size_of_int n) = (8 * n + 2 ^ 64) mod 2 ^ 64"
    by (simp only: uint_word_of_int mod_add_self2) simp
  also have "\<dots> = 8 * n + 2 ^ 64" using n by (intro mod_pos_pos_trivial) simp_all
  finally have "uint (8 * size_of_int n) = 8 * n + 2 ^ 64" .
  then have "KMALLOC_MAX_SIZE < unat (8 * size_of_int n)"
    using n by (simp add: unat_eq_nat_uint KMALLOC_MAX_SIZE_def)
  then have 1: "kmalloc env k (8 * size_of_int n) = None" for k by (rule big)
  let ?s2 = "sizeof_task_params env * size_of_int n" and ?s3 = "48 * size_of_int n"
  obtain h1 where h1: "snd (do_kmalloc env ?s3 (snd (do_kmalloc env ?s2 h'))) = h1" by simp
  have fs: "fs_after disk (snd (do_kmalloc env sz k)) = fs_after disk k" for sz k
    by (cases "kmalloc env k sz") (simp_all add: do_kmalloc_def fs_after_neutral)
  have "alloc_lists_and_encrypt env fi fo fk pk key pb (of_nat (length data)) data n h' =
      free_file_buffer pb pk fk fo fi (- ENOMEM) h1"
    using 1 h1 by (simp add: alloc_lists_and_encrypt_def do_kmalloc_def [of _ "8 * size_of_int n"] split_beta)
  moreover have "contents disk h1 = (contents disk h)(outp \<mapsto> [])" using fs s by (simp flip: h1)
  ultimately show ?thesis
    by (simp add: eq encrypt_labels fs_after_neutral close_fs del: append_assoc)
qed

lemma in_place_destroys:
  assumes "contents disk h p = Some data" and "contents disk h keyp = Some key" "keyp \<noteq> p"
    and key: "key \<noteq> []" "length key \<le> KMALLOC_MAX_SIZE"
  shows "\<exists>h'. handle_file_encryption env p p keyp n h = (Done (- EINVAL), h') \<and> contents disk h' p = Some []"
proof -
  obtain fi fo fk h3 where o: "filp_open env h p RDONLY = Inr fi"
    "filp_open env (h @ [Opened p RDONLY fi]) p WRONLY_CREAT_TRUNC = Inr fo"
    "filp_open env (h @ [Opened p RDONLY fi, Opened p WRONLY_CREAT_TRUNC fo]) keyp RDONLY = Inr fk"
    "h3 = h @ [Opened p RDONLY fi, Opened p WRONLY_CREAT_TRUNC fo, Opened keyp RDONLY fk]"
    and s: "open_at disk h3 fi = Some p" "open_at disk h3 fo = Some p" "open_at disk h3 fk = Some keyp"
    "contents disk h3 = (contents disk h)(p \<mapsto> [])"
    by (rule open_three [OF assms(1,2,3)]) (rule that)
  have f: "contents disk h3 p = Some []" "contents disk h3 keyp = Some key" using s(4) assms by auto
  obtain pk where k: "read_key_and_encrypt env fi fo fk n h3 =
      read_input_and_encrypt env fi fo fk pk key n (h3 @ [Allocated pk])"
    using read_key_reduces [OF key s(3) f(2)] by blast
  let ?h4 = "h3 @ [Allocated pk]"
  have 4: "fs_after disk ?h4 = fs_after disk h3" by (simp only: fs_after_neutral)
  then have "i_size_read env ?h4 fi = 0" using size_reads [of ?h4 fi p "[]"] s f by simp
  then have "read_input_and_encrypt env fi fo fk pk key n ?h4 = free_encryption_key pk fk fo fi (- EINVAL) ?h4"
    by (simp add: read_input_and_encrypt_def)
  moreover have "handle_file_encryption env p p keyp n h = read_key_and_encrypt env fi fo fk n h3"
    using o by (simp add: handle_file_encryption_def do_open_def)
  ultimately show ?thesis
    using k f(1) by (simp add: encrypt_labels fs_after_neutral close_fs del: append_assoc)
qed

end

subsection \<open>Properties of the encryption\<close>

definition sample_disk :: disk where
  "sample_disk = [''in'' \<mapsto> [5, 7, 9], ''key'' \<mapsto> [3, 1]]"

lemma sample_contents: "contents d [] = d"
  by (simp add: fs_after_def)

lemma sample_inputs: "crypt_inputs (contents sample_disk []) ''in'' ''out'' ''key'' [5, 7, 9] [3, 1]"
  by (simp add: sample_contents crypt_inputs_def sample_disk_def KMALLOC_MAX_SIZE_def)

lemma sample_request:
  "crypt_request (disk_env sample_disk) (contents sample_disk []) ''in'' ''out'' ''key'' 2 [5, 7, 9] [3, 1]"
  by (simp add: sample_inputs crypt_request_def valid_count_def disk_env_def KMALLOC_MAX_SIZE_def)

text \<open>C4: on a kernel that keeps its promises, a request with existing input and key, another
  output path and a positive thread count returns the number of bytes of the file, and the
  output file is then the input combined with the repeated key; no other file changes.\<close>
theorem encryption_writes_cipher:
  assumes "kernel_fs env disk"
    and "crypt_request env (contents disk h) inp outp keyp n data key"
  shows "\<exists>h'. handle_file_encryption env inp outp keyp n h = (Done (int (length data)), h')
    \<and> contents disk h' = (contents disk h)(outp \<mapsto> xor_all key data)"
  by (rule kernel_fs.handle_file_encryption_writes [OF assms])

theorem encryption_writes_cipher_witness:
  "\<exists>h'. handle_file_encryption (disk_env sample_disk) ''in'' ''out'' ''key'' 2 [] = (Done 3, h')
    \<and> contents sample_disk h' ''out'' = Some [6, 6, 10]"
proof -
  have "xor_all [3, 1] [5, 7, 9] = [6, 6, 10]" by (simp add: xor_all_def xor_at_def upt_rec)
  then show ?thesis
    using encryption_writes_cipher [OF disk_kernel.kernel_fs_axioms sample_request] by auto
qed


definition no_memory_env :: kernel_env where
  "no_memory_env = (disk_env sample_disk)
     \<lparr>filp_open := (\<lambda>h p m. Inr (length h)), i_size_read := (\<lambda>h f. 4), kmalloc := (\<lambda>h sz. None)\<rparr>"


text \<open>When the input cannot be opened, the output has been opened, and so emptied, and is
  never closed.\<close>
theorem failed_input_leaks_output:
  assumes "filp_open env h inp RDONLY = Inl e" and "filp_open env h outp WRONLY_CREAT_TRUNC = Inr fo"
    and "handle_file_encryption env inp outp keyp n h = (r, h')"
  shows "r = Done (c_int e) \<and> 0 < open_count h' fo - open_count h fo \<and> contents d h' outp = Some []"
proof (cases "filp_open env (h @ [Opened outp WRONLY_CREAT_TRUNC fo]) keyp RDONLY")
  case (Inl k)
  then show ?thesis using assms by (auto simp: handle_file_encryption_def do_open_def open_trunc_fs)
next
  case (Inr fk)
  have "contents d ((h @ [Opened outp WRONLY_CREAT_TRUNC fo]) @ [Opened keyp RDONLY fk]) outp = Some []"
    by (simp only: open_read_fs open_trunc_fs) simp
  with Inr show ?thesis using assms by (auto simp: handle_file_encryption_def do_open_def)
qed

theorem failed_input_leaks_output_witness:
  "filp_open (disk_env sample_disk) [] ''none'' RDONLY = Inl (- ENOENT)
   \<and> fst (handle_file_encryption (disk_env sample_disk) ''none'' ''key'' ''key'' 2 []) = Done (- ENOENT)
   \<and> contents sample_disk (snd (handle_file_encryption (disk_env sample_disk) ''none'' ''key'' ''key'' 2 [])) ''key''
      = Some []"
proof -
  have o: "filp_open (disk_env sample_disk) [] ''none'' RDONLY = Inl (- ENOENT)"
    "filp_open (disk_env sample_disk) [] ''key'' WRONLY_CREAT_TRUNC = Inr (next_handle [])"
    by (simp_all add: disk_env_def sample_contents) (simp add: sample_disk_def)
  show ?thesis
    using failed_input_leaks_output [OF o prod.collapse [symmetric], of "''key''" 2 sample_disk] o by simp
qed

text \<open>The system call does not check the thread count: with 0 threads a request that is
  otherwise in order reaches the division by the count and traps.\<close>
theorem zero_threads_trap:
  assumes "kernel_fs env disk" and "crypt_inputs (contents disk h) inp outp keyp data key"
  shows "fst (handle_file_encryption env inp outp keyp 0 h) = Oops"
  by (rule kernel_fs.no_threads_trap [OF assms])

theorem zero_threads_trap_witness:
  "fst (handle_file_encryption (disk_env sample_disk) ''in'' ''out'' ''key'' 0 []) = Oops"
  by (rule zero_threads_trap [OF disk_kernel.kernel_fs_axioms sample_inputs])

text \<open>A negative thread count is caught only by \<open>kmalloc\<close>, to which it is a huge size: the
  call returns \<open>-ENOMEM\<close>, after the output file has been emptied.\<close>
theorem negative_threads_fail:
  assumes "kernel_fs env disk" and "crypt_inputs (contents disk h) inp outp keyp data key"
    and "n < 0" and "- (2 ^ 31) \<le> n"
    and "\<And>sz h. KMALLOC_MAX_SIZE < unat sz \<Longrightarrow> kmalloc env h sz = None"
  shows "\<exists>h'. handle_file_encryption env inp outp keyp n h = (Done (- ENOMEM), h')
    \<and> contents disk h' = (contents disk h)(outp \<mapsto> [])"
  by (rule kernel_fs.negative_count_fails [OF assms])

theorem negative_threads_fail_witness:
  "\<exists>h'. handle_file_encryption (disk_env sample_disk) ''in'' ''out'' ''key'' (- 1) [] = (Done (- ENOMEM), h')
    \<and> contents sample_disk h' = (contents sample_disk [])(''out'' \<mapsto> [])"
proof -
  have "kmalloc (disk_env sample_disk) h sz = None" if "KMALLOC_MAX_SIZE < unat sz" for h sz
    using that by (simp add: disk_env_def)
  then show ?thesis
    using negative_threads_fail [OF disk_kernel.kernel_fs_axioms sample_inputs, of "- 1"] by simp
qed

text \<open>Encrypting a file onto itself destroys it: the output is opened with \<open>O_TRUNC\<close> before
  the input is read, so the call fails with \<open>-EINVAL\<close> and the file is empty.\<close>
theorem in_place_encryption_destroys:
  assumes "kernel_fs env disk" and "contents disk h p = Some data" and "contents disk h keyp = Some key"
    and "keyp \<noteq> p" and "key \<noteq> []" and "length key \<le> KMALLOC_MAX_SIZE"
  shows "\<exists>h'. handle_file_encryption env p p keyp n h = (Done (- EINVAL), h') \<and> contents disk h' p = Some []"
  by (rule kernel_fs.in_place_destroys [OF assms])

theorem in_place_encryption_destroys_witness:
  "contents sample_disk [] ''in'' = Some [5, 7, 9] \<and>
   (\<exists>h'. handle_file_encryption (disk_env sample_disk) ''in'' ''in'' ''key'' 2 [] = (Done (- EINVAL), h')
      \<and> contents sample_disk h' ''in'' = Some [])"
proof -
  have "contents sample_disk [] ''in'' = Some [5, 7, 9]" "contents sample_disk [] ''key'' = Some [3, 1]"
    "''key'' \<noteq> ''in''" by (simp_all add: sample_contents sample_disk_def)
  then show ?thesis
    using in_place_encryption_destroys [OF disk_kernel.kernel_fs_axioms, of sample_disk "[]" "''in''" _ "''key''"]
    by (simp add: KMALLOC_MAX_SIZE_def)
qed

text \<open>The system call: copies of the three paths that succeed make it \<open>handle_file_encryption\<close>
  with every path freed afterwards; a copy that fails makes it return \<open>-EFAULT\<close> after calling
  \<open>kfree\<close> on the error pointer.\<close>
theorem my_encrypt_result:
  "(case strndup_user env h a of
      Inl e \<Rightarrow> fst (my_encrypt env a b c n h) = Done (- EFAULT)
        \<and> FreedErr e \<in> set (snd (my_encrypt env a b c n h))
    | Inr (p, i) \<Rightarrow>
        (case strndup_user env (h @ [Allocated p]) b of
           Inl e \<Rightarrow> fst (my_encrypt env a b c n h) = Done (- EFAULT)
             \<and> FreedErr e \<in> set (snd (my_encrypt env a b c n h))
         | Inr (q, j) \<Rightarrow>
             (case strndup_user env (h @ [Allocated p, Allocated q]) c of
                Inl e \<Rightarrow> fst (my_encrypt env a b c n h) = Done (- EFAULT)
                  \<and> FreedErr e \<in> set (snd (my_encrypt env a b c n h))
              | Inr (s, k) \<Rightarrow>
                  (case handle_file_encryption env i j k n (h @ [Allocated p, Allocated q, Allocated s]) of
                     (Oops, h') \<Rightarrow> my_encrypt env a b c n h = (Oops, h')
                   | (Done r, h') \<Rightarrow>
                       my_encrypt env a b c n h = (Done r, h' @ [Freed p, Freed q, Freed s])))))"
  by (auto simp: my_encrypt_def do_strndup_def kfree_user_def Let_def
      split: sum.splits prod.splits outcome.splits)

end
