(* ===== verification/File_Decrypt.thy ===== *)
theory File_Decrypt
  imports File_Crypt
begin

text \<open>
  \<open>Practica2/linux-6.6.44/kernel/my_decrypt.c\<close>, modelled from its own text: the chunk of a
  thread, the worker loop, \<open>decrypt_file_process\<close> with its labels and the system call
  \<open>my_decrypt\<close>. The theory then relates it to the encryption: the two are the same function,
  and one after the other they give back the file, whatever the two thread counts.
\<close>

subsection \<open>Chunks and the worker\<close>

record data_chunk =
  dc_size :: u64
  dc_key_size :: u64
  dc_start :: u64
  dc_end :: u64

definition chunk_of :: "u64 \<Rightarrow> u64 \<Rightarrow> int \<Rightarrow> nat \<Rightarrow> data_chunk" where
  "chunk_of input_size key_size num_threads i =
     (let chunk_size = input_size div size_of_int num_threads;
          remainder = input_size mod size_of_int num_threads
      in \<lparr>dc_size = input_size, dc_key_size = key_size,
          dc_start = size_of_int (int i) * chunk_size,
          dc_end =
            (if int i = num_threads - 1
             then size_of_int (int i + 1) * chunk_size + remainder
             else size_of_int (int i + 1) * chunk_size)\<rparr>)"

text \<open>The loop of \<open>xor_decrypt_worker\<close>; \<open>None\<close> is an access outside the data or the key.\<close>

function decrypt_loop :: "bytes \<Rightarrow> bytes \<Rightarrow> u64 \<Rightarrow> u64 \<Rightarrow> u64 \<Rightarrow> bytes option" where
  "decrypt_loop data key key_size i end_idx =
     (if \<not> i < end_idx then Some data
      else if key_size = 0 \<or> length data \<le> unat i \<or> length key \<le> unat (i mod key_size) then None
      else decrypt_loop (data[unat i := (data ! unat i) XOR (key ! unat (i mod key_size))]) key key_size
             (i + 1) end_idx)"
  by pat_completeness auto
termination
  by (relation "measure (\<lambda>(data, key, kl, i, e). unat e - unat i)")
    (auto simp: unat_Suc_less word_less_nat_alt)

declare decrypt_loop.simps [simp del]

definition xor_decrypt_worker :: "bytes \<Rightarrow> bytes \<Rightarrow> data_chunk \<Rightarrow> bytes option" where
  "xor_decrypt_worker data key c = decrypt_loop data key (dc_key_size c) (dc_start c) (dc_end c)"

fun run_decrypt_workers :: "bytes \<Rightarrow> data_chunk list \<Rightarrow> bytes \<Rightarrow> bytes option" where
  "run_decrypt_workers key [] data = Some data"
| "run_decrypt_workers key (c # cs) data =
     (case xor_decrypt_worker data key c of None \<Rightarrow> None | Some d \<Rightarrow> run_decrypt_workers key cs d)"

definition run_decrypt_threads :: "bytes \<Rightarrow> u64 \<Rightarrow> int \<Rightarrow> bytes \<Rightarrow> bytes option" where
  "run_decrypt_threads key input_size n data =
     run_decrypt_workers key (map (chunk_of input_size (of_nat (length key)) n) [0..<nat n]) data"

subsection \<open>The clean-up labels\<close>

definition close_infile :: "nat \<Rightarrow> int \<Rightarrow> int io" where
  "close_infile infile ret h = (Done ret, h @ [Closed infile])"

definition close_outfile :: "nat \<Rightarrow> nat \<Rightarrow> int \<Rightarrow> int io" where
  "close_outfile outfile infile ret h = close_infile infile ret (h @ [Closed outfile])"

definition close_keyfile :: "nat \<Rightarrow> nat \<Rightarrow> nat \<Rightarrow> int \<Rightarrow> int io" where
  "close_keyfile keyfile outfile infile ret h = close_outfile outfile infile ret (h @ [Closed keyfile])"

definition free_key :: "nat \<Rightarrow> nat \<Rightarrow> nat \<Rightarrow> nat \<Rightarrow> int \<Rightarrow> int io" where
  "free_key key keyfile outfile infile ret h =
     close_keyfile keyfile outfile infile ret (kfree (Some key) h)"

definition free_data :: "nat \<Rightarrow> nat \<Rightarrow> nat \<Rightarrow> nat \<Rightarrow> nat \<Rightarrow> int \<Rightarrow> int io" where
  "free_data data key keyfile outfile infile ret h =
     free_key key keyfile outfile infile ret (kfree (Some data) h)"

definition free_all :: "nat \<Rightarrow> nat \<Rightarrow> nat \<Rightarrow> nat \<Rightarrow> nat \<Rightarrow> nat \<Rightarrow> nat \<Rightarrow> nat \<Rightarrow> int \<Rightarrow> int io" where
  "free_all threads args_list chunks data key keyfile outfile infile ret h =
     free_data data key keyfile outfile infile ret
       (kfree (Some chunks) (kfree (Some args_list) (kfree (Some threads) h)))"

subsection \<open>\<open>decrypt_file_process\<close>\<close>

fun create_decrypt_threads :: "kernel_env \<Rightarrow> nat list \<Rightarrow> history \<Rightarrow> int option \<times> history" where
  "create_decrypt_threads env [] h = (None, h)"
| "create_decrypt_threads env (i # is) h =
     (case kthread_run env h i of
        Inl e \<Rightarrow> (Some e, h)
      | Inr t \<Rightarrow> create_decrypt_threads env is (h @ [Started i]))"

definition decrypt_and_write ::
  "kernel_env \<Rightarrow> nat \<Rightarrow> u64 \<Rightarrow> bytes \<Rightarrow> bytes \<Rightarrow> int \<Rightarrow> (int \<Rightarrow> int io) \<Rightarrow> int io" where
  "decrypt_and_write env outfile input_size key data num_threads free_everything h =
     (if size_of_int num_threads = 0 then (Oops, h)
      else
        (case create_decrypt_threads env [0..<nat num_threads] h of
           (Some e, h1) \<Rightarrow> free_everything (c_int e) h1
         | (None, h1) \<Rightarrow>
             (case run_decrypt_threads key input_size num_threads data of
                None \<Rightarrow> (Oops, h1)
              | Some data' \<Rightarrow>
                  let h2 = h1 @ map Waited [0..<nat num_threads];
                      r = kernel_write env h2 outfile data'
                  in free_everything (c_int r) (h2 @ [Wrote outfile data' r]))))"

definition alloc_lists_and_decrypt ::
  "kernel_env \<Rightarrow> nat \<Rightarrow> nat \<Rightarrow> nat \<Rightarrow> nat \<Rightarrow> bytes \<Rightarrow> nat \<Rightarrow> u64 \<Rightarrow> bytes \<Rightarrow> int \<Rightarrow> int io" where
  "alloc_lists_and_decrypt env infile outfile keyfile key_block key data_block input_size data
       num_threads h =
     (let (threads, h1) = do_kmalloc env (8 * size_of_int num_threads) h;
          (args_list, h2) = do_kmalloc env (sizeof_task_params env * size_of_int num_threads) h1;
          (chunks, h3) = do_kmalloc env (48 * size_of_int num_threads) h2
      in case (threads, args_list, chunks) of
           (Some pt, Some pa, Some pc) \<Rightarrow>
             decrypt_and_write env outfile input_size key data num_threads
               (free_all pt pa pc data_block key_block keyfile outfile infile) h3
         | _ \<Rightarrow> free_data data_block key_block keyfile outfile infile (- ENOMEM) h3)"

definition read_input_and_decrypt ::
  "kernel_env \<Rightarrow> nat \<Rightarrow> nat \<Rightarrow> nat \<Rightarrow> nat \<Rightarrow> bytes \<Rightarrow> int \<Rightarrow> int io" where
  "read_input_and_decrypt env infile outfile keyfile key_block key num_threads h =
     (let input_size = word_of_int (i_size_read env h infile) :: u64 in
      if input_size \<le> 0 then free_key key_block keyfile outfile infile (- EINVAL) h
      else
        (case do_kmalloc env input_size h of
           (None, h1) \<Rightarrow> free_key key_block keyfile outfile infile (- ENOMEM) h1
         | (Some data_block, h1) \<Rightarrow>
             let (r, bs) = kernel_read env h1 infile input_size;
                 data = read_into bs (fresh_block env data_block input_size)
             in if c_int r < 0 then free_data data_block key_block keyfile outfile infile (c_int r) h1
                else
                  alloc_lists_and_decrypt env infile outfile keyfile key_block key data_block
                    input_size data num_threads h1))"

definition read_key_and_decrypt :: "kernel_env \<Rightarrow> nat \<Rightarrow> nat \<Rightarrow> nat \<Rightarrow> int \<Rightarrow> int io" where
  "read_key_and_decrypt env infile outfile keyfile num_threads h =
     (let key_size = word_of_int (i_size_read env h keyfile) :: u64 in
      if key_size \<le> 0 then close_keyfile keyfile outfile infile (- EINVAL) h
      else
        (case do_kmalloc env key_size h of
           (None, h1) \<Rightarrow> close_keyfile keyfile outfile infile (- ENOMEM) h1
         | (Some key_block, h1) \<Rightarrow>
             let (r, bs) = kernel_read env h1 keyfile key_size;
                 key = read_into bs (fresh_block env key_block key_size)
             in if c_int r < 0 then free_key key_block keyfile outfile infile (c_int r) h1
                else
                  read_input_and_decrypt env infile outfile keyfile key_block key num_threads h1))"

definition decrypt_file_process :: "kernel_env \<Rightarrow> string \<Rightarrow> string \<Rightarrow> string \<Rightarrow> int \<Rightarrow> int io" where
  "decrypt_file_process env input_file output_file key_file num_threads h =
     (let (infile, h1) = do_open env input_file RDONLY h;
          (outfile, h2) = do_open env output_file WRONLY_CREAT_TRUNC h1;
          (keyfile, h3) = do_open env key_file RDONLY h2
      in case infile of
           Inl e \<Rightarrow> (Done (c_int e), h3)
         | Inr fi \<Rightarrow>
             (case outfile of
                Inl e \<Rightarrow> close_infile fi (c_int e) h3
              | Inr fo \<Rightarrow>
                  (case keyfile of
                     Inl e \<Rightarrow> close_outfile fo fi (c_int e) h3
                   | Inr fk \<Rightarrow> read_key_and_decrypt env fi fo fk num_threads h3)))"

definition my_decrypt :: "kernel_env \<Rightarrow> u64 \<Rightarrow> u64 \<Rightarrow> u64 \<Rightarrow> int \<Rightarrow> int io" where
  "my_decrypt env input_path output_path key_path num_threads h =
     (let (k_input, h1) = do_strndup env input_path h;
          (k_output, h2) = do_strndup env output_path h1;
          (k_key, h3) = do_strndup env key_path h2;
          out_free = (\<lambda>h. kfree_user k_key (kfree_user k_output (kfree_user k_input h)))
      in case (k_input, k_output, k_key) of
           (Inr (pi, i), Inr (po, o'), Inr (pk, k)) \<Rightarrow>
             (case decrypt_file_process env i o' k num_threads h3 of
                (Oops, h4) \<Rightarrow> (Oops, h4)
              | (Done r, h4) \<Rightarrow> (Done r, out_free h4))
         | _ \<Rightarrow> (Done (- EFAULT), out_free h3))"

subsection \<open>Decryption is encryption\<close>

lemma decrypt_loop_eq: "decrypt_loop data key kl i e = xor_loop data key kl i e"
proof (induction data key kl i e rule: xor_loop.induct)
  case (1 data key kl i e)
  then show ?case
    by (subst decrypt_loop.simps, subst xor_loop.simps) (auto simp: xor_byte_def)
qed

lemma chunk_fields:
  "dc_key_size (chunk_of fs kl n i) = fr_key_length (fragment_of fs kl n i)"
  "dc_start (chunk_of fs kl n i) = fr_start_idx (fragment_of fs kl n i)"
  "dc_end (chunk_of fs kl n i) = fr_end_idx (fragment_of fs kl n i)"
  by (simp_all add: chunk_of_def fragment_of_def Let_def)

lemma run_decrypt_workers_eq:
  "run_decrypt_workers key (map (chunk_of fs kl n) is) data = run_workers key (map (fragment_of fs kl n) is) data"
  by (induction "is" arbitrary: data)
    (simp_all add: xor_decrypt_worker_def perform_xor_operation_def decrypt_loop_eq chunk_fields split: option.split)

lemma run_decrypt_threads_eq: "run_decrypt_threads = run_threads"
  by (intro ext) (simp add: run_decrypt_threads_def run_threads_def run_decrypt_workers_eq)

lemma create_decrypt_threads_eq: "create_decrypt_threads = create_workers"
proof (intro ext)
  show "create_decrypt_threads env is h = create_workers env is h" for env "is" h
    by (induction env "is" h rule: create_workers.induct) (simp_all split: sum.split)
qed

lemma decrypt_labels_eq:
  "close_infile = close_input_file" "close_outfile = close_output_file" "close_keyfile = close_key_file"
  "free_key = free_encryption_key" "free_data = free_file_buffer" "free_all = free_all_resources"
  by (intro ext; simp add: encrypt_labels close_infile_def close_outfile_def close_keyfile_def
      free_key_def free_data_def free_all_def)+

lemma decrypt_and_write_eq: "decrypt_and_write = encrypt_and_write"
  by (intro ext, unfold decrypt_and_write_def encrypt_and_write_def run_decrypt_threads_eq
      create_decrypt_threads_eq) (rule refl)

lemma alloc_lists_and_decrypt_eq: "alloc_lists_and_decrypt = alloc_lists_and_encrypt"
  by (intro ext, unfold alloc_lists_and_decrypt_def alloc_lists_and_encrypt_def
      decrypt_and_write_eq decrypt_labels_eq) (rule refl)

lemma read_input_and_decrypt_eq: "read_input_and_decrypt = read_input_and_encrypt"
  by (intro ext, unfold read_input_and_decrypt_def read_input_and_encrypt_def
      alloc_lists_and_decrypt_eq decrypt_labels_eq) (rule refl)

lemma read_key_and_decrypt_eq: "read_key_and_decrypt = read_key_and_encrypt"
  by (intro ext, unfold read_key_and_decrypt_def read_key_and_encrypt_def
      read_input_and_decrypt_eq decrypt_labels_eq) (rule refl)

lemma decrypt_file_process_eq: "decrypt_file_process = handle_file_encryption"
  by (intro ext, unfold decrypt_file_process_def handle_file_encryption_def
      read_key_and_decrypt_eq decrypt_labels_eq) (rule refl)

text \<open>The two system calls compute the same: for every kernel, arguments and history they
  return the same and have the same effects. Decrypting is encrypting again.\<close>
theorem my_decrypt_is_my_encrypt:
  "my_decrypt env a b c n h = my_encrypt env a b c n h
   \<and> decrypt_file_process env i o' k n h = handle_file_encryption env i o' k n h"
  unfolding my_decrypt_def my_encrypt_def decrypt_file_process_eq by (intro conjI refl)

subsection \<open>The round trip\<close>

text \<open>
  What the client of the pair relies on: on a working kernel each of the two operations
  writes the combination of file and key and changes no other file.
\<close>

lemma xor_all_Nil: "xor_all key data = [] \<longleftrightarrow> data = []"
  by (simp add: xor_all_def)

locale file_cipher =
  fixes process :: "kernel_env \<Rightarrow> string \<Rightarrow> string \<Rightarrow> string \<Rightarrow> int \<Rightarrow> int io"
  assumes process_writes:
    "kernel_fs env disk \<Longrightarrow> crypt_request env (contents disk h) inp outp keyp n data key \<Longrightarrow>
     \<exists>h'. process env inp outp keyp n h = (Done (int (length data)), h')
       \<and> contents disk h' = (contents disk h)(outp \<mapsto> xor_all key data)"

locale cipher_pair = enc: file_cipher encrypt + dec: file_cipher decrypt for encrypt decrypt
begin

lemma second_request:
  assumes "crypt_request env files inp mid keyp n data key"
    and "files' = files(mid \<mapsto> xor_all key data)" and "mid \<noteq> out" "keyp \<noteq> out"
    and "valid_count m" "unat (sizeof_task_params env) * nat m \<le> KMALLOC_MAX_SIZE" "48 * nat m \<le> KMALLOC_MAX_SIZE"
  shows "crypt_request env files' mid out keyp m (xor_all key data) key"
  using assms by (auto simp: crypt_request_def crypt_inputs_def xor_all_Nil)

lemma round_trip:
  assumes k: "kernel_fs env disk" and req: "crypt_request env (contents disk h) inp mid keyp n data key"
    and out: "mid \<noteq> out" "keyp \<noteq> out"
    and m: "valid_count m" "unat (sizeof_task_params env) * nat m \<le> KMALLOC_MAX_SIZE" "48 * nat m \<le> KMALLOC_MAX_SIZE"
  shows "\<exists>h1 h2. encrypt env inp mid keyp n h = (Done (int (length data)), h1)
    \<and> decrypt env mid out keyp m h1 = (Done (int (length data)), h2) \<and> contents disk h2 out = Some data"
proof -
  obtain h1 where 1: "encrypt env inp mid keyp n h = (Done (int (length data)), h1)"
    "contents disk h1 = (contents disk h)(mid \<mapsto> xor_all key data)"
    using enc.process_writes [OF k req] by blast
  obtain h2 where "decrypt env mid out keyp m h1 = (Done (int (length (xor_all key data))), h2)"
    "contents disk h2 = (contents disk h1)(out \<mapsto> xor_all key (xor_all key data))"
    using dec.process_writes [OF k second_request [OF req 1(2) out m]] by blast
  with 1 show ?thesis by (intro exI [of _ h1] exI [of _ h2]) (simp add: xor_all_involution)
qed

end

interpretation encryption: file_cipher handle_file_encryption
  by unfold_locales (rule kernel_fs.handle_file_encryption_writes)

interpretation decryption: file_cipher decrypt_file_process
  by unfold_locales (simp add: decrypt_file_process_eq kernel_fs.handle_file_encryption_writes)

interpretation crypt: cipher_pair handle_file_encryption decrypt_file_process
  by unfold_locales

text \<open>Encrypting a file with one number of threads and decrypting the result with another,
  under the same key file, gives back the original bytes; the intermediate file may be
  decrypted onto the original.\<close>
theorem decrypt_inverts_encrypt:
  assumes "kernel_fs env disk" and "crypt_request env (contents disk h) inp mid keyp n data key"
    and "mid \<noteq> out" and "keyp \<noteq> out"
    and "valid_count m" and "unat (sizeof_task_params env) * nat m \<le> KMALLOC_MAX_SIZE"
    and "48 * nat m \<le> KMALLOC_MAX_SIZE"
  shows "\<exists>h1 h2. handle_file_encryption env inp mid keyp n h = (Done (int (length data)), h1)
    \<and> decrypt_file_process env mid out keyp m h1 = (Done (int (length data)), h2)
    \<and> contents disk h2 out = Some data"
  by (rule crypt.round_trip [OF assms])

theorem decrypt_inverts_encrypt_witness:
  "\<exists>h1 h2. handle_file_encryption (disk_env sample_disk) ''in'' ''out'' ''key'' 2 [] = (Done 3, h1)
    \<and> decrypt_file_process (disk_env sample_disk) ''out'' ''in'' ''key'' 5 h1 = (Done 3, h2)
    \<and> contents sample_disk h2 ''in'' = Some [5, 7, 9]"
  using decrypt_inverts_encrypt [OF disk_kernel.kernel_fs_axioms sample_request, of "''in''" 5]
  by (simp add: valid_count_def disk_env_def KMALLOC_MAX_SIZE_def)

end
