(* ===== verification/Sys_Prio.thy ===== *)
theory Sys_Prio
  imports Kernel_Prelude
begin

text \<open>
  \<open>setpriority\<close> and \<open>getpriority\<close> of \<open>Practica1/linux-6.6.44/kernel/sys.c\<close>. The tasks are a
  table indexed by thread; the walks over process groups and over all threads, the lookup
  of pids and users, the capability check and the security hook are parameters.
\<close>

subsection \<open>Tasks\<close>

record prio_task =
  pt_uid :: nat
  pt_euid :: nat
  pt_ns :: nat
  pt_nice :: int

type_synonym prio_tasks = "nat \<Rightarrow> prio_task"

text \<open>
  \<open>pe_find_task\<close> is \<open>find_task_by_vpid\<close>, \<open>pe_group w\<close> the threads that
  \<open>do_each_pid_thread\<close> visits in the group \<open>find_vpid(w)\<close>, \<open>pe_own_group\<close> those of
  \<open>task_pgrp(current)\<close>, \<open>pe_threads\<close> those of \<open>for_each_process_thread\<close>.
\<close>

record prio_env =
  pe_current :: nat
  pe_find_task :: "int \<Rightarrow> nat option"
  pe_group :: "int \<Rightarrow> nat list"
  pe_own_group :: "nat list"
  pe_threads :: "nat list"
  pe_vnr :: "nat \<Rightarrow> int"
  pe_make_kuid :: "nat \<Rightarrow> int \<Rightarrow> nat"
  pe_find_user :: "nat \<Rightarrow> bool"
  pe_ns_capable :: "nat \<Rightarrow> bool"
  pe_can_nice :: "prio_task \<Rightarrow> int \<Rightarrow> bool"
  pe_setnice_hook :: "prio_task \<Rightarrow> int \<Rightarrow> int"
  pe_nice_to_rlimit :: "int \<Rightarrow> int"

definition PRIO_PROCESS :: int where "PRIO_PROCESS = 0"
definition PRIO_PGRP :: int where "PRIO_PGRP = 1"
definition PRIO_USER :: int where "PRIO_USER = 2"
definition MIN_NICE :: int where "MIN_NICE = - 20"
definition MAX_NICE :: int where "MAX_NICE = 19"

lemmas prio_constants = PRIO_PROCESS_def PRIO_PGRP_def PRIO_USER_def MIN_NICE_def MAX_NICE_def

subsection \<open>One task\<close>

definition set_one_prio_perm :: "prio_env \<Rightarrow> prio_tasks \<Rightarrow> nat \<Rightarrow> bool" where
  "set_one_prio_perm E ts p =
     (let cred = ts (pe_current E); pcred = ts p in
      if pt_uid pcred = pt_euid cred \<or> pt_euid pcred = pt_euid cred then True
      else if pe_ns_capable E (pt_ns pcred) then True
      else False)"

text \<open>The new value of \<open>error\<close> and the new table.\<close>

definition set_one_prio :: "prio_env \<Rightarrow> nat \<Rightarrow> int \<Rightarrow> int \<times> prio_tasks \<Rightarrow> int \<times> prio_tasks" where
  "set_one_prio E p niceval s =
     (let (error, ts) = s in
      if \<not> set_one_prio_perm E ts p then (- EPERM, ts)
      else if niceval < pt_nice (ts p) \<and> \<not> pe_can_nice E (ts p) niceval then (- EACCES, ts)
      else
        (let no_nice = pe_setnice_hook E (ts p) niceval in
         if no_nice \<noteq> 0 then (no_nice, ts)
         else (if error = - ESRCH then 0 else error, ts(p := (ts p)\<lparr>pt_nice := niceval\<rparr>))))"

definition set_prios :: "prio_env \<Rightarrow> int \<Rightarrow> nat list \<Rightarrow> int \<times> prio_tasks \<Rightarrow> int \<times> prio_tasks" where
  "set_prios E niceval ps s = fold (\<lambda>p. set_one_prio E p niceval) ps s"

subsection \<open>The system calls\<close>

definition clamp_nice :: "int \<Rightarrow> int" where
  "clamp_nice niceval =
     (let n1 = (if niceval < MIN_NICE then MIN_NICE else niceval)
      in if n1 > MAX_NICE then MAX_NICE else n1)"

text \<open>
  The threads \<open>PRIO_USER\<close> selects. \<open>None\<close> is the early exit when the user has no processes.
\<close>

definition user_threads :: "prio_env \<Rightarrow> prio_tasks \<Rightarrow> int \<Rightarrow> nat list option" where
  "user_threads E ts who =
     (let cred = ts (pe_current E);
          uid = (if who = 0 then pt_uid cred else pe_make_kuid E (pt_ns cred) who)
      in if who \<noteq> 0 \<and> uid \<noteq> pt_uid cred \<and> \<not> pe_find_user E uid then None
         else Some (filter (\<lambda>p. pt_uid (ts p) = uid \<and> pe_vnr E p \<noteq> 0) (pe_threads E)))"

definition setpriority :: "prio_env \<Rightarrow> prio_tasks \<Rightarrow> int \<Rightarrow> int \<Rightarrow> int \<Rightarrow> int \<times> prio_tasks" where
  "setpriority E ts which who niceval =
     (if which > PRIO_USER \<or> which < PRIO_PROCESS then (- EINVAL, ts)
      else
        (let niceval = clamp_nice niceval; s = (- ESRCH, ts) in
         if which = PRIO_PROCESS then
           (case (if who \<noteq> 0 then pe_find_task E who else Some (pe_current E)) of
              None \<Rightarrow> s
            | Some p \<Rightarrow> set_one_prio E p niceval s)
         else if which = PRIO_PGRP then
           set_prios E niceval (if who \<noteq> 0 then pe_group E who else pe_own_group E) s
         else
           (case user_threads E ts who of
              None \<Rightarrow> s
            | Some ps \<Rightarrow> set_prios E niceval ps s)))"

definition max_prio :: "prio_env \<Rightarrow> prio_tasks \<Rightarrow> nat list \<Rightarrow> int \<Rightarrow> int" where
  "max_prio E ts ps retval =
     fold (\<lambda>p r. let niceval = pe_nice_to_rlimit E (pt_nice (ts p)) in if niceval > r then niceval else r)
       ps retval"

definition getpriority :: "prio_env \<Rightarrow> prio_tasks \<Rightarrow> int \<Rightarrow> int \<Rightarrow> int" where
  "getpriority E ts which who =
     (if which > PRIO_USER \<or> which < PRIO_PROCESS then - EINVAL
      else
        (let retval = - ESRCH in
         if which = PRIO_PROCESS then
           (case (if who \<noteq> 0 then pe_find_task E who else Some (pe_current E)) of
              None \<Rightarrow> retval
            | Some p \<Rightarrow> max_prio E ts [p] retval)
         else if which = PRIO_PGRP then
           max_prio E ts (if who \<noteq> 0 then pe_group E who else pe_own_group E) retval
         else
           (case user_threads E ts who of
              None \<Rightarrow> retval
            | Some ps \<Rightarrow> max_prio E ts ps retval)))"

subsection \<open>A walk over several tasks\<close>

text \<open>What \<open>set_one_prio\<close> would answer for a task: 0 when it may be set.\<close>

definition prio_error :: "prio_env \<Rightarrow> prio_tasks \<Rightarrow> int \<Rightarrow> nat \<Rightarrow> int" where
  "prio_error E ts niceval p =
     (if \<not> set_one_prio_perm E ts p then - EPERM
      else if niceval < pt_nice (ts p) \<and> \<not> pe_can_nice E (ts p) niceval then - EACCES
      else pe_setnice_hook E (ts p) niceval)"

text \<open>The tasks a call addresses, \<open>None\<close> when \<open>which\<close> is out of range.\<close>

definition addressed :: "prio_env \<Rightarrow> prio_tasks \<Rightarrow> int \<Rightarrow> int \<Rightarrow> nat list" where
  "addressed E ts which who =
     (if which = PRIO_PROCESS then
        (case (if who \<noteq> 0 then pe_find_task E who else Some (pe_current E)) of None \<Rightarrow> [] | Some p \<Rightarrow> [p])
      else if which = PRIO_PGRP then (if who \<noteq> 0 then pe_group E who else pe_own_group E)
      else (case user_threads E ts who of None \<Rightarrow> [] | Some ps \<Rightarrow> ps))"

definition valid_which :: "int \<Rightarrow> bool" where
  "valid_which which \<longleftrightarrow> PRIO_PROCESS \<le> which \<and> which \<le> PRIO_USER"

lemma setpriority_walk:
  "valid_which which \<Longrightarrow> setpriority E ts which who n =
     set_prios E (clamp_nice n) (addressed E ts which who) (- ESRCH, ts)"
  by (auto simp: setpriority_def set_prios_def addressed_def valid_which_def prio_constants Let_def
      split: option.splits)

lemma getpriority_walk:
  "valid_which which \<Longrightarrow> getpriority E ts which who = max_prio E ts (addressed E ts which who) (- ESRCH)"
  by (auto simp: getpriority_def max_prio_def addressed_def valid_which_def prio_constants Let_def
      split: option.splits)

lemma set_one_prio_simp:
  "set_one_prio E p n (error, ts) =
     (if prio_error E ts n p = 0 then (if error = - ESRCH then 0 else error, ts(p := (ts p)\<lparr>pt_nice := n\<rparr>))
      else (prio_error E ts n p, ts))"
  by (simp add: set_one_prio_def prio_error_def Let_def)

lemma perm_update [simp]: "set_one_prio_perm E (ts(q := (ts q)\<lparr>pt_nice := n\<rparr>)) p = set_one_prio_perm E ts p"
  by (simp add: set_one_prio_perm_def Let_def)

lemma prio_error_update: "p \<noteq> q \<Longrightarrow> prio_error E (ts(q := (ts q)\<lparr>pt_nice := n\<rparr>)) n p = prio_error E ts n p"
  by (simp add: prio_error_def)

definition walk_error :: "prio_env \<Rightarrow> prio_tasks \<Rightarrow> int \<Rightarrow> nat list \<Rightarrow> int \<Rightarrow> int" where
  "walk_error E ts n ps error =
     (case filter (\<lambda>e. e \<noteq> 0) (map (prio_error E ts n) ps) of
        [] \<Rightarrow> if ps \<noteq> [] \<and> error = - ESRCH then 0 else error
      | e # es \<Rightarrow> last (e # es))"

definition walk_tasks :: "prio_env \<Rightarrow> prio_tasks \<Rightarrow> int \<Rightarrow> nat list \<Rightarrow> prio_tasks" where
  "walk_tasks E ts n ps p =
     (if p \<in> set ps \<and> prio_error E ts n p = 0 then (ts p)\<lparr>pt_nice := n\<rparr> else ts p)"

text \<open>
  The result of a walk over distinct tasks: the last error met, and 0 only if there was a
  task and none failed; every task that may be set is set, whatever happens to the others.
  The error a hook gives is not \<open>-ESRCH\<close>, which \<open>set_one_prio\<close> uses as a marker.
\<close>

lemma set_prios_spec:
  assumes "distinct ps" and "\<And>q m. pe_setnice_hook E q m \<noteq> - ESRCH"
  shows "set_prios E n ps (error, ts) = (walk_error E ts n ps error, walk_tasks E ts n ps)"
  using assms(1)
proof (induction ps arbitrary: error ts)
  case Nil
  then show ?case by (simp add: set_prios_def walk_error_def walk_tasks_def fun_eq_iff)
next
  case (Cons p ps)
  then have p: "p \<notin> set ps" "distinct ps" by auto
  have nes: "prio_error E ts n q \<noteq> - ESRCH" for q ts using assms(2) by (simp add: prio_error_def)
  show ?case
  proof (cases "prio_error E ts n p = 0")
    case True
    let ?ts = "ts(p := (ts p)\<lparr>pt_nice := n\<rparr>)"
    have eq: "map (prio_error E ?ts n) ps = map (prio_error E ts n) ps"
      using p(1) by (intro map_cong refl prio_error_update) auto
    have "set_prios E n (p # ps) (error, ts) = set_prios E n ps (if error = - ESRCH then 0 else error, ?ts)"
      using True by (simp add: set_prios_def set_one_prio_simp)
    moreover have "walk_error E ?ts n ps (if error = - ESRCH then 0 else error) = walk_error E ts n (p # ps) error"
      using True unfolding walk_error_def eq by (auto split: list.split)
    moreover have "walk_tasks E ?ts n ps = walk_tasks E ts n (p # ps)"
      using True p(1) by (auto simp: walk_tasks_def prio_error_update fun_eq_iff)
    ultimately show ?thesis by (simp only: Cons.IH [OF p(2)])
  next
    case False
    have "set_prios E n (p # ps) (error, ts) = set_prios E n ps (prio_error E ts n p, ts)"
      using False by (simp add: set_prios_def set_one_prio_simp)
    moreover have "walk_error E ts n ps (prio_error E ts n p) = walk_error E ts n (p # ps) error"
      using False nes by (auto simp: walk_error_def split: list.split)
    moreover have "walk_tasks E ts n ps = walk_tasks E ts n (p # ps)"
      using False by (auto simp: walk_tasks_def fun_eq_iff)
    ultimately show ?thesis using Cons.IH [OF p(2)] by simp
  qed
qed

lemma max_prio_ge: "r \<le> max_prio E ts ps r"
  by (induction ps arbitrary: r) (auto simp: max_prio_def Let_def intro: order_trans less_imp_le)

lemma max_prio_spec: "max_prio E ts ps r = Max (insert r ((\<lambda>p. pe_nice_to_rlimit E (pt_nice (ts p))) ` set ps))"
proof (induction ps arbitrary: r)
  case (Cons p ps)
  let ?v = "pe_nice_to_rlimit E (pt_nice (ts p))" and ?S = "(\<lambda>p. pe_nice_to_rlimit E (pt_nice (ts p))) ` set ps"
  have "max_prio E ts (p # ps) r = max_prio E ts ps (max r ?v)"
    by (simp add: max_prio_def Let_def max_def)
  also have "\<dots> = Max (insert (max r ?v) ?S)" by (rule Cons.IH)
  also have "\<dots> = Max (insert r (insert ?v ?S))"
    by (cases "?S = {}") (simp_all add: Max_insert max.assoc)
  finally show ?case by simp
qed (simp add: max_prio_def)

lemma clamp_nice_range: "MIN_NICE \<le> clamp_nice n \<and> clamp_nice n \<le> MAX_NICE"
  by (simp add: clamp_nice_def prio_constants)

subsection \<open>Properties\<close>

text \<open>C29: \<open>setpriority\<close> on several tasks: each addressed task that may be set gets the value,
  brought into the range from -20 to 19, whatever happens to the others; no other task changes; the
  result is 0 exactly if a task was addressed and none failed, and otherwise the error of
  the last task that failed, or \<open>-ESRCH\<close> when there was none.\<close>
theorem setpriority_sets_permitted:
  assumes "valid_which which" and "distinct (addressed E ts which who)"
    and "\<And>q m. pe_setnice_hook E q m \<noteq> - ESRCH"
  shows "setpriority E ts which who n =
      (walk_error E ts (clamp_nice n) (addressed E ts which who) (- ESRCH),
       walk_tasks E ts (clamp_nice n) (addressed E ts which who))
    \<and> (fst (setpriority E ts which who n) = 0 \<longleftrightarrow>
        addressed E ts which who \<noteq> [] \<and>
        list_all (\<lambda>p. prio_error E ts (clamp_nice n) p = 0) (addressed E ts which who))
    \<and> MIN_NICE \<le> clamp_nice n \<and> clamp_nice n \<le> MAX_NICE"
proof -
  let ?ps = "addressed E ts which who" and ?n = "clamp_nice n"
  have s: "setpriority E ts which who n = (walk_error E ts ?n ?ps (- ESRCH), walk_tasks E ts ?n ?ps)"
    using setpriority_walk [OF assms(1)] set_prios_spec [OF assms(2,3)] by simp
  have "walk_error E ts ?n ?ps (- ESRCH) = 0 \<longleftrightarrow> ?ps \<noteq> [] \<and> list_all (\<lambda>p. prio_error E ts ?n p = 0) ?ps"
  proof (cases "filter (\<lambda>e. e \<noteq> 0) (map (prio_error E ts ?n) ?ps)")
    case Nil
    then show ?thesis by (auto simp: walk_error_def filter_empty_conv list_all_iff)
  next
    case (Cons e es)
    then have "last (e # es) \<in> set (filter (\<lambda>e. e \<noteq> 0) (map (prio_error E ts ?n) ?ps))"
      by (simp only: last_in_set list.distinct(2) not_False_eq_True)
    then have "last (e # es) \<noteq> 0" "\<not> list_all (\<lambda>p. prio_error E ts ?n p = 0) ?ps"
      by (auto simp: list_all_iff)
    then show ?thesis using Cons by (simp add: walk_error_def del: last.simps)
  qed
  with s show ?thesis using clamp_nice_range by simp
qed

definition sample_prio_env :: prio_env where
  "sample_prio_env =
     \<lparr>pe_current = 0, pe_find_task = (\<lambda>w. if w = 7 then Some 1 else None),
      pe_group = (\<lambda>w. if w = 5 then [0, 1] else []), pe_own_group = [0], pe_threads = [0, 1],
      pe_vnr = (\<lambda>p. int p + 6), pe_make_kuid = (\<lambda>ns u. nat u), pe_find_user = (\<lambda>u. u = 8),
      pe_ns_capable = (\<lambda>ns. False), pe_can_nice = (\<lambda>t n. False), pe_setnice_hook = (\<lambda>t n. 0),
      pe_nice_to_rlimit = (\<lambda>n. 20 - n)\<rparr>"

definition sample_prio_tasks :: prio_tasks where
  "sample_prio_tasks =
     (\<lambda>p. \<lparr>pt_uid = (if p = 0 then 9 else 8), pt_euid = (if p = 0 then 9 else 8), pt_ns = 0, pt_nice = 0\<rparr>)"

text \<open>A group of two: the first task is the caller's and is set to 19, the second is not.\<close>

theorem setpriority_sets_permitted_witness:
  "fst (setpriority sample_prio_env sample_prio_tasks PRIO_PGRP 5 40) = - EPERM
   \<and> pt_nice (snd (setpriority sample_prio_env sample_prio_tasks PRIO_PGRP 5 40) 0) = 19
   \<and> pt_nice (snd (setpriority sample_prio_env sample_prio_tasks PRIO_PGRP 5 40) 1) = 0"
proof -
  have a: "addressed sample_prio_env sample_prio_tasks PRIO_PGRP 5 = [0, 1]"
    by (simp add: addressed_def prio_constants sample_prio_env_def)
  have "clamp_nice 40 = 19" by (simp add: clamp_nice_def prio_constants)
  moreover have "prio_error sample_prio_env sample_prio_tasks 19 0 = 0"
    "prio_error sample_prio_env sample_prio_tasks 19 1 = - EPERM"
    by (simp_all add: prio_error_def set_one_prio_perm_def sample_prio_env_def sample_prio_tasks_def)
  moreover have "setpriority sample_prio_env sample_prio_tasks PRIO_PGRP 5 40 =
      (walk_error sample_prio_env sample_prio_tasks (clamp_nice 40) [0, 1] (- ESRCH),
       walk_tasks sample_prio_env sample_prio_tasks (clamp_nice 40) [0, 1])"
  proof -
    have "valid_which PRIO_PGRP" by (simp add: valid_which_def prio_constants)
    moreover have "distinct (addressed sample_prio_env sample_prio_tasks PRIO_PGRP 5)" unfolding a by simp
    moreover have "pe_setnice_hook sample_prio_env q m \<noteq> - ESRCH" for q m by (simp add: sample_prio_env_def)
    ultimately show ?thesis using setpriority_sets_permitted [of PRIO_PGRP sample_prio_env sample_prio_tasks 5 40]
      unfolding a by blast
  qed
  ultimately show ?thesis
    by (simp add: walk_error_def walk_tasks_def) (simp add: sample_prio_tasks_def)
qed

text \<open>After a \<open>setpriority\<close> that succeeded, \<open>getpriority\<close> on the same tasks returns the
  value set, as \<open>nice_to_rlimit\<close> gives it; in general it returns the largest of the values
  of the addressed tasks, and \<open>-ESRCH\<close> if there are none.\<close>
theorem getpriority_after_setpriority:
  assumes "valid_which which" and "distinct (addressed E ts which who)"
    and "\<And>q m. pe_setnice_hook E q m \<noteq> - ESRCH"
    and "\<And>m. MIN_NICE \<le> m \<Longrightarrow> m \<le> MAX_NICE \<Longrightarrow> pe_nice_to_rlimit E m = 20 - m"
    and "setpriority E ts which who n = (0, ts')"
  shows "getpriority E ts' which who = 20 - clamp_nice n"
proof -
  let ?ps = "addressed E ts which who" and ?n = "clamp_nice n"
  have s: "walk_error E ts ?n ?ps (- ESRCH) = 0" "ts' = walk_tasks E ts ?n ?ps"
    using assms(5) setpriority_walk [OF assms(1)] set_prios_spec [OF assms(2,3)] by auto
  have ne: "?ps \<noteq> []" using s(1) by (auto simp: walk_error_def)
  have "filter (\<lambda>e. e \<noteq> 0) (map (prio_error E ts ?n) ?ps) = []"
  proof (rule ccontr)
    assume f: "filter (\<lambda>e. e \<noteq> 0) (map (prio_error E ts ?n) ?ps) \<noteq> []"
    then have "last (filter (\<lambda>e. e \<noteq> 0) (map (prio_error E ts ?n) ?ps)) = 0"
      using s(1) by (auto simp: walk_error_def neq_Nil_conv)
    then show False using last_in_set [OF f] by auto
  qed
  then have all: "p \<in> set ?ps \<Longrightarrow> prio_error E ts ?n p = 0" for p by (auto simp: filter_empty_conv)
  have uid: "pt_uid (ts' p) = pt_uid (ts p)" "pt_ns (ts' p) = pt_ns (ts p)" for p by (simp_all add: s walk_tasks_def)
  then have "addressed E ts' which who = ?ps" by (simp add: addressed_def user_threads_def Let_def)
  then have "getpriority E ts' which who = max_prio E ts' ?ps (- ESRCH)"
    using getpriority_walk [OF assms(1)] by simp
  also have "\<dots> = Max (insert (- ESRCH) ((\<lambda>p. pe_nice_to_rlimit E (pt_nice (ts' p))) ` set ?ps))"
    by (rule max_prio_spec)
  also have "(\<lambda>p. pe_nice_to_rlimit E (pt_nice (ts' p))) ` set ?ps = (\<lambda>p. 20 - ?n) ` set ?ps"
    using all assms(4) clamp_nice_range by (intro image_cong refl) (simp add: s walk_tasks_def)
  also have "\<dots> = {20 - ?n}" using ne by (simp add: image_constant_conv)
  finally show ?thesis using clamp_nice_range [of n] by (simp add: prio_constants max_def)
qed

theorem getpriority_after_setpriority_witness:
  "setpriority sample_prio_env sample_prio_tasks PRIO_PROCESS 0 12
     = (0, sample_prio_tasks(0 := (sample_prio_tasks 0)\<lparr>pt_nice := 12\<rparr>))
   \<and> getpriority sample_prio_env (sample_prio_tasks(0 := (sample_prio_tasks 0)\<lparr>pt_nice := 12\<rparr>)) PRIO_PROCESS 0 = 8"
proof -
  have r: "setpriority sample_prio_env sample_prio_tasks PRIO_PROCESS 0 12
     = (0, sample_prio_tasks(0 := (sample_prio_tasks 0)\<lparr>pt_nice := 12\<rparr>))"
    by (simp add: setpriority_def prio_constants clamp_nice_def set_one_prio_def set_one_prio_perm_def
        sample_prio_env_def sample_prio_tasks_def Let_def)
  have "distinct (addressed sample_prio_env sample_prio_tasks PRIO_PROCESS 0)"
    by (simp add: addressed_def prio_constants)
  then show ?thesis
    using getpriority_after_setpriority [OF _ _ _ _ r] r
    by (simp add: valid_which_def prio_constants sample_prio_env_def clamp_nice_def)
qed

end
