(* ===== verification/Sys_Creds.thy ===== *)
theory Sys_Creds
  imports Kernel_Prelude
begin

text \<open>
  The credential calls of \<open>Practica1/linux-6.6.44/kernel/sys.c\<close>: \<open>set_user\<close>,
  \<open>flag_nproc_exceeded\<close>, \<open>setreuid\<close>, \<open>setuid\<close>, \<open>setresuid\<close>, \<open>setfsuid\<close>, their group
  counterparts, and the calls that read the ids. A failing call leaves the credentials as
  they were (\<open>abort_creds\<close>); \<open>commit_creds\<close> installs the new ones and returns 0. The
  translation of ids, the capability check, the security hooks and the allocators are
  parameters.
\<close>

subsection \<open>Credentials\<close>

type_synonym kid = u32

datatype capability = CAP_SETGID | CAP_SETUID
datatype setid_kind = LSM_SETID_ID | LSM_SETID_RE | LSM_SETID_RES | LSM_SETID_FS

record cred =
  c_uid :: kid
  c_euid :: kid
  c_suid :: kid
  c_fsuid :: kid
  c_gid :: kid
  c_egid :: kid
  c_sgid :: kid
  c_fsgid :: kid
  c_user_ns :: nat
  c_user :: nat
  c_ucounts :: nat
  c_caps :: "capability list"

text \<open>
  The credentials of the current task and its flag \<open>PF_NPROC_EXCEEDED\<close>.
\<close>

record cred_state =
  cs_cred :: cred
  cs_nproc_exceeded :: bool

text \<open>
  \<open>ce_fix_setuid k new old\<close> is \<open>security_task_fix_setuid\<close>: its result and the credentials
  \<open>new\<close> as it leaves them. \<open>ce_put_user a\<close> is the result of \<open>put_user\<close> at address \<open>a\<close>.
\<close>

record cred_env =
  ce_make_kuid :: "nat \<Rightarrow> u32 \<Rightarrow> kid"
  ce_make_kgid :: "nat \<Rightarrow> u32 \<Rightarrow> kid"
  ce_from_kuid :: "nat \<Rightarrow> kid \<Rightarrow> u32"
  ce_from_kgid :: "nat \<Rightarrow> kid \<Rightarrow> u32"
  ce_prepare :: bool
  ce_capable :: "cred \<Rightarrow> nat \<Rightarrow> capability \<Rightarrow> bool"
  ce_fix_setuid :: "setid_kind \<Rightarrow> cred \<Rightarrow> cred \<Rightarrow> int \<times> cred"
  ce_fix_setgid :: "setid_kind \<Rightarrow> cred \<Rightarrow> cred \<Rightarrow> int \<times> cred"
  ce_alloc_uid :: "kid \<Rightarrow> nat option"
  ce_set_ucounts :: "cred \<Rightarrow> int \<times> cred"
  ce_overlimit :: "nat \<Rightarrow> bool"
  ce_init_user :: nat
  ce_put_user :: "u64 \<Rightarrow> int"

text \<open>The argument \<open>(uid_t) -1\<close>, which leaves an id unchanged, and the invalid kernel id.\<close>

definition no_id :: u32 where "no_id = - 1"
definition id_valid :: "kid \<Rightarrow> bool" where "id_valid k \<longleftrightarrow> k \<noteq> - 1"

type_synonym cred_call = "cred_state \<Rightarrow> int \<times> cred_state"

definition capable_setid :: "cred_env \<Rightarrow> cred \<Rightarrow> capability \<Rightarrow> bool" where
  "capable_setid E old c = ce_capable E old (c_user_ns old) c"

subsection \<open>Group ids\<close>

text \<open>The common end of the group calls: the security hook, then \<open>commit_creds\<close>.\<close>

definition finish_setgid :: "cred_env \<Rightarrow> setid_kind \<Rightarrow> cred \<Rightarrow> cred_call" where
  "finish_setgid E k new s =
     (let (retval, new') = ce_fix_setgid E k new (cs_cred s) in
      if retval < 0 then (retval, s) else (0, s\<lparr>cs_cred := new'\<rparr>))"

definition setregid :: "cred_env \<Rightarrow> u32 \<Rightarrow> u32 \<Rightarrow> cred_call" where
  "setregid E rgid egid s =
     (let old = cs_cred s; ns = c_user_ns old;
          krgid = ce_make_kgid E ns rgid; kegid = ce_make_kgid E ns egid
      in if rgid \<noteq> no_id \<and> \<not> id_valid krgid then (- EINVAL, s)
         else if egid \<noteq> no_id \<and> \<not> id_valid kegid then (- EINVAL, s)
         else if \<not> ce_prepare E then (- ENOMEM, s)
         else if rgid \<noteq> no_id \<and>
             \<not> (c_gid old = krgid \<or> c_egid old = krgid \<or> capable_setid E old CAP_SETGID) then (- EPERM, s)
         else
           (let new = (if rgid \<noteq> no_id then old\<lparr>c_gid := krgid\<rparr> else old) in
            if egid \<noteq> no_id \<and>
                \<not> (c_gid old = kegid \<or> c_egid old = kegid \<or> c_sgid old = kegid \<or>
                   capable_setid E old CAP_SETGID) then (- EPERM, s)
            else
              (let new = (if egid \<noteq> no_id then new\<lparr>c_egid := kegid\<rparr> else new);
                   new = (if rgid \<noteq> no_id \<or> (egid \<noteq> no_id \<and> kegid \<noteq> c_gid old)
                          then new\<lparr>c_sgid := c_egid new\<rparr> else new);
                   new = new\<lparr>c_fsgid := c_egid new\<rparr>
               in finish_setgid E LSM_SETID_RE new s)))"

definition setgid :: "cred_env \<Rightarrow> u32 \<Rightarrow> cred_call" where
  "setgid E gid s =
     (let old = cs_cred s; kgid = ce_make_kgid E (c_user_ns old) gid in
      if \<not> id_valid kgid then (- EINVAL, s)
      else if \<not> ce_prepare E then (- ENOMEM, s)
      else if capable_setid E old CAP_SETGID then
        finish_setgid E LSM_SETID_ID
          (old\<lparr>c_gid := kgid, c_egid := kgid, c_sgid := kgid, c_fsgid := kgid\<rparr>) s
      else if kgid = c_gid old \<or> kgid = c_sgid old then
        finish_setgid E LSM_SETID_ID (old\<lparr>c_egid := kgid, c_fsgid := kgid\<rparr>) s
      else (- EPERM, s))"

definition setresgid :: "cred_env \<Rightarrow> u32 \<Rightarrow> u32 \<Rightarrow> u32 \<Rightarrow> cred_call" where
  "setresgid E rgid egid sgid s =
     (let old = cs_cred s; ns = c_user_ns old;
          krgid = ce_make_kgid E ns rgid; kegid = ce_make_kgid E ns egid; ksgid = ce_make_kgid E ns sgid
      in if rgid \<noteq> no_id \<and> \<not> id_valid krgid then (- EINVAL, s)
         else if egid \<noteq> no_id \<and> \<not> id_valid kegid then (- EINVAL, s)
         else if sgid \<noteq> no_id \<and> \<not> id_valid ksgid then (- EINVAL, s)
         else if (rgid = no_id \<or> krgid = c_gid old) \<and>
             (egid = no_id \<or> (kegid = c_egid old \<and> kegid = c_fsgid old)) \<and>
             (sgid = no_id \<or> ksgid = c_sgid old) then (0, s)
         else
           (let is_new = (\<lambda>i k. i \<noteq> no_id \<and> k \<noteq> c_gid old \<and> k \<noteq> c_egid old \<and> k \<noteq> c_sgid old) in
            if (is_new rgid krgid \<or> is_new egid kegid \<or> is_new sgid ksgid) \<and>
                \<not> capable_setid E old CAP_SETGID then (- EPERM, s)
            else if \<not> ce_prepare E then (- ENOMEM, s)
            else
              (let new = (if rgid \<noteq> no_id then old\<lparr>c_gid := krgid\<rparr> else old);
                   new = (if egid \<noteq> no_id then new\<lparr>c_egid := kegid\<rparr> else new);
                   new = (if sgid \<noteq> no_id then new\<lparr>c_sgid := ksgid\<rparr> else new);
                   new = new\<lparr>c_fsgid := c_egid new\<rparr>
               in finish_setgid E LSM_SETID_RES new s)))"

text \<open>The file system id: the old one is returned whatever happens.\<close>

definition setfsgid :: "cred_env \<Rightarrow> u32 \<Rightarrow> cred_call" where
  "setfsgid E gid s =
     (let old = cs_cred s;
          old_fsgid = uint (ce_from_kgid E (c_user_ns old) (c_fsgid old));
          kgid = ce_make_kgid E (c_user_ns old) gid
      in if \<not> id_valid kgid then (old_fsgid, s)
         else if \<not> ce_prepare E then (old_fsgid, s)
         else if (kgid = c_gid old \<or> kgid = c_egid old \<or> kgid = c_sgid old \<or> kgid = c_fsgid old \<or>
                  capable_setid E old CAP_SETGID) \<and> kgid \<noteq> c_fsgid old then
           (let (r, new') = ce_fix_setgid E LSM_SETID_FS (old\<lparr>c_fsgid := kgid\<rparr>) old in
            if r = 0 then (old_fsgid, s\<lparr>cs_cred := new'\<rparr>) else (old_fsgid, s))
         else (old_fsgid, s))"

subsection \<open>User ids\<close>

definition set_user :: "cred_env \<Rightarrow> cred \<Rightarrow> int \<times> cred" where
  "set_user E new =
     (case ce_alloc_uid E (c_uid new) of
        None \<Rightarrow> (- EAGAIN, new)
      | Some new_user \<Rightarrow> (0, new\<lparr>c_user := new_user\<rparr>))"

definition flag_nproc_exceeded :: "cred_env \<Rightarrow> cred \<Rightarrow> cred_state \<Rightarrow> cred_state" where
  "flag_nproc_exceeded E new s =
     (if c_ucounts new = c_ucounts (cs_cred s) then s
      else if ce_overlimit E (c_ucounts new) \<and> c_user new \<noteq> ce_init_user E
           then s\<lparr>cs_nproc_exceeded := True\<rparr>
      else s\<lparr>cs_nproc_exceeded := False\<rparr>)"

text \<open>The common end of the user calls: hook, accounting, the flag, then \<open>commit_creds\<close>.\<close>

definition finish_setuid :: "cred_env \<Rightarrow> setid_kind \<Rightarrow> cred \<Rightarrow> cred_call" where
  "finish_setuid E k new s =
     (let (retval, new') = ce_fix_setuid E k new (cs_cred s) in
      if retval < 0 then (retval, s)
      else
        (let (retval, new'') = ce_set_ucounts E new' in
         if retval < 0 then (retval, s)
         else (0, (flag_nproc_exceeded E new'' s)\<lparr>cs_cred := new''\<rparr>)))"

definition setreuid :: "cred_env \<Rightarrow> u32 \<Rightarrow> u32 \<Rightarrow> cred_call" where
  "setreuid E ruid euid s =
     (let old = cs_cred s; ns = c_user_ns old;
          kruid = ce_make_kuid E ns ruid; keuid = ce_make_kuid E ns euid
      in if ruid \<noteq> no_id \<and> \<not> id_valid kruid then (- EINVAL, s)
         else if euid \<noteq> no_id \<and> \<not> id_valid keuid then (- EINVAL, s)
         else if \<not> ce_prepare E then (- ENOMEM, s)
         else
           (let new = (if ruid \<noteq> no_id then old\<lparr>c_uid := kruid\<rparr> else old) in
            if ruid \<noteq> no_id \<and> c_uid old \<noteq> kruid \<and> c_euid old \<noteq> kruid \<and>
                \<not> capable_setid E old CAP_SETUID then (- EPERM, s)
            else
              (let new = (if euid \<noteq> no_id then new\<lparr>c_euid := keuid\<rparr> else new) in
               if euid \<noteq> no_id \<and> c_uid old \<noteq> keuid \<and> c_euid old \<noteq> keuid \<and> c_suid old \<noteq> keuid \<and>
                   \<not> capable_setid E old CAP_SETUID then (- EPERM, s)
               else
                 (let (retval, new) = (if c_uid new \<noteq> c_uid old then set_user E new else (0, new)) in
                  if retval < 0 then (retval, s)
                  else
                    (let new = (if ruid \<noteq> no_id \<or> (euid \<noteq> no_id \<and> keuid \<noteq> c_uid old)
                                then new\<lparr>c_suid := c_euid new\<rparr> else new);
                         new = new\<lparr>c_fsuid := c_euid new\<rparr>
                     in finish_setuid E LSM_SETID_RE new s)))))"

definition setuid :: "cred_env \<Rightarrow> u32 \<Rightarrow> cred_call" where
  "setuid E uid s =
     (let old = cs_cred s; kuid = ce_make_kuid E (c_user_ns old) uid in
      if \<not> id_valid kuid then (- EINVAL, s)
      else if \<not> ce_prepare E then (- ENOMEM, s)
      else if capable_setid E old CAP_SETUID then
        (let new = old\<lparr>c_suid := kuid, c_uid := kuid\<rparr>;
             (retval, new) = (if kuid \<noteq> c_uid old then set_user E new else (0, new))
         in if retval < 0 then (retval, s)
            else finish_setuid E LSM_SETID_ID (new\<lparr>c_fsuid := kuid, c_euid := kuid\<rparr>) s)
      else if kuid \<noteq> c_uid old \<and> kuid \<noteq> c_suid old then (- EPERM, s)
      else finish_setuid E LSM_SETID_ID (old\<lparr>c_fsuid := kuid, c_euid := kuid\<rparr>) s)"

definition setresuid :: "cred_env \<Rightarrow> u32 \<Rightarrow> u32 \<Rightarrow> u32 \<Rightarrow> cred_call" where
  "setresuid E ruid euid suid s =
     (let old = cs_cred s; ns = c_user_ns old;
          kruid = ce_make_kuid E ns ruid; keuid = ce_make_kuid E ns euid; ksuid = ce_make_kuid E ns suid
      in if ruid \<noteq> no_id \<and> \<not> id_valid kruid then (- EINVAL, s)
         else if euid \<noteq> no_id \<and> \<not> id_valid keuid then (- EINVAL, s)
         else if suid \<noteq> no_id \<and> \<not> id_valid ksuid then (- EINVAL, s)
         else if (ruid = no_id \<or> kruid = c_uid old) \<and>
             (euid = no_id \<or> (keuid = c_euid old \<and> keuid = c_fsuid old)) \<and>
             (suid = no_id \<or> ksuid = c_suid old) then (0, s)
         else
           (let is_new = (\<lambda>i k. i \<noteq> no_id \<and> k \<noteq> c_uid old \<and> k \<noteq> c_euid old \<and> k \<noteq> c_suid old) in
            if (is_new ruid kruid \<or> is_new euid keuid \<or> is_new suid ksuid) \<and>
                \<not> capable_setid E old CAP_SETUID then (- EPERM, s)
            else if \<not> ce_prepare E then (- ENOMEM, s)
            else
              (let new = (if ruid \<noteq> no_id then old\<lparr>c_uid := kruid\<rparr> else old);
                   (retval, new) = (if ruid \<noteq> no_id \<and> kruid \<noteq> c_uid old then set_user E new else (0, new))
               in if retval < 0 then (retval, s)
                  else
                    (let new = (if euid \<noteq> no_id then new\<lparr>c_euid := keuid\<rparr> else new);
                         new = (if suid \<noteq> no_id then new\<lparr>c_suid := ksuid\<rparr> else new);
                         new = new\<lparr>c_fsuid := c_euid new\<rparr>
                     in finish_setuid E LSM_SETID_RES new s))))"

definition setfsuid :: "cred_env \<Rightarrow> u32 \<Rightarrow> cred_call" where
  "setfsuid E uid s =
     (let old = cs_cred s;
          old_fsuid = uint (ce_from_kuid E (c_user_ns old) (c_fsuid old));
          kuid = ce_make_kuid E (c_user_ns old) uid
      in if \<not> id_valid kuid then (old_fsuid, s)
         else if \<not> ce_prepare E then (old_fsuid, s)
         else if (kuid = c_uid old \<or> kuid = c_euid old \<or> kuid = c_suid old \<or> kuid = c_fsuid old \<or>
                  capable_setid E old CAP_SETUID) \<and> kuid \<noteq> c_fsuid old then
           (let (r, new') = ce_fix_setuid E LSM_SETID_FS (old\<lparr>c_fsuid := kuid\<rparr>) old in
            if r = 0 then (old_fsuid, s\<lparr>cs_cred := new'\<rparr>) else (old_fsuid, s))
         else (old_fsuid, s))"

subsection \<open>Reading the ids\<close>

text \<open>Three \<open>put_user\<close> calls, each only if the one before succeeded; the writes that were done.\<close>

definition put_three :: "cred_env \<Rightarrow> (u64 \<times> u32) \<Rightarrow> (u64 \<times> u32) \<Rightarrow> (u64 \<times> u32) \<Rightarrow> int \<times> (u64 \<times> u32) list" where
  "put_three E a b c =
     (let r1 = ce_put_user E (fst a) in
      if r1 \<noteq> 0 then (r1, [])
      else
        (let r2 = ce_put_user E (fst b) in
         if r2 \<noteq> 0 then (r2, [a])
         else
           (let r3 = ce_put_user E (fst c) in
            if r3 \<noteq> 0 then (r3, [a, b]) else (0, [a, b, c]))))"

definition getresuid :: "cred_env \<Rightarrow> u64 \<Rightarrow> u64 \<Rightarrow> u64 \<Rightarrow> cred_state \<Rightarrow> int \<times> (u64 \<times> u32) list" where
  "getresuid E ruidp euidp suidp s =
     (let cred = cs_cred s; conv = ce_from_kuid E (c_user_ns cred) in
      put_three E (ruidp, conv (c_uid cred)) (euidp, conv (c_euid cred)) (suidp, conv (c_suid cred)))"

definition getresgid :: "cred_env \<Rightarrow> u64 \<Rightarrow> u64 \<Rightarrow> u64 \<Rightarrow> cred_state \<Rightarrow> int \<times> (u64 \<times> u32) list" where
  "getresgid E rgidp egidp sgidp s =
     (let cred = cs_cred s; conv = ce_from_kgid E (c_user_ns cred) in
      put_three E (rgidp, conv (c_gid cred)) (egidp, conv (c_egid cred)) (sgidp, conv (c_sgid cred)))"

definition getuid :: "cred_env \<Rightarrow> cred_state \<Rightarrow> int" where
  "getuid E s = uint (ce_from_kuid E (c_user_ns (cs_cred s)) (c_uid (cs_cred s)))"

definition geteuid :: "cred_env \<Rightarrow> cred_state \<Rightarrow> int" where
  "geteuid E s = uint (ce_from_kuid E (c_user_ns (cs_cred s)) (c_euid (cs_cred s)))"

definition getgid :: "cred_env \<Rightarrow> cred_state \<Rightarrow> int" where
  "getgid E s = uint (ce_from_kgid E (c_user_ns (cs_cred s)) (c_gid (cs_cred s)))"

definition getegid :: "cred_env \<Rightarrow> cred_state \<Rightarrow> int" where
  "getegid E s = uint (ce_from_kgid E (c_user_ns (cs_cred s)) (c_egid (cs_cred s)))"

end
