(* ===== verification/Cred_Safety.thy ===== *)
theory Cred_Safety
  imports Sys_Creds
begin

text \<open>
  What the credential calls promise, over any sequence of them: a task without the
  capability never gets an id it did not have, a privileged \<open>setuid\<close> to an ordinary user
  is final, and the ids set with \<open>setresuid\<close> and \<open>setresgid\<close> are the ones read back.
\<close>

subsection \<open>The laws of the security hooks\<close>

definition uid_set :: "cred \<Rightarrow> kid set" where
  "uid_set c = {c_uid c, c_euid c, c_suid c, c_fsuid c}"

definition gid_set :: "cred \<Rightarrow> kid set" where
  "gid_set c = {c_gid c, c_egid c, c_sgid c, c_fsgid c}"

definition same_uids :: "cred \<Rightarrow> cred \<Rightarrow> bool" where
  "same_uids a b \<longleftrightarrow> c_uid a = c_uid b \<and> c_euid a = c_euid b \<and> c_suid a = c_suid b \<and> c_fsuid a = c_fsuid b"

definition same_gids :: "cred \<Rightarrow> cred \<Rightarrow> bool" where
  "same_gids a b \<longleftrightarrow> c_gid a = c_gid b \<and> c_egid a = c_egid b \<and> c_sgid a = c_sgid b \<and> c_fsgid a = c_fsgid b"

definition same_ids :: "cred \<Rightarrow> cred \<Rightarrow> bool" where
  "same_ids a b \<longleftrightarrow> same_uids a b \<and> same_gids a b \<and> c_user_ns a = c_user_ns b"

definition may_setid :: "cred_env \<Rightarrow> cred \<Rightarrow> bool" where
  "may_setid E c \<longleftrightarrow> capable_setid E c CAP_SETUID \<or> capable_setid E c CAP_SETGID"

text \<open>
  The documented behaviour of \<open>capabilities(7)\<close>: the hooks keep the ids they are given; a
  change of user ids gives a capability only when the effective id becomes root, and takes
  all of them away when no real, effective or saved id is root any more; a change of group
  ids and the accounting give none.
\<close>

definition cred_laws :: "cred_env \<Rightarrow> kid \<Rightarrow> bool" where
  "cred_laws E root \<longleftrightarrow>
     (\<forall>k new old. same_ids (snd (ce_fix_setuid E k new old)) new)
   \<and> (\<forall>k new old. same_ids (snd (ce_fix_setgid E k new old)) new)
   \<and> (\<forall>new. same_ids (snd (ce_set_ucounts E new)) new)
   \<and> (\<forall>k new old. may_setid E (snd (ce_fix_setuid E k new old)) \<longrightarrow> may_setid E old \<or> c_euid new = root)
   \<and> (\<forall>k new old. may_setid E (snd (ce_fix_setuid E k new old)) \<longrightarrow>
        root \<in> {c_uid new, c_euid new, c_suid new} \<or> root \<notin> {c_uid old, c_euid old, c_suid old})
   \<and> (\<forall>k new old. may_setid E (snd (ce_fix_setgid E k new old)) \<longrightarrow> may_setid E old)
   \<and> (\<forall>new. may_setid E (snd (ce_set_ucounts E new)) \<longrightarrow> may_setid E new)"

lemma same_uids_set: "same_uids a b \<Longrightarrow> uid_set a = uid_set b"
  by (simp add: same_uids_def uid_set_def)

lemma same_gids_set: "same_gids a b \<Longrightarrow> gid_set a = gid_set b"
  by (simp add: same_gids_def gid_set_def)

lemma same_uids_trans: "same_uids a b \<Longrightarrow> same_uids b c \<Longrightarrow> same_uids a c"
  by (simp add: same_uids_def)

lemma same_gids_trans: "same_gids a b \<Longrightarrow> same_gids b c \<Longrightarrow> same_gids a c"
  by (simp add: same_gids_def)

subsection \<open>One call\<close>

text \<open>What a call of either family leaves: the old state, or the credentials it prepared.\<close>

definition left_by :: "cred_env \<Rightarrow> kid \<Rightarrow> cred \<Rightarrow> cred_state \<Rightarrow> cred_state \<Rightarrow> bool" where
  "left_by E root new s t \<longleftrightarrow>
     same_ids (cs_cred t) new \<and>
     (may_setid E (cs_cred t) \<longrightarrow> may_setid E (cs_cred s) \<or> c_euid new = root) \<and>
     (may_setid E (cs_cred t) \<longrightarrow>
        root \<in> uid_set new \<or> root \<notin> {c_uid (cs_cred s), c_euid (cs_cred s), c_suid (cs_cred s)})"

lemma finish_setgid_left:
  assumes "cred_laws E root" and "same_uids new (cs_cred s)"
  shows "snd (finish_setgid E k new s) = s \<or> left_by E root new s (snd (finish_setgid E k new s))"
proof (cases "ce_fix_setgid E k new (cs_cred s)")
  case (Pair r c)
  have 1: "same_ids c new" "may_setid E c \<longrightarrow> may_setid E (cs_cred s)"
    using assms(1) Pair unfolding cred_laws_def by (metis snd_conv)+
  show ?thesis
  proof (cases "root \<in> {c_uid (cs_cred s), c_euid (cs_cred s), c_suid (cs_cred s)}")
    case True
    then have "root \<in> uid_set new" using assms(2) by (auto simp: same_uids_def uid_set_def)
    then show ?thesis using 1 Pair by (simp add: finish_setgid_def left_by_def)
  qed (use 1 Pair in \<open>simp add: finish_setgid_def left_by_def\<close>)
qed

lemma finish_setuid_left:
  assumes "cred_laws E root"
  shows "snd (finish_setuid E k new s) = s \<or> left_by E root new s (snd (finish_setuid E k new s))"
proof (cases "ce_fix_setuid E k new (cs_cred s)")
  case (Pair r c)
  have 1: "same_ids c new" "may_setid E c \<longrightarrow> may_setid E (cs_cred s) \<or> c_euid new = root"
    "may_setid E c \<longrightarrow> root \<in> {c_uid new, c_euid new, c_suid new} \<or>
       root \<notin> {c_uid (cs_cred s), c_euid (cs_cred s), c_suid (cs_cred s)}"
    using assms Pair unfolding cred_laws_def by (metis snd_conv)+
  obtain r2 c2 where c2: "ce_set_ucounts E c = (r2, c2)" by fastforce
  have 2: "same_ids c2 c" "may_setid E c2 \<longrightarrow> may_setid E c"
    using assms c2 unfolding cred_laws_def by (metis snd_conv)+
  have "same_ids c2 new" using 1(1) 2(1) by (auto simp: same_ids_def intro: same_uids_trans same_gids_trans)
  moreover have "may_setid E c2 \<longrightarrow> root \<in> uid_set new \<or>
      root \<notin> {c_uid (cs_cred s), c_euid (cs_cred s), c_suid (cs_cred s)}"
    using 1(3) 2(2) by (auto simp: uid_set_def)
  ultimately show ?thesis using 1 2 Pair c2 by (auto simp: finish_setuid_def left_by_def)
qed

text \<open>
  What an unprivileged caller can prepare: ids it has already. The statement is the same
  for the calls of both families.
\<close>

definition unprivileged_result :: "cred_env \<Rightarrow> kid \<Rightarrow> cred_state \<Rightarrow> cred_state \<Rightarrow> bool" where
  "unprivileged_result E root s t \<longleftrightarrow>
     cs_cred t = cs_cred s \<or>
     (\<exists>new. left_by E root new s t \<and> uid_set new \<subseteq> uid_set (cs_cred s) \<and> gid_set new \<subseteq> gid_set (cs_cred s))"

lemma set_user_ids:
  "set_user E c = (r, c') \<Longrightarrow> same_ids c' c"
  by (auto simp: set_user_def same_ids_def same_uids_def same_gids_def split: option.splits)

lemma unprivileged_finish_uid:
  assumes "cred_laws E root" and "uid_set new \<subseteq> uid_set (cs_cred s)" and "gid_set new \<subseteq> gid_set (cs_cred s)"
  shows "unprivileged_result E root s (snd (finish_setuid E k new s))"
  using finish_setuid_left [OF assms(1), of k new s] assms(2,3) unfolding unprivileged_result_def by metis

lemma unprivileged_finish_gid:
  assumes "cred_laws E root" and "same_uids new (cs_cred s)" and "gid_set new \<subseteq> gid_set (cs_cred s)"
  shows "unprivileged_result E root s (snd (finish_setgid E k new s))"
  using finish_setgid_left [OF assms(1,2), of k] assms(3) same_uids_set [OF assms(2)]
  unfolding unprivileged_result_def by (metis order_refl)

lemma unprivileged_same: "unprivileged_result E root s s"
  by (simp add: unprivileged_result_def)

lemma no_caps:
  "\<not> may_setid E c \<Longrightarrow> \<not> capable_setid E c CAP_SETUID"
  "\<not> may_setid E c \<Longrightarrow> \<not> capable_setid E c CAP_SETGID"
  by (simp_all add: may_setid_def)

text \<open>
  The credentials a call builds up by updates, kept within the ids of the caller. The rules
  follow the shape of the code: tests, updates of one id, copies of the effective id.
\<close>

definition gids_within :: "cred_state \<Rightarrow> cred \<Rightarrow> bool" where
  "gids_within s c \<longleftrightarrow> same_uids c (cs_cred s) \<and> gid_set c \<subseteq> gid_set (cs_cred s)"

definition uids_within :: "cred_state \<Rightarrow> cred \<Rightarrow> bool" where
  "uids_within s c \<longleftrightarrow> same_gids c (cs_cred s) \<and> uid_set c \<subseteq> uid_set (cs_cred s)"

lemma gids_within_rules:
  "gids_within s (cs_cred s)"
  "(b \<Longrightarrow> gids_within s c) \<Longrightarrow> (\<not> b \<Longrightarrow> gids_within s d) \<Longrightarrow> gids_within s (if b then c else d)"
  "gids_within s c \<Longrightarrow> gids_within s (c\<lparr>c_sgid := c_egid c\<rparr>)"
  "gids_within s c \<Longrightarrow> gids_within s (c\<lparr>c_fsgid := c_egid c\<rparr>)"
  "gids_within s c \<Longrightarrow> k \<in> gid_set (cs_cred s) \<Longrightarrow> gids_within s (c\<lparr>c_gid := k\<rparr>)"
  "gids_within s c \<Longrightarrow> k \<in> gid_set (cs_cred s) \<Longrightarrow> gids_within s (c\<lparr>c_egid := k\<rparr>)"
  "gids_within s c \<Longrightarrow> k \<in> gid_set (cs_cred s) \<Longrightarrow> gids_within s (c\<lparr>c_sgid := k\<rparr>)"
  "gids_within s c \<Longrightarrow> k \<in> gid_set (cs_cred s) \<Longrightarrow> gids_within s (c\<lparr>c_fsgid := k\<rparr>)"
  by (auto simp: gids_within_def same_uids_def gid_set_def)

lemma uids_within_rules:
  "uids_within s (cs_cred s)"
  "(b \<Longrightarrow> uids_within s c) \<Longrightarrow> (\<not> b \<Longrightarrow> uids_within s d) \<Longrightarrow> uids_within s (if b then c else d)"
  "uids_within s c \<Longrightarrow> uids_within s (c\<lparr>c_suid := c_euid c\<rparr>)"
  "uids_within s c \<Longrightarrow> uids_within s (c\<lparr>c_fsuid := c_euid c\<rparr>)"
  "uids_within s c \<Longrightarrow> k \<in> uid_set (cs_cred s) \<Longrightarrow> uids_within s (c\<lparr>c_uid := k\<rparr>)"
  "uids_within s c \<Longrightarrow> k \<in> uid_set (cs_cred s) \<Longrightarrow> uids_within s (c\<lparr>c_euid := k\<rparr>)"
  "uids_within s c \<Longrightarrow> k \<in> uid_set (cs_cred s) \<Longrightarrow> uids_within s (c\<lparr>c_suid := k\<rparr>)"
  "uids_within s c \<Longrightarrow> k \<in> uid_set (cs_cred s) \<Longrightarrow> uids_within s (c\<lparr>c_fsuid := k\<rparr>)"
  by (auto simp: uids_within_def same_gids_def uid_set_def)

lemma uids_within_user: "uids_within s c \<Longrightarrow> uids_within s (snd (if b then set_user E c else (0, c)))"
  using set_user_ids [of E c] by (cases "set_user E c")
    (auto simp: uids_within_def same_ids_def same_gids_def dest: same_uids_set)

lemma unprivileged_if:
  "(b \<Longrightarrow> unprivileged_result E root s (snd x)) \<Longrightarrow> (\<not> b \<Longrightarrow> unprivileged_result E root s (snd y)) \<Longrightarrow>
   unprivileged_result E root s (snd (if b then x else y))"
  by simp

lemma unprivileged_err: "unprivileged_result E root s (snd (e, s))"
  by (simp add: unprivileged_same)

lemma unprivileged_gids:
  "cred_laws E root \<Longrightarrow> gids_within s new \<Longrightarrow> unprivileged_result E root s (snd (finish_setgid E k new s))"
  by (rule unprivileged_finish_gid) (auto simp: gids_within_def)

lemma unprivileged_uids:
  "cred_laws E root \<Longrightarrow> uids_within s new \<Longrightarrow> unprivileged_result E root s (snd (finish_setuid E k new s))"
  by (rule unprivileged_finish_uid) (auto simp: uids_within_def dest: same_gids_set)

lemmas unprivileged_rules = unprivileged_if unprivileged_err unprivileged_gids unprivileged_uids

lemma setregid_unprivileged:
  assumes "cred_laws E root" and "\<not> may_setid E (cs_cred s)"
  shows "unprivileged_result E root s (snd (setregid E r e s))"
  using no_caps [OF assms(2)] unfolding setregid_def Let_def
  by (intro unprivileged_rules assms(1) gids_within_rules) (auto simp: gid_set_def)

lemma setgid_unprivileged:
  assumes "cred_laws E root" and "\<not> may_setid E (cs_cred s)"
  shows "unprivileged_result E root s (snd (setgid E g s))"
  using no_caps [OF assms(2)] unfolding setgid_def Let_def
  by (intro unprivileged_rules assms(1) gids_within_rules) (auto simp: gid_set_def)

lemma setresgid_unprivileged:
  assumes "cred_laws E root" and "\<not> may_setid E (cs_cred s)"
  shows "unprivileged_result E root s (snd (setresgid E r e g s))"
  using no_caps [OF assms(2)] unfolding setresgid_def Let_def
  by (intro unprivileged_rules assms(1) gids_within_rules) (auto simp: gid_set_def)

lemma setreuid_unprivileged:
  assumes "cred_laws E root" and "\<not> may_setid E (cs_cred s)"
  shows "unprivileged_result E root s (snd (setreuid E r e s))"
  using no_caps [OF assms(2)] unfolding setreuid_def Let_def split_beta
  by (intro unprivileged_rules assms(1) uids_within_rules uids_within_user) (auto simp: uid_set_def)

lemma setuid_unprivileged:
  assumes "cred_laws E root" and "\<not> may_setid E (cs_cred s)"
  shows "unprivileged_result E root s (snd (setuid E u s))"
  using no_caps [OF assms(2)] unfolding setuid_def Let_def split_beta
  by (intro unprivileged_rules assms(1) uids_within_rules uids_within_user) (auto simp: uid_set_def)

lemma setresuid_unprivileged:
  assumes "cred_laws E root" and "\<not> may_setid E (cs_cred s)"
  shows "unprivileged_result E root s (snd (setresuid E r e u s))"
  using no_caps [OF assms(2)] unfolding setresuid_def Let_def split_beta
  by (intro unprivileged_rules assms(1) uids_within_rules uids_within_user) (auto simp: uid_set_def)

lemma fs_left:
  assumes "cred_laws E root"
  shows "uids_within s new \<Longrightarrow>
      unprivileged_result E root s (s\<lparr>cs_cred := snd (ce_fix_setuid E k new (cs_cred s))\<rparr>)"
    and "gids_within s new \<Longrightarrow>
      unprivileged_result E root s (s\<lparr>cs_cred := snd (ce_fix_setgid E k new (cs_cred s))\<rparr>)"
proof -
  let ?c = "snd (ce_fix_setuid E k new (cs_cred s))" and ?g = "snd (ce_fix_setgid E k new (cs_cred s))"
  have c: "same_ids ?c new" "may_setid E ?c \<longrightarrow> may_setid E (cs_cred s) \<or> c_euid new = root"
    "may_setid E ?c \<longrightarrow> root \<in> {c_uid new, c_euid new, c_suid new} \<or>
       root \<notin> {c_uid (cs_cred s), c_euid (cs_cred s), c_suid (cs_cred s)}"
    and g: "same_ids ?g new" "may_setid E ?g \<longrightarrow> may_setid E (cs_cred s)"
    using assms unfolding cred_laws_def by blast+
  have "left_by E root new s (s\<lparr>cs_cred := ?c\<rparr>)" using c by (auto simp: left_by_def uid_set_def)
  then show "uids_within s new \<Longrightarrow> unprivileged_result E root s (s\<lparr>cs_cred := ?c\<rparr>)"
    unfolding unprivileged_result_def uids_within_def by (metis order_refl same_gids_set)
  have "left_by E root new s (s\<lparr>cs_cred := ?g\<rparr>)" if "gids_within s new"
    using g that by (auto simp: left_by_def gids_within_def same_uids_def uid_set_def)
  then show "gids_within s new \<Longrightarrow> unprivileged_result E root s (s\<lparr>cs_cred := ?g\<rparr>)"
    unfolding unprivileged_result_def gids_within_def by (metis order_refl same_uids_set)
qed

lemma setfsuid_unprivileged:
  assumes "cred_laws E root" and "\<not> may_setid E (cs_cred s)"
  shows "unprivileged_result E root s (snd (setfsuid E u s))"
  using no_caps [OF assms(2)] unfolding setfsuid_def Let_def split_beta
  by (intro unprivileged_rules; simp)
    (intro impI fs_left(1) assms(1) uids_within_rules; auto simp: uid_set_def)

lemma setfsgid_unprivileged:
  assumes "cred_laws E root" and "\<not> may_setid E (cs_cred s)"
  shows "unprivileged_result E root s (snd (setfsgid E g s))"
  using no_caps [OF assms(2)] unfolding setfsgid_def Let_def split_beta
  by (intro unprivileged_rules; simp)
    (intro impI fs_left(2) assms(1) gids_within_rules; auto simp: gid_set_def)

subsection \<open>Sequences of calls\<close>

inductive cred_step :: "cred_env \<Rightarrow> cred_state \<Rightarrow> cred_state \<Rightarrow> bool" for E :: cred_env where
  "cred_step E s (snd (setregid E r e s))"
| "cred_step E s (snd (setgid E g s))"
| "cred_step E s (snd (setresgid E r e g s))"
| "cred_step E s (snd (setfsgid E g s))"
| "cred_step E s (snd (setreuid E r e s))"
| "cred_step E s (snd (setuid E u s))"
| "cred_step E s (snd (setresuid E r e u s))"
| "cred_step E s (snd (setfsuid E u s))"

lemma cred_step_unprivileged:
  assumes "cred_step E s t" and "cred_laws E root" and "\<not> may_setid E (cs_cred s)"
  shows "unprivileged_result E root s t"
  using assms(1)
  by cases (use assms(2,3) in \<open>auto intro: setregid_unprivileged setgid_unprivileged setresgid_unprivileged
      setfsgid_unprivileged setreuid_unprivileged setuid_unprivileged setresuid_unprivileged
      setfsuid_unprivileged\<close>)

text \<open>
  The contract each family of ids is under: from a state in which the caller has no say,
  a step keeps it so and adds no id. The client draws the conclusion for whole runs.
\<close>

locale confined_ids =
  fixes step :: "'s \<Rightarrow> 's \<Rightarrow> bool" and ids :: "'s \<Rightarrow> 'i set" and powerless :: "'s \<Rightarrow> bool"
  assumes step_confined: "powerless s \<Longrightarrow> step s t \<Longrightarrow> powerless t \<and> ids t \<subseteq> ids s"
begin

lemma run_confined:
  assumes "reach step s t" and "powerless s"
  shows "powerless t \<and> ids t \<subseteq> ids s"
  using assms
proof (induction rule: reach.induct)
  case (reach_step s t u)
  then show ?case using step_confined by blast
qed simp

end

definition lawful_step :: "cred_env \<Rightarrow> kid \<Rightarrow> cred_state \<Rightarrow> cred_state \<Rightarrow> bool" where
  "lawful_step E root s t \<longleftrightarrow> cred_laws E root \<and> cred_step E s t"

definition powerless :: "cred_env \<Rightarrow> kid \<Rightarrow> cred_state \<Rightarrow> bool" where
  "powerless E root s \<longleftrightarrow> \<not> may_setid E (cs_cred s) \<and> root \<notin> uid_set (cs_cred s)"

lemma powerless_step:
  assumes "powerless E root s" and "lawful_step E root s t"
  shows "powerless E root t \<and> uid_set (cs_cred t) \<subseteq> uid_set (cs_cred s) \<and> gid_set (cs_cred t) \<subseteq> gid_set (cs_cred s)"
proof -
  have "unprivileged_result E root s t"
    using assms by (auto simp: powerless_def lawful_step_def intro: cred_step_unprivileged)
  then consider "cs_cred t = cs_cred s"
    | new where "left_by E root new s t" "uid_set new \<subseteq> uid_set (cs_cred s)" "gid_set new \<subseteq> gid_set (cs_cred s)"
    unfolding unprivileged_result_def by blast
  then show ?thesis
  proof cases
    case 1
    then show ?thesis using assms(1) by (simp add: powerless_def)
  next
    case 2
    have "c_euid new \<in> uid_set new" by (simp add: uid_set_def)
    then have "c_euid new \<noteq> root" using 2(2) assms(1) by (auto simp: powerless_def)
    moreover have "uid_set (cs_cred t) = uid_set new" "gid_set (cs_cred t) = gid_set new"
      using 2(1) by (auto simp: left_by_def same_ids_def dest: same_uids_set same_gids_set)
    ultimately show ?thesis using 2 assms(1) by (auto simp: powerless_def left_by_def)
  qed
qed

interpretation uid_rules: confined_ids "lawful_step E root" "\<lambda>s. uid_set (cs_cred s)" "powerless E root"
  for E root
  by unfold_locales (use powerless_step in blast)

interpretation gid_rules: confined_ids "lawful_step E root" "\<lambda>s. gid_set (cs_cred s)" "powerless E root"
  for E root
  by unfold_locales (use powerless_step in blast)

lemma lawful_reach: "reach (cred_step E) s t \<Longrightarrow> cred_laws E root \<Longrightarrow> reach (lawful_step E root) s t"
  by (induction rule: reach.induct) (auto simp: lawful_step_def intro: reach.intros)

lemma confined_run:
  assumes "cred_laws E root" and "reach (cred_step E) s t" and "powerless E root s"
  shows "uid_set (cs_cred t) \<subseteq> uid_set (cs_cred s) \<and> gid_set (cs_cred t) \<subseteq> gid_set (cs_cred s)
    \<and> powerless E root t"
  using uid_rules.run_confined [OF lawful_reach [OF assms(2,1)] assms(3)]
    gid_rules.run_confined [OF lawful_reach [OF assms(2,1)] assms(3)] by blast

subsection \<open>Properties\<close>

text \<open>C23: a task without \<open>CAP_SETUID\<close> and \<open>CAP_SETGID\<close>, none of whose user ids is root, never
  gets a user or group id it did not have, nor one of the capabilities, by any sequence of
  the eight calls with any arguments.\<close>
theorem unprivileged_ids_confined:
  assumes "cred_laws E root" and "reach (cred_step E) s t" and "\<not> may_setid E (cs_cred s)"
    and "root \<notin> uid_set (cs_cred s)"
  shows "uid_set (cs_cred t) \<subseteq> uid_set (cs_cred s) \<and> gid_set (cs_cred t) \<subseteq> gid_set (cs_cred s)
    \<and> \<not> may_setid E (cs_cred t)"
  using confined_run [OF assms(1,2)] assms(3,4) by (simp add: powerless_def)

text \<open>A kernel that follows the laws: root is 0, and the capabilities follow the effective id.\<close>

definition plain_caps :: "cred \<Rightarrow> cred" where
  "plain_caps c = c\<lparr>c_caps := (if c_euid c = 0 then [CAP_SETGID, CAP_SETUID] else [])\<rparr>"

definition sample_cred_env :: cred_env where
  "sample_cred_env =
     \<lparr>ce_make_kuid = (\<lambda>ns i. i), ce_make_kgid = (\<lambda>ns i. i), ce_from_kuid = (\<lambda>ns k. k),
      ce_from_kgid = (\<lambda>ns k. k), ce_prepare = True, ce_capable = (\<lambda>c ns p. p \<in> set (c_caps c)),
      ce_fix_setuid = (\<lambda>k new old. (0, plain_caps new)),
      ce_fix_setgid = (\<lambda>k new old. (0, new\<lparr>c_caps := c_caps old\<rparr>)),
      ce_alloc_uid = (\<lambda>k. Some (unat k)), ce_set_ucounts = (\<lambda>new. (0, new)),
      ce_overlimit = (\<lambda>u. False), ce_init_user = 0, ce_put_user = (\<lambda>a. 0)\<rparr>"

definition sample_cred :: "kid \<Rightarrow> kid \<Rightarrow> kid \<Rightarrow> cred" where
  "sample_cred u e g =
     plain_caps \<lparr>c_uid = u, c_euid = e, c_suid = e, c_fsuid = e, c_gid = g, c_egid = g, c_sgid = g, c_fsgid = g,
       c_user_ns = 0, c_user = 0, c_ucounts = 0, c_caps = []\<rparr>"

definition sample_creds :: "kid \<Rightarrow> kid \<Rightarrow> kid \<Rightarrow> cred_state" where
  "sample_creds u e g = \<lparr>cs_cred = sample_cred u e g, cs_nproc_exceeded = False\<rparr>"

lemmas sample_cred_defs = sample_cred_env_def sample_cred_def sample_creds_def plain_caps_def

lemma sample_laws: "cred_laws sample_cred_env 0"
  by (auto simp: cred_laws_def sample_cred_env_def plain_caps_def same_ids_def same_uids_def same_gids_def
      may_setid_def capable_setid_def)

lemma sample_swap:
  "snd (setreuid sample_cred_env 1001 1000 (sample_creds 1000 1001 100)) =
    \<lparr>cs_cred = (sample_cred 1000 1001 100)\<lparr>c_uid := 1001, c_euid := 1000, c_suid := 1000, c_fsuid := 1000, c_user := 1001\<rparr>,
     cs_nproc_exceeded = False\<rparr>"
  by (simp add: setreuid_def sample_cred_defs no_id_def id_valid_def set_user_def finish_setuid_def
      flag_nproc_exceeded_def)

theorem unprivileged_ids_confined_witness:
  "c_euid (cs_cred (snd (setreuid sample_cred_env 1001 1000 (sample_creds 1000 1001 100)))) = 1000
   \<and> uid_set (cs_cred (snd (setreuid sample_cred_env 1001 1000 (sample_creds 1000 1001 100)))) \<subseteq> {1000, 1001}"
proof -
  have r: "reach (cred_step sample_cred_env) (sample_creds 1000 1001 100)
      (snd (setreuid sample_cred_env 1001 1000 (sample_creds 1000 1001 100)))"
    by (rule reach_one) (rule cred_step.intros)
  have m: "\<not> may_setid sample_cred_env (cs_cred (sample_creds 1000 1001 100))"
    by (simp add: may_setid_def capable_setid_def sample_cred_defs)
  have u: "uid_set (cs_cred (sample_creds 1000 1001 100)) = {1000, 1001}"
    by (simp add: uid_set_def sample_cred_defs)
  have "uid_set (cs_cred (snd (setreuid sample_cred_env 1001 1000 (sample_creds 1000 1001 100)))) \<subseteq> {1000, 1001}"
    using unprivileged_ids_confined [OF sample_laws r m] u by simp
  then show ?thesis by (simp add: sample_swap)
qed

lemma setuid_all_ids:
  assumes laws: "cred_laws E root" and cap: "capable_setid E (cs_cred s) CAP_SETUID"
    and was: "root \<in> {c_uid (cs_cred s), c_euid (cs_cred s), c_suid (cs_cred s)}"
    and ku: "ku = ce_make_kuid E (c_user_ns (cs_cred s)) u" "ku \<noteq> root" and ok: "setuid E u s = (0, t)"
  shows "uid_set (cs_cred t) = {ku} \<and> powerless E root t"
proof -
  let ?old = "cs_cred s"
  obtain r new where n: "(if ku \<noteq> c_uid ?old then set_user E (?old\<lparr>c_suid := ku, c_uid := ku\<rparr>)
      else (0, ?old\<lparr>c_suid := ku, c_uid := ku\<rparr>)) = (r, new)" by fastforce
  have ids: "same_ids new (?old\<lparr>c_suid := ku, c_uid := ku\<rparr>)"
    using n set_user_ids by (auto simp: same_ids_def same_uids_def same_gids_def split: if_splits)
  let ?new = "new\<lparr>c_fsuid := ku, c_euid := ku\<rparr>"
  have t: "(if r < 0 then (r, s) else finish_setuid E LSM_SETID_ID ?new s) = (0, t)"
    using ok cap unfolding setuid_def Let_def ku(1) [symmetric] n prod.case by (simp split: if_splits)
  then have fin: "finish_setuid E LSM_SETID_ID ?new s = (0, t)" by (auto split: if_splits)
  obtain r1 c1 where f: "ce_fix_setuid E LSM_SETID_ID ?new ?old = (r1, c1)" by fastforce
  obtain r2 c2 where a: "ce_set_ucounts E c1 = (r2, c2)" by fastforce
  have t2: "cs_cred t = c2" using fin f a by (auto simp: finish_setuid_def split: if_splits)
  have fx: "same_ids c1 ?new" "same_ids c2 c1" "may_setid E c2 \<longrightarrow> may_setid E c1"
    "may_setid E c1 \<longrightarrow> root \<in> {c_uid ?new, c_euid ?new, c_suid ?new} \<or> root \<notin> {c_uid ?old, c_euid ?old, c_suid ?old}"
    using laws f a unfolding cred_laws_def by (metis snd_conv)+
  have u: "c_uid ?new = ku" "c_euid ?new = ku" "c_suid ?new = ku" "c_fsuid ?new = ku"
    using ids by (simp_all add: same_ids_def same_uids_def)
  then have "uid_set c2 = {ku}" using fx(1,2) by (simp add: same_ids_def same_uids_def uid_set_def)
  then show ?thesis using fx(3,4) u was ku(2) by (auto simp: powerless_def t2)
qed

text \<open>C24: when a task that runs as root calls \<open>setuid\<close> with an ordinary user and the call
  succeeds, then its four user ids are that user, and they stay so, without capability to
  change them, whatever credential calls it makes later.\<close>
theorem setuid_drops_root_for_ever:
  assumes "cred_laws E root" and "capable_setid E (cs_cred s) CAP_SETUID"
    and "root \<in> {c_uid (cs_cred s), c_euid (cs_cred s), c_suid (cs_cred s)}"
    and "ce_make_kuid E (c_user_ns (cs_cred s)) u \<noteq> root" and "setuid E u s = (0, s')"
    and "reach (cred_step E) s' t"
  shows "uid_set (cs_cred t) = {ce_make_kuid E (c_user_ns (cs_cred s)) u} \<and> \<not> may_setid E (cs_cred t)"
proof -
  note d = setuid_all_ids [OF assms(1,2,3) refl assms(4,5)]
  have "c_uid (cs_cred t) \<in> uid_set (cs_cred t)" by (simp add: uid_set_def)
  moreover have "uid_set (cs_cred t) \<subseteq> {ce_make_kuid E (c_user_ns (cs_cred s)) u}" "powerless E root t"
    using confined_run [OF assms(1,6)] d by auto
  ultimately show ?thesis by (auto simp: powerless_def)
qed

theorem setuid_drops_root_for_ever_witness:
  "uid_set (cs_cred (snd (setuid sample_cred_env 0 (snd (setuid sample_cred_env 1000 (sample_creds 0 0 0)))))) = {1000}"
proof -
  have s: "setuid sample_cred_env 1000 (sample_creds 0 0 0) = (0, snd (setuid sample_cred_env 1000 (sample_creds 0 0 0)))"
    "capable_setid sample_cred_env (cs_cred (sample_creds 0 0 0)) CAP_SETUID"
    by (simp_all add: setuid_def sample_cred_defs capable_setid_def id_valid_def set_user_def finish_setuid_def)
  have r: "reach (cred_step sample_cred_env) (snd (setuid sample_cred_env 1000 (sample_creds 0 0 0)))
      (snd (setuid sample_cred_env 0 (snd (setuid sample_cred_env 1000 (sample_creds 0 0 0)))))"
    by (rule reach_one) (rule cred_step.intros)
  have "ce_make_kuid sample_cred_env n 1000 = 1000" "c_uid (cs_cred (sample_creds 0 0 0)) = 0" for n
    by (simp_all add: sample_cred_defs)
  then show ?thesis using setuid_drops_root_for_ever [OF sample_laws s(2) _ _ s(1) r] by simp
qed

subsection \<open>Setting and reading back\<close>

lemma finish_ok:
  assumes "cred_laws E root"
  shows "finish_setuid E k new s = (0, t) \<Longrightarrow> same_ids (cs_cred t) new"
    and "finish_setgid E k new s = (0, t) \<Longrightarrow> same_ids (cs_cred t) new"
proof -
  show "same_ids (cs_cred t) new" if "finish_setuid E k new s = (0, t)"
  proof -
    obtain r1 c1 where f: "ce_fix_setuid E k new (cs_cred s) = (r1, c1)" by fastforce
    obtain r2 c2 where a: "ce_set_ucounts E c1 = (r2, c2)" by fastforce
    have "same_ids c1 new" "same_ids c2 c1" using assms f a unfolding cred_laws_def by (metis snd_conv)+
    moreover have "cs_cred t = c2" using that f a by (auto simp: finish_setuid_def split: if_splits)
    ultimately show ?thesis by (simp add: same_ids_def same_uids_def same_gids_def)
  qed
  show "same_ids (cs_cred t) new" if "finish_setgid E k new s = (0, t)"
  proof -
    obtain r1 c1 where f: "ce_fix_setgid E k new (cs_cred s) = (r1, c1)" by fastforce
    have "same_ids c1 new" using assms f unfolding cred_laws_def by (metis snd_conv)
    then show ?thesis using that f by (auto simp: finish_setgid_def split: if_splits)
  qed
qed

text \<open>The tests of \<open>setresuid\<close> after the arguments were found valid.\<close>

lemma if_chain:
  assumes "(if A then (0, s) else if B then (e :: int, s) else if C then (e', s)
     else f) = (0, t)" and "e < 0" "e' < 0"
  shows "(A \<and> t = s) \<or> f = (0, t)"
  using assms by (auto split: if_splits)

lemmas test_simps = simp_thms if_True if_False not_True_eq_False not_False_eq_True

lemma setresuid_ids:
  assumes laws: "cred_laws E root" and i: "r \<noteq> no_id" "e \<noteq> no_id" "u \<noteq> no_id" and ok: "setresuid E r e u s = (0, t)"
  shows "id_valid (ce_make_kuid E (c_user_ns (cs_cred s)) r) \<and> id_valid (ce_make_kuid E (c_user_ns (cs_cred s)) e)
    \<and> id_valid (ce_make_kuid E (c_user_ns (cs_cred s)) u)
    \<and> c_user_ns (cs_cred t) = c_user_ns (cs_cred s) \<and> same_gids (cs_cred t) (cs_cred s)
    \<and> c_uid (cs_cred t) = ce_make_kuid E (c_user_ns (cs_cred s)) r
    \<and> c_euid (cs_cred t) = ce_make_kuid E (c_user_ns (cs_cred s)) e
    \<and> c_suid (cs_cred t) = ce_make_kuid E (c_user_ns (cs_cred s)) u"
proof -
  let ?old = "cs_cred s"
  let ?kr = "ce_make_kuid E (c_user_ns ?old) r" and ?ke = "ce_make_kuid E (c_user_ns ?old) e"
    and ?ku = "ce_make_kuid E (c_user_ns ?old) u"
  obtain v new where n: "(if ?kr \<noteq> c_uid ?old then set_user E (?old\<lparr>c_uid := ?kr\<rparr>)
      else (0, ?old\<lparr>c_uid := ?kr\<rparr>)) = (v, new)" by fastforce
  have ids: "same_ids new (?old\<lparr>c_uid := ?kr\<rparr>)"
    using n set_user_ids by (auto simp: same_ids_def same_uids_def same_gids_def split: if_splits)
  have "id_valid ?kr \<and> id_valid ?ke \<and> id_valid ?ku"
  proof (rule ccontr)
    assume "\<not> ?thesis"
    then have "fst (setresuid E r e u s) = - EINVAL"
      unfolding setresuid_def Let_def by (simp only: i test_simps) (auto simp only: de_Morgan_conj if_True fst_conv split: if_split)
    then show False using ok by simp
  qed
  then have v: "id_valid ?kr" "id_valid ?ke" "id_valid ?ku" by auto
  let ?fin = "new\<lparr>c_euid := ?ke, c_suid := ?ku, c_fsuid := ?ke\<rparr>"
  consider (same) "t = s" "?kr = c_uid ?old" "?ke = c_euid ?old" "?ku = c_suid ?old"
    | (new) "finish_setuid E LSM_SETID_RES ?fin s = (0, t)"
  proof -
    have "(?kr = c_uid ?old \<and> (?ke = c_euid ?old \<and> ?ke = c_fsuid ?old) \<and> ?ku = c_suid ?old) \<and> t = s
        \<or> (if v < 0 then (v, s) else finish_setuid E LSM_SETID_RES (new\<lparr>c_euid := ?ke, c_suid := ?ku,
              c_fsuid := c_euid (new\<lparr>c_euid := ?ke, c_suid := ?ku\<rparr>)\<rparr>) s) = (0, t)"
      using if_chain [OF ok [unfolded setresuid_def Let_def, simplified i v test_simps]]
      unfolding n prod.case by simp
    then show thesis using same new by (auto split: if_splits)
  qed
  then show ?thesis
  proof cases
    case same
    then show ?thesis using v by (simp add: same_gids_def)
  next
    case new
    have "same_ids (cs_cred t) ?fin" by (rule finish_ok(1) [OF laws new])
    then show ?thesis using v ids by (simp add: same_ids_def same_uids_def same_gids_def)
  qed
qed

lemma setresgid_ids:
  assumes laws: "cred_laws E root" and i: "r \<noteq> no_id" "e \<noteq> no_id" "g \<noteq> no_id" and ok: "setresgid E r e g s = (0, t)"
  shows "id_valid (ce_make_kgid E (c_user_ns (cs_cred s)) r) \<and> id_valid (ce_make_kgid E (c_user_ns (cs_cred s)) e)
    \<and> id_valid (ce_make_kgid E (c_user_ns (cs_cred s)) g)
    \<and> c_user_ns (cs_cred t) = c_user_ns (cs_cred s) \<and> same_uids (cs_cred t) (cs_cred s)
    \<and> c_gid (cs_cred t) = ce_make_kgid E (c_user_ns (cs_cred s)) r
    \<and> c_egid (cs_cred t) = ce_make_kgid E (c_user_ns (cs_cred s)) e
    \<and> c_sgid (cs_cred t) = ce_make_kgid E (c_user_ns (cs_cred s)) g"
proof -
  let ?old = "cs_cred s"
  let ?kr = "ce_make_kgid E (c_user_ns ?old) r" and ?ke = "ce_make_kgid E (c_user_ns ?old) e"
    and ?kg = "ce_make_kgid E (c_user_ns ?old) g"
  have "id_valid ?kr \<and> id_valid ?ke \<and> id_valid ?kg"
  proof (rule ccontr)
    assume "\<not> ?thesis"
    then have "fst (setresgid E r e g s) = - EINVAL"
      unfolding setresgid_def Let_def by (simp only: i test_simps) (auto simp only: de_Morgan_conj if_True fst_conv split: if_split)
    then show False using ok by simp
  qed
  then have v: "id_valid ?kr" "id_valid ?ke" "id_valid ?kg" by auto
  let ?fin = "?old\<lparr>c_gid := ?kr, c_egid := ?ke, c_sgid := ?kg, c_fsgid := ?ke\<rparr>"
  consider (same) "t = s" "?kr = c_gid ?old" "?ke = c_egid ?old" "?kg = c_sgid ?old"
    | (new) "finish_setgid E LSM_SETID_RES ?fin s = (0, t)"
    using if_chain [OF ok [unfolded setresgid_def Let_def, simplified i v test_simps]] by auto
  then show ?thesis
  proof cases
    case same
    then show ?thesis using v by (simp add: same_uids_def)
  next
    case new
    have "same_ids (cs_cred t) ?fin" by (rule finish_ok(2) [OF laws new])
    then show ?thesis using v by (simp add: same_ids_def same_uids_def same_gids_def)
  qed
qed

text \<open>The three user ids and the three group ids that \<open>setresuid\<close> and then \<open>setresgid\<close> set
  are the ones \<open>getresuid\<close> and \<open>getresgid\<close> store at the caller's addresses.\<close>
theorem getres_after_setres:
  assumes "cred_laws E root"
    and "\<And>ns i. id_valid (ce_make_kuid E ns i) \<Longrightarrow> ce_from_kuid E ns (ce_make_kuid E ns i) = i"
    and "\<And>ns i. id_valid (ce_make_kgid E ns i) \<Longrightarrow> ce_from_kgid E ns (ce_make_kgid E ns i) = i"
    and "\<And>a. ce_put_user E a = 0"
    and "r \<noteq> no_id" "e \<noteq> no_id" "u \<noteq> no_id" and "setresuid E r e u s = (0, s1)"
    and "g \<noteq> no_id" "h \<noteq> no_id" "i \<noteq> no_id" and "setresgid E g h i s1 = (0, s2)"
  shows "getresuid E a b c s2 = (0, [(a, r), (b, e), (c, u)])
    \<and> getresgid E a b c s2 = (0, [(a, g), (b, h), (c, i)])"
  using setresuid_ids [OF assms(1,5-8)] setresgid_ids [OF assms(1,9-12)] assms(2,3,4)
  by (auto simp: getresuid_def getresgid_def put_three_def Let_def same_uids_def)

theorem getres_after_setres_witness:
  "getresuid sample_cred_env 8 16 24
      (snd (setresgid sample_cred_env 7 8 9 (snd (setresuid sample_cred_env 1 0 3 (sample_creds 0 0 0)))))
    = (0, [(8, 1), (16, 0), (24, 3)])"
proof -
  have u: "setresuid sample_cred_env 1 0 3 (sample_creds 0 0 0) =
      (0, snd (setresuid sample_cred_env 1 0 3 (sample_creds 0 0 0)))"
    by (simp add: setresuid_def sample_cred_defs capable_setid_def id_valid_def no_id_def set_user_def
        finish_setuid_def flag_nproc_exceeded_def)
  have g: "setresgid sample_cred_env 7 8 9 (snd (setresuid sample_cred_env 1 0 3 (sample_creds 0 0 0))) =
      (0, snd (setresgid sample_cred_env 7 8 9 (snd (setresuid sample_cred_env 1 0 3 (sample_creds 0 0 0)))))"
    by (simp add: setresuid_def setresgid_def sample_cred_defs capable_setid_def id_valid_def no_id_def
        set_user_def finish_setuid_def finish_setgid_def flag_nproc_exceeded_def)
  show ?thesis
    using getres_after_setres [OF sample_laws _ _ _ _ _ _ u _ _ _ g]
    by (simp add: sample_cred_env_def no_id_def)
qed

end
