(* ===== verification/Sys_Pgrp.thy ===== *)
theory Sys_Pgrp
  imports Kernel_Prelude
begin

text \<open>
  Process groups and sessions in \<open>Practica1/linux-6.6.44/kernel/sys.c\<close>: \<open>setpgid\<close>,
  \<open>getpgid\<close>, \<open>getsid\<close>, \<open>setsid\<close>, and the ids \<open>getpid\<close>, \<open>gettid\<close>, \<open>getppid\<close>. The state is
  the table of processes and the table of threads. A \<open>struct pid\<close> is a number; how it
  appears in the caller's namespace and the security hooks are parameters.
\<close>

subsection \<open>Processes\<close>

text \<open>
  A process is known by the pid of its group leader. \<open>pr_leader\<close> is \<open>signal->leader\<close>,
  \<open>pr_forknoexec\<close> the flag \<open>PF_FORKNOEXEC\<close>, \<open>pr_parent\<close> the process of \<open>real_parent\<close>.
\<close>

record process =
  pr_parent :: nat
  pr_pgrp :: nat
  pr_session :: nat
  pr_leader :: bool
  pr_forknoexec :: bool

text \<open>\<open>st_threads\<close> gives each thread its process.\<close>

record proc_state =
  st_threads :: "(nat \<times> nat) list"
  st_procs :: "(nat \<times> process) list"

record pgrp_env =
  pg_vnr :: "nat \<Rightarrow> int"
  pg_find_vpid :: "int \<Rightarrow> nat option"
  pg_setpgid_hook :: "nat \<Rightarrow> int \<Rightarrow> int"
  pg_getpgid_hook :: "nat \<Rightarrow> int"
  pg_getsid_hook :: "nat \<Rightarrow> int"

definition proc_of :: "proc_state \<Rightarrow> nat \<Rightarrow> process option" where
  "proc_of s p = map_of (st_procs s) p"

definition upd_proc :: "nat \<Rightarrow> (process \<Rightarrow> process) \<Rightarrow> proc_state \<Rightarrow> proc_state" where
  "upd_proc p f s = s\<lparr>st_procs := map (\<lambda>(k, v). (k, if k = p then f v else v)) (st_procs s)\<rparr>"

text \<open>\<open>find_task_by_vpid\<close>: the thread and its process.\<close>

definition find_task_by_vpid :: "pgrp_env \<Rightarrow> proc_state \<Rightarrow> int \<Rightarrow> (nat \<times> nat \<times> process) option" where
  "find_task_by_vpid E s n =
     (case pg_find_vpid E n of
        None \<Rightarrow> None
      | Some t \<Rightarrow>
          (case map_of (st_threads s) t of
             None \<Rightarrow> None
           | Some p \<Rightarrow> (case proc_of s p of None \<Rightarrow> None | Some P \<Rightarrow> Some (t, p, P))))"

text \<open>\<open>pid_task(pid, PIDTYPE_PGID)\<close>: the first process in the group, in the order of the table.\<close>

definition pgid_task :: "proc_state \<Rightarrow> nat \<Rightarrow> process option" where
  "pgid_task s g = map_option snd (find (\<lambda>(k, P). pr_pgrp P = g) (st_procs s))"

subsection \<open>The system calls\<close>

text \<open>\<open>cur\<close> is the group leader of the caller and \<open>C\<close> its process.\<close>

definition setpgid :: "pgrp_env \<Rightarrow> nat \<Rightarrow> process \<Rightarrow> int \<Rightarrow> int \<Rightarrow> proc_state \<Rightarrow> int \<times> proc_state" where
  "setpgid E cur C pid pgid s =
     (let pid = (if pid = 0 then pg_vnr E cur else pid);
          pgid = (if pgid = 0 then pid else pgid)
      in if pgid < 0 then (- EINVAL, s)
         else
           (case find_task_by_vpid E s pid of
              None \<Rightarrow> (- ESRCH, s)
            | Some (t, p, P) \<Rightarrow>
                if t \<noteq> p then (- EINVAL, s)
                else if pr_parent P = cur \<and> pr_session P \<noteq> pr_session C then (- EPERM, s)
                else if pr_parent P = cur \<and> \<not> pr_forknoexec P then (- EACCES, s)
                else if pr_parent P \<noteq> cur \<and> p \<noteq> cur then (- ESRCH, s)
                else if pr_leader P then (- EPERM, s)
                else
                  (let pgrp = (if pgid \<noteq> pid then pg_find_vpid E pgid else Some p);
                       bad = (pgid \<noteq> pid \<and>
                              (case pgrp of
                                 None \<Rightarrow> True
                               | Some g \<Rightarrow>
                                   (case pgid_task s g of
                                      None \<Rightarrow> True
                                    | Some G \<Rightarrow> pr_session G \<noteq> pr_session C)))
                   in if bad then (- EPERM, s)
                      else
                        (let err = pg_setpgid_hook E p pgid in
                         if err \<noteq> 0 then (err, s)
                         else
                           (case pgrp of
                              None \<Rightarrow> (0, s)
                            | Some g \<Rightarrow> (0, if pr_pgrp P \<noteq> g then upd_proc p (\<lambda>P. P\<lparr>pr_pgrp := g\<rparr>) s else s))))))"

definition do_getpgid :: "pgrp_env \<Rightarrow> process \<Rightarrow> int \<Rightarrow> proc_state \<Rightarrow> int" where
  "do_getpgid E C pid s =
     (if pid = 0 then pg_vnr E (pr_pgrp C)
      else
        (case find_task_by_vpid E s pid of
           None \<Rightarrow> - ESRCH
         | Some (t, p, P) \<Rightarrow>
             (let retval = pg_getpgid_hook E t in
              if retval \<noteq> 0 then retval else pg_vnr E (pr_pgrp P))))"

definition getsid :: "pgrp_env \<Rightarrow> process \<Rightarrow> int \<Rightarrow> proc_state \<Rightarrow> int" where
  "getsid E C pid s =
     (if pid = 0 then pg_vnr E (pr_session C)
      else
        (case find_task_by_vpid E s pid of
           None \<Rightarrow> - ESRCH
         | Some (t, p, P) \<Rightarrow>
             (let retval = pg_getsid_hook E t in
              if retval \<noteq> 0 then retval else pg_vnr E (pr_session P))))"

definition set_special_pids :: "nat \<Rightarrow> process \<Rightarrow> process" where
  "set_special_pids pid P =
     (let P1 = (if pr_session P \<noteq> pid then P\<lparr>pr_session := pid\<rparr> else P)
      in if pr_pgrp P1 \<noteq> pid then P1\<lparr>pr_pgrp := pid\<rparr> else P1)"

text \<open>The terminal, the connector and the autogroup are not part of the state.\<close>

definition ksys_setsid :: "pgrp_env \<Rightarrow> nat \<Rightarrow> process \<Rightarrow> proc_state \<Rightarrow> int \<times> proc_state" where
  "ksys_setsid E cur C s =
     (if pr_leader C then (- EPERM, s)
      else if pgid_task s cur \<noteq> None then (- EPERM, s)
      else (pg_vnr E cur, upd_proc cur (\<lambda>P. set_special_pids cur (P\<lparr>pr_leader := True\<rparr>)) s))"

definition getpid :: "pgrp_env \<Rightarrow> nat \<Rightarrow> int" where "getpid E cur = pg_vnr E cur"
definition gettid :: "pgrp_env \<Rightarrow> nat \<Rightarrow> int" where "gettid E thread = pg_vnr E thread"
definition getppid :: "pgrp_env \<Rightarrow> process \<Rightarrow> int" where "getppid E C = pg_vnr E (pr_parent C)"

subsection \<open>Steps\<close>

text \<open>
  The calls of any process, and what the rest of the kernel does to the tables: a fork
  gives the child a pid that no process, group or session uses, in the group and session of
  its parent; an exec clears \<open>PF_FORKNOEXEC\<close>; an exit removes the process and gives its
  children another parent; threads come and go.
\<close>

inductive pgrp_step :: "pgrp_env \<Rightarrow> proc_state \<Rightarrow> proc_state \<Rightarrow> bool" for E :: pgrp_env where
  call_setpgid: "proc_of s cur = Some C \<Longrightarrow> pgrp_step E s (snd (setpgid E cur C pid pgid s))"
| call_setsid: "proc_of s cur = Some C \<Longrightarrow> pgrp_step E s (snd (ksys_setsid E cur C s))"
| fork:
    "proc_of s cur = Some C \<Longrightarrow> child \<notin> fst ` set (st_procs s) \<Longrightarrow>
     (\<forall>P \<in> snd ` set (st_procs s). pr_pgrp P \<noteq> child \<and> pr_session P \<noteq> child) \<Longrightarrow>
     pgrp_step E s
       (s\<lparr>st_procs := (child, C\<lparr>pr_parent := cur, pr_leader := False, pr_forknoexec := True\<rparr>) # st_procs s,
          st_threads := (child, child) # st_threads s\<rparr>)"
| exec: "pgrp_step E s (upd_proc p (\<lambda>P. P\<lparr>pr_forknoexec := False\<rparr>) s)"
| exit:
    "pgrp_step E s
       (s\<lparr>st_procs := map (\<lambda>(k, P). (k, if pr_parent P = p then P\<lparr>pr_parent := q\<rparr> else P))
            (filter (\<lambda>(k, P). k \<noteq> p) (st_procs s))\<rparr>)"
| threads: "pgrp_step E s (s\<lparr>st_threads := ts\<rparr>)"

subsection \<open>The invariant\<close>

text \<open>
  Processes are listed once; the processes of a group are in one session; a group that
  bears the pid of a live process is in the session of that process; a session leader leads
  its own session and group.
\<close>

definition same_session_groups :: "proc_state \<Rightarrow> bool" where
  "same_session_groups s \<longleftrightarrow>
     (\<forall>(p, P) \<in> set (st_procs s). \<forall>(q, Q) \<in> set (st_procs s). pr_pgrp P = pr_pgrp Q \<longrightarrow> pr_session P = pr_session Q)"

definition named_groups :: "proc_state \<Rightarrow> bool" where
  "named_groups s \<longleftrightarrow>
     (\<forall>(p, P) \<in> set (st_procs s). \<forall>(q, Q) \<in> set (st_procs s). pr_pgrp Q = p \<longrightarrow> pr_session Q = pr_session P)"

definition leaders_lead :: "proc_state \<Rightarrow> bool" where
  "leaders_lead s \<longleftrightarrow> (\<forall>(p, P) \<in> set (st_procs s). pr_leader P \<longrightarrow> pr_session P = p \<and> pr_pgrp P = p)"

definition pgrp_inv :: "proc_state \<Rightarrow> bool" where
  "pgrp_inv s \<longleftrightarrow>
     distinct (map fst (st_procs s)) \<and> same_session_groups s \<and> named_groups s \<and> leaders_lead s"

lemma proc_of_set: "distinct (map fst (st_procs s)) \<Longrightarrow> proc_of s p = Some P \<longleftrightarrow> (p, P) \<in> set (st_procs s)"
  by (simp add: proc_of_def)

lemma pgrp_inv_iff:
  "pgrp_inv s \<longleftrightarrow> distinct (map fst (st_procs s)) \<and>
     (\<forall>p P. (p, P) \<in> set (st_procs s) \<longrightarrow>
        (pr_leader P \<longrightarrow> pr_session P = p \<and> pr_pgrp P = p) \<and>
        (\<forall>q Q. (q, Q) \<in> set (st_procs s) \<longrightarrow>
           (pr_pgrp P = pr_pgrp Q \<longrightarrow> pr_session P = pr_session Q) \<and>
           (pr_pgrp Q = p \<longrightarrow> pr_session Q = pr_session P)))"
  unfolding pgrp_inv_def same_session_groups_def named_groups_def leaders_lead_def by fast

lemma pgrp_invD:
  assumes "pgrp_inv s" and "(p, P) \<in> set (st_procs s)"
  shows "pr_leader P \<Longrightarrow> pr_session P = p" and "pr_leader P \<Longrightarrow> pr_pgrp P = p"
    and "(q, Q) \<in> set (st_procs s) \<Longrightarrow> pr_pgrp P = pr_pgrp Q \<Longrightarrow> pr_session P = pr_session Q"
    and "(q, Q) \<in> set (st_procs s) \<Longrightarrow> pr_pgrp Q = p \<Longrightarrow> pr_session Q = pr_session P"
    and "(p, Q) \<in> set (st_procs s) \<Longrightarrow> Q = P"
  using assms unfolding pgrp_inv_iff by (blast dest: eq_key_imp_eq_value)+

lemma inv_distinct: "pgrp_inv s \<Longrightarrow> distinct (map fst (st_procs s))"
  by (simp add: pgrp_inv_def)

lemma pgrp_invI:
  assumes "distinct (map fst (st_procs s))"
    and "\<And>p P. (p, P) \<in> set (st_procs s) \<Longrightarrow> pr_leader P \<Longrightarrow> pr_session P = p \<and> pr_pgrp P = p"
    and "\<And>p P q Q. (p, P) \<in> set (st_procs s) \<Longrightarrow> (q, Q) \<in> set (st_procs s) \<Longrightarrow>
           pr_pgrp P = pr_pgrp Q \<Longrightarrow> pr_session P = pr_session Q"
    and "\<And>p P q Q. (p, P) \<in> set (st_procs s) \<Longrightarrow> (q, Q) \<in> set (st_procs s) \<Longrightarrow>
           pr_pgrp Q = p \<Longrightarrow> pr_session Q = pr_session P"
  shows "pgrp_inv s"
  unfolding pgrp_inv_iff using assms by blast

lemma keys_upd: "map fst (st_procs (upd_proc p f s)) = map fst (st_procs s)"
  by (simp add: upd_proc_def comp_def split_beta)

lemma set_upd:
  "(q, Q) \<in> set (st_procs (upd_proc p f s)) \<longleftrightarrow>
     (if q = p then \<exists>P. (p, P) \<in> set (st_procs s) \<and> Q = f P else (q, Q) \<in> set (st_procs s))"
  by (force simp: upd_proc_def)

lemma pgid_task_Some:
  "pgid_task s g = Some G \<Longrightarrow> \<exists>k. (k, G) \<in> set (st_procs s) \<and> pr_pgrp G = g"
  unfolding pgid_task_def by (auto simp: find_Some_iff in_set_conv_nth) metis

lemma pgid_task_None: "pgid_task s g = None \<Longrightarrow> (k, P) \<in> set (st_procs s) \<Longrightarrow> pr_pgrp P \<noteq> g"
  unfolding pgid_task_def by (auto simp: find_None_iff)

text \<open>Moving a process that leads no session into a group of its session.\<close>

lemma move_group_inv:
  assumes inv: "pgrp_inv s" and P: "(p, P) \<in> set (st_procs s)" and nl: "\<not> pr_leader P"
    and g: "g = p \<or> (\<exists>k G. (k, G) \<in> set (st_procs s) \<and> pr_pgrp G = g \<and> pr_session G = pr_session P)"
  shows "pgrp_inv (upd_proc p (\<lambda>P. P\<lparr>pr_pgrp := g\<rparr>) s)"
proof -
  let ?s = "upd_proc p (\<lambda>P. P\<lparr>pr_pgrp := g\<rparr>) s"
  note D = pgrp_invD [OF inv]
  have old: "q \<noteq> p \<Longrightarrow> (q, Q) \<in> set (st_procs s)" "q = p \<Longrightarrow> Q = P\<lparr>pr_pgrp := g\<rparr>"
    if "(q, Q) \<in> set (st_procs ?s)" for q Q
    using that D(5) [OF P] by (auto simp: set_upd split: if_splits)
  have member: "pr_session Q = pr_session P" if "(q, Q) \<in> set (st_procs s)" "pr_pgrp Q = g" for q Q
    using g D(4) [OF P that(1)] D(3) [OF that(1)] that(2) by metis
  have named: "pr_session Q = pr_session P" if "(g, Q) \<in> set (st_procs s)" "g \<noteq> p" for Q
    using g D(4) [OF that(1)] that(2) by metis
  show ?thesis
  proof (rule pgrp_invI)
    show "distinct (map fst (st_procs ?s))" using inv_distinct [OF inv] by (simp add: keys_upd)
  next
    fix q Q
    assume q: "(q, Q) \<in> set (st_procs ?s)" and l: "pr_leader Q"
    then have "q \<noteq> p" using old(2) [OF q] nl by auto
    then show "pr_session Q = q \<and> pr_pgrp Q = q" using D(1,2) [OF old(1) [OF q]] l by blast
  next
    fix q Q r R
    assume q: "(q, Q) \<in> set (st_procs ?s)" and r: "(r, R) \<in> set (st_procs ?s)" and e: "pr_pgrp Q = pr_pgrp R"
    consider "q = p" "r = p" | "q = p" "r \<noteq> p" | "q \<noteq> p" "r = p" | "q \<noteq> p" "r \<noteq> p" by blast
    then show "pr_session Q = pr_session R"
    proof cases
      case 4
      then show ?thesis using D(3) [OF old(1) [OF q] old(1) [OF r]] e by blast
    qed (use old(2) [OF q] old(2) [OF r] member [OF old(1) [OF q]] member [OF old(1) [OF r]] e in auto)
  next
    fix q Q r R
    assume q: "(q, Q) \<in> set (st_procs ?s)" and r: "(r, R) \<in> set (st_procs ?s)" and e: "pr_pgrp R = q"
    consider "q = p" "r = p" | "q = p" "r \<noteq> p" | "q \<noteq> p" "r = p" | "q \<noteq> p" "r \<noteq> p" by blast
    then show "pr_session R = pr_session Q"
    proof cases
      case 1
      then show ?thesis using old(2) [OF q] old(2) [OF r] by simp
    next
      case 2
      then show ?thesis using old(2) [OF q] D(4) [OF P old(1) [OF r]] e by simp
    next
      case 3
      then have "R = P\<lparr>pr_pgrp := g\<rparr>" "q = g" using old(2) [OF r] e by auto
      then show ?thesis using named [of Q] old(1) [OF q] 3 by simp
    next
      case 4
      then show ?thesis using D(4) [OF old(1) [OF q] old(1) [OF r]] e by blast
    qed
  qed
qed

lemma set_special_pids_eq: "set_special_pids p P = P\<lparr>pr_session := p, pr_pgrp := p\<rparr>"
  by (cases P) (simp add: set_special_pids_def Let_def)

lemma setsid_inv:
  assumes inv: "pgrp_inv s" and none: "pgid_task s p = None"
  shows "pgrp_inv (upd_proc p (\<lambda>P. set_special_pids p (P\<lparr>pr_leader := True\<rparr>)) s)" (is "pgrp_inv ?s")
proof (rule pgrp_invI)
  note D = pgrp_invD [OF inv]
  have old: "q \<noteq> p \<Longrightarrow> (q, Q) \<in> set (st_procs s)" "q = p \<Longrightarrow> pr_session Q = p \<and> pr_pgrp Q = p"
    if "(q, Q) \<in> set (st_procs ?s)" for q Q
    using that by (auto simp: set_upd set_special_pids_eq split: if_splits)
  have other: "q \<noteq> p \<Longrightarrow> pr_pgrp Q \<noteq> p" if "(q, Q) \<in> set (st_procs ?s)" for q Q
    using pgid_task_None [OF none] old(1) [OF that] by blast
  show "distinct (map fst (st_procs ?s))" using inv_distinct [OF inv] by (simp add: keys_upd)
  fix q Q assume q: "(q, Q) \<in> set (st_procs ?s)"
  show "pr_leader Q \<Longrightarrow> pr_session Q = q \<and> pr_pgrp Q = q"
    using D(1,2) [OF old(1) [OF q]] old(2) [OF q] by (cases "q = p") auto
  fix r R assume r: "(r, R) \<in> set (st_procs ?s)"
  show "pr_session Q = pr_session R" if "pr_pgrp Q = pr_pgrp R"
    using that D(3) [OF old(1) [OF q] old(1) [OF r]] old(2) [OF q] old(2) [OF r] other [OF q] other [OF r]
    by (cases "q = p"; cases "r = p") auto
  show "pr_session R = pr_session Q" if "pr_pgrp R = q"
    using that D(4) [OF old(1) [OF q] old(1) [OF r]] old(2) [OF q] old(2) [OF r] other [OF q] other [OF r]
    by (cases "q = p"; cases "r = p") auto
qed

text \<open>A change of the table that keeps groups, sessions and leaders of processes that stay.\<close>

lemma sub_inv:
  assumes inv: "pgrp_inv s" and keys: "distinct (map fst (st_procs t))"
    and sub: "\<And>q Q. (q, Q) \<in> set (st_procs t) \<Longrightarrow>
       \<exists>P. (q, P) \<in> set (st_procs s) \<and> pr_pgrp Q = pr_pgrp P \<and> pr_session Q = pr_session P
         \<and> (pr_leader Q \<longrightarrow> pr_leader P)"
  shows "pgrp_inv t"
proof (rule pgrp_invI [OF keys])
  note D = pgrp_invD [OF inv]
  fix q Q assume q: "(q, Q) \<in> set (st_procs t)"
  then obtain P where P: "(q, P) \<in> set (st_procs s)" "pr_pgrp Q = pr_pgrp P" "pr_session Q = pr_session P"
    "pr_leader Q \<longrightarrow> pr_leader P" using sub by blast
  then show "pr_leader Q \<Longrightarrow> pr_session Q = q \<and> pr_pgrp Q = q" using D(1,2) by simp
  fix r R assume r: "(r, R) \<in> set (st_procs t)"
  then obtain S where S: "(r, S) \<in> set (st_procs s)" "pr_pgrp R = pr_pgrp S" "pr_session R = pr_session S"
    using sub by blast
  show "pr_pgrp Q = pr_pgrp R \<Longrightarrow> pr_session Q = pr_session R" using D(3) [OF P(1) S(1)] P S by simp
  show "pr_pgrp R = q \<Longrightarrow> pr_session R = pr_session Q" using D(4) [OF P(1) S(1)] P S by simp
qed

lemma fork_inv:
  assumes inv: "pgrp_inv s" and C: "(cur, C) \<in> set (st_procs s)" and new: "child \<notin> fst ` set (st_procs s)"
    and fresh: "\<And>q P. (q, P) \<in> set (st_procs s) \<Longrightarrow> pr_pgrp P \<noteq> child"
    and t: "st_procs t = (child, C\<lparr>pr_parent := cur, pr_leader := False, pr_forknoexec := True\<rparr>) # st_procs s"
  shows "pgrp_inv t"
proof (rule pgrp_invI)
  note D = pgrp_invD [OF inv]
  show "distinct (map fst (st_procs t))" using inv_distinct [OF inv] new by (simp add: t)
  fix q Q assume q: "(q, Q) \<in> set (st_procs t)"
  define q' Q' where "q' = (if q = child then cur else q)" and "Q' = (if q = child then C else Q)"
  have Q: "(q', Q') \<in> set (st_procs s)" "pr_pgrp Q = pr_pgrp Q'" "pr_session Q = pr_session Q'" "pr_leader Q \<longrightarrow> q' = q \<and> Q' = Q"
    using q C new by (auto simp: t q'_def Q'_def image_iff)
  show "pr_leader Q \<Longrightarrow> pr_session Q = q \<and> pr_pgrp Q = q" using D(1,2) [OF Q(1)] Q(4) by auto
  fix r R assume r: "(r, R) \<in> set (st_procs t)"
  define R' where "R' = (if r = child then C else R)"
  have R: "((if r = child then cur else r), R') \<in> set (st_procs s)" "pr_pgrp R = pr_pgrp R'" "pr_session R = pr_session R'"
    using r C new by (auto simp: t R'_def image_iff)
  show "pr_session Q = pr_session R" if "pr_pgrp Q = pr_pgrp R" using that D(3) [OF Q(1) R(1)] Q R by simp
  show "pr_session R = pr_session Q" if "pr_pgrp R = q"
  proof -
    have "q \<noteq> child" using fresh [OF R(1)] R(2) that by auto
    then show ?thesis using that D(4) [OF Q(1) R(1)] Q R by (simp add: q'_def)
  qed
qed

lemma find_task_proc:
  "find_task_by_vpid E s n = Some (t, p, P) \<Longrightarrow> proc_of s p = Some P"
  by (auto simp: find_task_by_vpid_def split: option.splits)

text \<open>What \<open>setpgid\<close> does to the table, whatever its arguments.\<close>

definition setpgid_left :: "proc_state \<Rightarrow> process \<Rightarrow> proc_state \<Rightarrow> bool" where
  "setpgid_left s C t \<longleftrightarrow> t = s \<or>
    (\<exists>p P g. (p, P) \<in> set (st_procs s) \<and> \<not> pr_leader P \<and> pr_session P = pr_session C
       \<and> (g = p \<or> (\<exists>k G. (k, G) \<in> set (st_procs s) \<and> pr_pgrp G = g \<and> pr_session G = pr_session P))
       \<and> t = upd_proc p (\<lambda>P. P\<lparr>pr_pgrp := g\<rparr>) s)"

lemma setpgid_left_if:
  "(b \<Longrightarrow> setpgid_left s C (snd x)) \<Longrightarrow> (\<not> b \<Longrightarrow> setpgid_left s C (snd y)) \<Longrightarrow>
   setpgid_left s C (snd (if b then x else y))"
  by simp

lemma setpgid_left_err: "setpgid_left s C (snd (e, s))"
  by (simp add: setpgid_left_def)

lemma setpgid_left_same: "setpgid_left s C s"
  by (simp add: setpgid_left_def)

lemma setpgid_left_move:
  assumes "(p, P) \<in> set (st_procs s)" and "\<not> pr_leader P" and "pr_session P = pr_session C"
    and "g = p \<or> (\<exists>G. pgid_task s g = Some G \<and> pr_session G = pr_session C)"
  shows "setpgid_left s C (upd_proc p (\<lambda>P. P\<lparr>pr_pgrp := g\<rparr>) s)"
proof -
  have "g = p \<or> (\<exists>k G. (k, G) \<in> set (st_procs s) \<and> pr_pgrp G = g \<and> pr_session G = pr_session P)"
    using assms(3,4) pgid_task_Some by metis
  then show ?thesis unfolding setpgid_left_def
    using assms(1-3) by (intro disjI2 exI [of _ p] exI [of _ P] exI [of _ g]) simp
qed

lemma setpgid_effect:
  assumes inv: "pgrp_inv s" and C: "proc_of s cur = Some C"
  shows "setpgid_left s C (snd (setpgid E cur C pid pgid s))"
proof -
  note d = inv_distinct [OF inv]
  define pid' where "pid' = (if pid = 0 then pg_vnr E cur else pid)"
  define pgid' where "pgid' = (if pgid = 0 then pid' else pgid)"
  show ?thesis
  proof (cases "find_task_by_vpid E s pid'")
    case None
    then show ?thesis unfolding setpgid_def Let_def pid'_def [symmetric] pgid'_def [symmetric]
      by (simp add: setpgid_left_def)
  next
    case (Some tpP)
    then obtain t p P where f: "find_task_by_vpid E s pid' = Some (t, p, P)" by (cases tpP) auto
    have P: "(p, P) \<in> set (st_procs s)" using find_task_proc [OF f] d by (simp add: proc_of_set)
    have self: "p = cur \<Longrightarrow> P = C" using C find_task_proc [OF f] by simp
    note go = setpgid_def Let_def pid'_def [symmetric] pgid'_def [symmetric] f option.case prod.case
    show ?thesis
    proof (cases "pgid' = pid'")
      case True
      show ?thesis unfolding go
        by (intro setpgid_left_if setpgid_left_err) (use True P self in \<open>auto intro: setpgid_left_move setpgid_left_same\<close>)
    next
      case False
      show ?thesis
      proof (cases "pg_find_vpid E pgid'")
        case None
        show ?thesis unfolding go
          by (intro setpgid_left_if setpgid_left_err) (use False None in \<open>auto simp: setpgid_left_same\<close>)
      next
        case (Some g)
        show ?thesis unfolding go
          by (intro setpgid_left_if setpgid_left_err)
            (use False Some P self in \<open>auto intro: setpgid_left_move setpgid_left_same split: option.splits\<close>)
      qed
    qed
  qed
qed

lemma pgrp_step_inv:
  assumes inv: "pgrp_inv s" and "pgrp_step E s t"
  shows "pgrp_inv t"
  using assms(2)
proof cases
  case (call_setpgid cur C pid pgid)
  have "setpgid_left s C t" unfolding call_setpgid(1) by (rule setpgid_effect [OF inv call_setpgid(2)])
  then show ?thesis using move_group_inv [OF inv] inv unfolding setpgid_left_def by blast
next
  case (call_setsid cur C)
  then show ?thesis using setsid_inv [OF inv, of cur] inv by (simp add: ksys_setsid_def)
next
  case (fork cur C child)
  have "(cur, C) \<in> set (st_procs s)" using fork(2) by (simp add: proc_of_def map_of_SomeD)
  then show ?thesis
  proof (rule fork_inv [OF inv _ fork(3)])
    show "pr_pgrp P \<noteq> child" if "(q, P) \<in> set (st_procs s)" for q P using fork(4) that by force
  qed (simp add: fork(1))
next
  case (exec p)
  then show ?thesis
    using inv_distinct [OF inv] by (intro sub_inv [OF inv]) (auto simp: keys_upd set_upd split: if_splits)
next
  case (exit p q)
  have "distinct (map fst (filter (\<lambda>(k, P). k \<noteq> p) (st_procs s)))"
    using inv_distinct [OF inv] by (simp add: distinct_map_filter)
  then have "distinct (map fst (st_procs t))" by (simp add: exit comp_def split_beta)
  then show ?thesis by (rule sub_inv [OF inv]) (auto simp: exit)
next
  case (threads ts)
  then show ?thesis using inv by (simp add: pgrp_inv_def same_session_groups_def named_groups_def leaders_lead_def)
qed

interpretation pgrp_sys: step_system "pgrp_step E" pgrp_inv for E
  by unfold_locales (rule pgrp_step_inv)

subsection \<open>Properties\<close>

text \<open>C25: from a consistent process table, whatever calls, forks, execs and exits follow: the
  processes of a group are all in one session, and a session leader leads its own session
  and its own group.\<close>
theorem groups_stay_in_their_session:
  assumes "pgrp_inv s" and "reach (pgrp_step E) s t" and "(p, P) \<in> set (st_procs t)"
    and "(q, Q) \<in> set (st_procs t)"
  shows "(pr_pgrp P = pr_pgrp Q \<longrightarrow> pr_session P = pr_session Q)
    \<and> (pr_leader P \<longrightarrow> pr_session P = p \<and> pr_pgrp P = p)"
proof -
  have "pgrp_inv t" using pgrp_sys.reach_keeps [OF assms(2)] assms(1) by blast
  then show ?thesis using pgrp_invD [OF _ assms(3)] assms(4) by blast
qed

text \<open>Process 1 leads session 1; its child 2 moves to a group of its own.\<close>

definition sample_pgrp_env :: pgrp_env where
  "sample_pgrp_env =
     \<lparr>pg_vnr = int, pg_find_vpid = (\<lambda>n. if 0 < n then Some (nat n) else None),
      pg_setpgid_hook = (\<lambda>p g. 0), pg_getpgid_hook = (\<lambda>p. 0), pg_getsid_hook = (\<lambda>p. 0)\<rparr>"

definition sample_init :: process where
  "sample_init = \<lparr>pr_parent = 0, pr_pgrp = 1, pr_session = 1, pr_leader = True, pr_forknoexec = False\<rparr>"

definition sample_table :: "nat \<Rightarrow> proc_state" where
  "sample_table g =
     \<lparr>st_threads = [(1, 1), (2, 2)],
      st_procs = [(1, sample_init),
        (2, \<lparr>pr_parent = 1, pr_pgrp = g, pr_session = 1, pr_leader = False, pr_forknoexec = True\<rparr>)]\<rparr>"

lemma sample_table_inv: "pgrp_inv (sample_table 1)"
  by (rule pgrp_invI) (auto simp: sample_table_def sample_init_def)

lemma sample_setpgid: "setpgid sample_pgrp_env 1 sample_init 2 0 (sample_table 1) = (0, sample_table 2)"
  by (simp add: setpgid_def find_task_by_vpid_def proc_of_def upd_proc_def sample_pgrp_env_def
      sample_table_def sample_init_def)

theorem groups_stay_in_their_session_witness:
  "reach (pgrp_step sample_pgrp_env) (sample_table 1) (sample_table 2)
   \<and> pr_session sample_init = 1 \<and> pr_pgrp sample_init = 1"
proof -
  have "pgrp_step sample_pgrp_env (sample_table 1) (snd (setpgid sample_pgrp_env 1 sample_init 2 0 (sample_table 1)))"
    by (rule call_setpgid) (simp add: proc_of_def sample_table_def)
  then have r: "reach (pgrp_step sample_pgrp_env) (sample_table 1) (sample_table 2)"
    unfolding sample_setpgid snd_conv by (rule reach_one)
  have m: "(1, sample_init) \<in> set (st_procs (sample_table 2))" by (simp add: sample_table_def)
  have "pr_leader sample_init" by (simp add: sample_init_def)
  then show ?thesis using groups_stay_in_their_session [OF sample_table_inv r m m] r by simp
qed

lemma proc_of_upd: "proc_of (upd_proc p f s) q = (if q = p then map_option f (proc_of s q) else proc_of s q)"
proof -
  have "map_of (map (\<lambda>(k, v). (k, if k = p then f v else v)) xs) q =
      (if q = p then map_option f (map_of xs q) else map_of xs q)" for xs
    by (induction xs) auto
  then show ?thesis by (simp add: proc_of_def upd_proc_def)
qed

text \<open>The members of group \<open>p\<close> after an update that puts \<open>p\<close> into it, if nobody was in it.\<close>

lemma group_upd:
  assumes "distinct (map fst (st_procs s))" and "\<And>P. pr_pgrp (f P) = p"
    and "\<And>q Q. (q, Q) \<in> set (st_procs s) \<Longrightarrow> pr_pgrp Q \<noteq> p"
  shows "filter (\<lambda>(q, Q). pr_pgrp Q = p) (st_procs (upd_proc p f s)) =
    (case proc_of s p of None \<Rightarrow> [] | Some P \<Rightarrow> [(p, f P)])"
proof -
  have "filter (\<lambda>(q, Q). pr_pgrp Q = p) (map (\<lambda>(k, v). (k, if k = p then f v else v)) xs) =
      (case map_of xs p of None \<Rightarrow> [] | Some P \<Rightarrow> [(p, f P)])"
    if "distinct (map fst xs)" "\<And>q Q. (q, Q) \<in> set xs \<Longrightarrow> pr_pgrp Q \<noteq> p" for xs
    using that
  proof (induction xs)
    case (Cons x xs)
    obtain k v where x: "x = (k, v)" by fastforce
    have "map_of xs p = None" if "k = p" using Cons.prems(1) that x by (simp add: map_of_eq_None_iff)
    moreover have "pr_pgrp v \<noteq> p" using Cons.prems(2) x by auto
    moreover have "filter (\<lambda>(q, Q). pr_pgrp Q = p) (map (\<lambda>(k, v). (k, if k = p then f v else v)) xs) =
      (case map_of xs p of None \<Rightarrow> [] | Some P \<Rightarrow> [(p, f P)])"
      using Cons.prems by (intro Cons.IH) auto
    ultimately show ?case using assms(2) by (cases "k = p") (simp_all add: x)
  qed simp
  from this [OF assms(1,3)] show ?thesis by (simp add: upd_proc_def proc_of_def)
qed

text \<open>\<open>setsid\<close> succeeds exactly for a process that leads no session and whose pid names no
  group; then the process leads a new session and is the only member of its group, no other
  process changes, and \<open>getsid\<close> and \<open>getpgid\<close> of the process give its pid. Otherwise the
  result is \<open>-EPERM\<close> and nothing changes.\<close>
theorem setsid_new_session:
  assumes "pgrp_inv s" and "proc_of s cur = Some C" and "ksys_setsid E cur C s = (r, t)"
    and "0 < pg_vnr E cur"
  shows "if pr_leader C \<or> pgid_task s cur \<noteq> None then r = - EPERM \<and> t = s
    else r = pg_vnr E cur
      \<and> proc_of t cur = Some (C\<lparr>pr_leader := True, pr_session := cur, pr_pgrp := cur\<rparr>)
      \<and> (\<forall>q. q \<noteq> cur \<longrightarrow> proc_of t q = proc_of s q)
      \<and> filter (\<lambda>(q, Q). pr_pgrp Q = cur) (st_procs t)
          = [(cur, C\<lparr>pr_leader := True, pr_session := cur, pr_pgrp := cur\<rparr>)]
      \<and> getsid E (the (proc_of t cur)) 0 t = r \<and> do_getpgid E (the (proc_of t cur)) 0 t = r"
proof (cases "pr_leader C \<or> pgid_task s cur \<noteq> None")
  case True
  then show ?thesis using assms(3) by (auto simp: ksys_setsid_def split: if_splits)
next
  case False
  let ?C = "C\<lparr>pr_leader := True, pr_session := cur, pr_pgrp := cur\<rparr>"
  let ?f = "\<lambda>P. set_special_pids cur (P\<lparr>pr_leader := True\<rparr>)"
  have t: "r = pg_vnr E cur" "t = upd_proc cur ?f s" using assms(3) False by (auto simp: ksys_setsid_def)
  have proc: "proc_of t cur = Some ?C" "q \<noteq> cur \<Longrightarrow> proc_of t q = proc_of s q" for q
    using assms(2) by (simp_all add: t proc_of_upd set_special_pids_eq)
  have none: "(q, Q) \<in> set (st_procs s) \<Longrightarrow> pr_pgrp Q \<noteq> cur" for q Q using False pgid_task_None by blast
  have "filter (\<lambda>(q, Q). pr_pgrp Q = cur) (st_procs t) = [(cur, ?C)]"
    using group_upd [OF inv_distinct [OF assms(1)], of ?f cur] none assms(2)
    by (simp add: t(2) set_special_pids_eq)
  then show ?thesis using False proc t(1) by (simp add: getsid_def do_getpgid_def)
qed

theorem setsid_new_session_witness:
  "ksys_setsid sample_pgrp_env 1 sample_init (sample_table 1) = (- EPERM, sample_table 1)
   \<and> fst (ksys_setsid sample_pgrp_env 2 (sample_init\<lparr>pr_leader := False\<rparr>)
        \<lparr>st_threads = [], st_procs = [(2, sample_init\<lparr>pr_leader := False\<rparr>)]\<rparr>) = 2"
proof -
  let ?s = "\<lparr>st_threads = [], st_procs = [(2, sample_init\<lparr>pr_leader := False\<rparr>)]\<rparr>"
  have "pgrp_inv ?s" by (rule pgrp_invI) (auto simp: sample_init_def)
  moreover have "proc_of ?s 2 = Some (sample_init\<lparr>pr_leader := False\<rparr>)" by (simp add: proc_of_def)
  ultimately have "fst (ksys_setsid sample_pgrp_env 2 (sample_init\<lparr>pr_leader := False\<rparr>) ?s) = 2"
    using setsid_new_session [OF _ _ prod.collapse [symmetric], of ?s 2 "sample_init\<lparr>pr_leader := False\<rparr>" sample_pgrp_env]
    by (simp add: sample_pgrp_env_def sample_init_def pgid_task_def)
  then show ?thesis by (simp add: ksys_setsid_def sample_init_def)
qed

end
