(* ===== verification/Sys_Uts.thy ===== *)
theory Sys_Uts
  imports Text_Format
begin

text \<open>
  The system names in \<open>Practica1/linux-6.6.44/kernel/sys.c\<close>: \<open>override_release\<close>,
  \<open>newuname\<close>, \<open>uname\<close>, \<open>olduname\<close>, \<open>sethostname\<close>, \<open>gethostname\<close> and \<open>setdomainname\<close>. The
  names are the 65-byte fields of \<open>struct new_utsname\<close>; the capability check, the copies
  from and to user memory, the personality and the build's release are parameters.
\<close>

subsection \<open>Data\<close>

definition NEW_UTS_LEN :: nat where "NEW_UTS_LEN = 64"
definition OLD_UTS_LEN :: nat where "OLD_UTS_LEN = 8"

record utsname =
  u_sysname :: string
  u_nodename :: string
  u_release :: string
  u_version :: string
  u_machine :: string
  u_domainname :: string

text \<open>
  \<open>ue_uncopied a n\<close>: a \<open>copy_to_user\<close> of \<open>n\<close> bytes to \<open>a\<close> fails. \<open>ue_user a n\<close>: the \<open>n\<close> bytes
  at the user address \<open>a\<close>, \<open>None\<close> if they cannot be read. \<open>ue_compat_machine\<close>:
  \<open>COMPAT_UTS_MACHINE\<close> where the architecture defines it.
\<close>

record uts_env =
  ue_capable :: bool
  ue_uname26 :: bool
  ue_release :: string
  ue_patchlevel :: nat
  ue_uncopied :: "u64 \<Rightarrow> nat \<Rightarrow> bool"
  ue_user :: "u64 \<Rightarrow> nat \<Rightarrow> string option"
  ue_per_linux32 :: bool
  ue_compat_machine :: "string option"

text \<open>Bytes copied to user memory: address and contents.\<close>

type_synonym user_copies = "(u64 \<times> string) list"

subsection \<open>The release for old programs\<close>

text \<open>The loop that skips the first three numbers of the release.\<close>

fun release_rest :: "nat \<Rightarrow> string \<Rightarrow> string" where
  "release_rest ndots [] = []"
| "release_rest ndots (c # cs) =
     (if c = CHR ''.'' \<and> Suc ndots \<ge> 3 then c # cs
      else if \<not> is_digit c \<and> c \<noteq> CHR ''.'' then c # cs
      else release_rest (if c = CHR ''.'' then Suc ndots else ndots) cs)"

definition release26 :: "uts_env \<Rightarrow> string" where
  "release26 E = ''2.6.'' @ dec (ue_patchlevel E + 60) @ release_rest 0 (ue_release E)"

text \<open>
  \<open>scnprintf\<close> into a buffer of 65 zero bytes, limited to \<open>clamp(len, 1, 65)\<close>; the bytes
  copied are the text that fitted and the zero byte after it. The result is what
  \<open>copy_to_user\<close> reports, zero or not.
\<close>

definition override_release :: "uts_env \<Rightarrow> u64 \<Rightarrow> nat \<Rightarrow> bool \<times> user_copies" where
  "override_release E release len =
     (if ue_uname26 E then
        (let copy = max 1 (min len 65);
             t = take (copy - 1) (release26 E);
             buf = t @ replicate (65 - length t) NUL;
             copy = length t
         in if ue_uncopied E release (copy + 1) then (True, [])
            else (False, [(release, take (copy + 1) buf)]))
      else (False, []))"

text \<open>The machine name for programs that expect a 32-bit kernel.\<close>

definition override_architecture :: "uts_env \<Rightarrow> u64 \<Rightarrow> bool \<times> user_copies" where
  "override_architecture E machine =
     (case ue_compat_machine E of
        None \<Rightarrow> (False, [])
      | Some m \<Rightarrow>
          if ue_per_linux32 E then
            (if ue_uncopied E machine (length m + 1) then (True, []) else (False, [(machine, m @ [NUL])]))
          else (False, []))"

subsection \<open>Reading the names\<close>

definition newuname :: "uts_env \<Rightarrow> utsname \<Rightarrow> u64 \<Rightarrow> int \<times> user_copies" where
  "newuname E u name =
     (let tmp = u_sysname u @ u_nodename u @ u_release u @ u_version u @ u_machine u @ u_domainname u in
      if ue_uncopied E name (length tmp) then (- EFAULT, [])
      else
        (let (fail, cs) = override_release E (name + 130) 65 in
         if fail then (- EFAULT, (name, tmp) # cs)
         else
           (let (fail, cs') = override_architecture E (name + 260) in
            if fail then (- EFAULT, (name, tmp) # cs) else (0, (name, tmp) # cs @ cs'))))"

definition uname :: "uts_env \<Rightarrow> utsname \<Rightarrow> u64 \<Rightarrow> int \<times> user_copies" where
  "uname E u name =
     (if name = 0 then (- EFAULT, [])
      else
        (let tmp = u_sysname u @ u_nodename u @ u_release u @ u_version u @ u_machine u in
         if ue_uncopied E name (length tmp) then (- EFAULT, [])
         else
           (let (fail, cs) = override_release E (name + 130) 65 in
            if fail then (- EFAULT, (name, tmp) # cs)
            else
              (let (fail, cs') = override_architecture E (name + 260) in
               if fail then (- EFAULT, (name, tmp) # cs) else (0, (name, tmp) # cs @ cs')))))"

text \<open>The oldest form: nine bytes per field, of which the last stays zero.\<close>

definition olduname :: "uts_env \<Rightarrow> utsname \<Rightarrow> u64 \<Rightarrow> int \<times> user_copies" where
  "olduname E u name =
     (if name = 0 then (- EFAULT, [])
      else
        (let cut_field = (\<lambda>f. take OLD_UTS_LEN f @ [NUL]);
             tmp = cut_field (u_sysname u) @ cut_field (u_nodename u) @ cut_field (u_release u)
               @ cut_field (u_version u) @ cut_field (u_machine u)
         in if ue_uncopied E name (length tmp) then (- EFAULT, [])
            else
              (let (fail, cs) = override_architecture E (name + 36) in
               if fail then (- EFAULT, [(name, tmp)])
               else
                 (let (fail, cs') = override_release E (name + 18) 9 in
                  if fail then (- EFAULT, (name, tmp) # cs) else (0, (name, tmp) # cs @ cs')))))"

subsection \<open>Setting the names\<close>

text \<open>\<open>memcpy\<close> of the name and \<open>memset\<close> of the rest of the field.\<close>

definition fill_field :: "string \<Rightarrow> nat \<Rightarrow> string \<Rightarrow> string" where
  "fill_field tmp len field = take len tmp @ replicate (length field - len) NUL"

definition sethostname :: "uts_env \<Rightarrow> u64 \<Rightarrow> int \<Rightarrow> utsname \<Rightarrow> int \<times> utsname" where
  "sethostname E name len u =
     (if \<not> ue_capable E then (- EPERM, u)
      else if len < 0 \<or> len > int NEW_UTS_LEN then (- EINVAL, u)
      else
        (case ue_user E name (nat len) of
           None \<Rightarrow> (- EFAULT, u)
         | Some tmp \<Rightarrow> (0, u\<lparr>u_nodename := fill_field tmp (nat len) (u_nodename u)\<rparr>)))"

definition setdomainname :: "uts_env \<Rightarrow> u64 \<Rightarrow> int \<Rightarrow> utsname \<Rightarrow> int \<times> utsname" where
  "setdomainname E name len u =
     (if \<not> ue_capable E then (- EPERM, u)
      else if len < 0 \<or> len > int NEW_UTS_LEN then (- EINVAL, u)
      else
        (case ue_user E name (nat len) of
           None \<Rightarrow> (- EFAULT, u)
         | Some tmp \<Rightarrow> (0, u\<lparr>u_domainname := fill_field tmp (nat len) (u_domainname u)\<rparr>)))"

definition gethostname :: "uts_env \<Rightarrow> u64 \<Rightarrow> int \<Rightarrow> utsname \<Rightarrow> int \<times> user_copies" where
  "gethostname E name len u =
     (if len < 0 then (- EINVAL, [])
      else
        (let i = 1 + int (length (text_upto_nul (u_nodename u)));
             i = (if i > len then len else i)
         in if ue_uncopied E name (nat i) then (- EFAULT, [])
            else (0, [(name, take (nat i) (u_nodename u))])))"

subsection \<open>Fields stay C strings\<close>

text \<open>Every field has 65 bytes, the last of which is zero.\<close>

definition field_ok :: "string \<Rightarrow> bool" where
  "field_ok f \<longleftrightarrow> length f = Suc NEW_UTS_LEN \<and> f ! NEW_UTS_LEN = NUL"

definition uts_ok :: "utsname \<Rightarrow> bool" where
  "uts_ok u \<longleftrightarrow> field_ok (u_sysname u) \<and> field_ok (u_nodename u) \<and> field_ok (u_release u)
     \<and> field_ok (u_version u) \<and> field_ok (u_machine u) \<and> field_ok (u_domainname u)"

text \<open>The copies return as many bytes as were asked for.\<close>

definition user_lengths :: "uts_env \<Rightarrow> bool" where
  "user_lengths E \<longleftrightarrow> (\<forall>a n t. ue_user E a n = Some t \<longrightarrow> length t = n)"

lemma fill_field_ok: "field_ok f \<Longrightarrow> length tmp = len \<Longrightarrow> len \<le> NEW_UTS_LEN \<Longrightarrow> field_ok (fill_field tmp len f)"
  by (auto simp: field_ok_def fill_field_def nth_append)

lemma text_of_filled:
  assumes "field_ok f" and "length tmp = len" and "len \<le> NEW_UTS_LEN"
  shows "text_upto_nul (fill_field tmp len f) = text_upto_nul tmp"
    and "take (Suc (length (text_upto_nul tmp))) (fill_field tmp len f) = text_upto_nul tmp @ [NUL]"
proof -
  have rep: "replicate (length f - len) NUL = NUL # replicate (NEW_UTS_LEN - len) NUL"
    using assms by (simp add: field_ok_def Suc_diff_le)
  then have f: "fill_field tmp len f = tmp @ NUL # replicate (NEW_UTS_LEN - len) NUL"
    using assms(2) by (simp add: fill_field_def)
  show "text_upto_nul (fill_field tmp len f) = text_upto_nul tmp"
    unfolding f text_upto_nul_def
    by (cases "NUL \<in> set tmp") (auto simp: takeWhile_append1 takeWhile_append2 takeWhile_tail)
  have "take (Suc (length (takeWhile (\<lambda>c. c \<noteq> NUL) t))) (t @ NUL # r) = takeWhile (\<lambda>c. c \<noteq> NUL) t @ [NUL]" for t r
    by (induction t) auto
  then show "take (Suc (length (text_upto_nul tmp))) (fill_field tmp len f) = text_upto_nul tmp @ [NUL]"
    unfolding f text_upto_nul_def .
qed

inductive uts_step :: "uts_env \<Rightarrow> utsname \<Rightarrow> utsname \<Rightarrow> bool" for E :: uts_env where
  "user_lengths E \<Longrightarrow> uts_step E u (snd (sethostname E name len u))"
| "user_lengths E \<Longrightarrow> uts_step E u (snd (setdomainname E name len u))"

inductive_cases uts_stepE: "uts_step E u v"

lemma uts_step_ok: "uts_ok u \<Longrightarrow> uts_step E u v \<Longrightarrow> uts_ok v"
  by (erule uts_stepE)
    (auto simp: sethostname_def setdomainname_def uts_ok_def user_lengths_def nat_le_iff
      intro!: fill_field_ok split: option.splits)

interpretation uts_sys: step_system "uts_step E" uts_ok for E
  by unfold_locales (rule uts_step_ok)

subsection \<open>Properties\<close>

text \<open>C30: whatever names were set before, by any callers: a host name that \<open>sethostname\<close> accepts
  is what \<open>gethostname\<close> returns, up to its first zero byte, with the terminating zero byte
  if the buffer has room for it and cut to the buffer otherwise; the other names do not
  change.\<close>
theorem hostname_round_trip:
  assumes "uts_ok u" and "reach (uts_step E) u v" and "user_lengths E"
    and "sethostname E name (int (length t)) v = (0, w)" and "ue_user E name (length t) = Some t"
    and "0 \<le> n" and "\<not> ue_uncopied E' buf (nat (min (int (Suc (length (text_upto_nul t)))) n))"
  shows "gethostname E' buf n w = (0, [(buf, take (nat n) (text_upto_nul t @ [NUL]))])
    \<and> w = v\<lparr>u_nodename := u_nodename w\<rparr> \<and> uts_ok w"
proof -
  have v: "uts_ok v" using uts_sys.reach_keeps [OF assms(2)] assms(1) by blast
  have len: "length t \<le> NEW_UTS_LEN" and w: "w = v\<lparr>u_nodename := fill_field t (length t) (u_nodename v)\<rparr>"
    using assms(4,5) by (auto simp: sethostname_def split: if_splits)
  have ok: "field_ok (u_nodename v)" using v by (simp add: uts_ok_def)
  note filled = text_of_filled [OF ok refl len]
  have min_len: "nat (min (int (Suc (length (text_upto_nul t)))) n) = min (nat n) (Suc (length (text_upto_nul t)))"
    using assms(6) by (auto simp: min_def nat_le_iff nat_add_distrib)
  have "take (nat n) (take (Suc (length (text_upto_nul t))) (u_nodename w)) = take (nat n) (text_upto_nul t @ [NUL])"
    using filled(2) by (simp add: w)
  then have "take (nat (min (int (Suc (length (text_upto_nul t)))) n)) (u_nodename w) =
      take (nat n) (text_upto_nul t @ [NUL])"
    unfolding take_take min_len .
  moreover have "(if 1 + int (length (text_upto_nul t)) > n then n else 1 + int (length (text_upto_nul t))) =
      min (int (Suc (length (text_upto_nul t)))) n" by (simp add: min_def)
  moreover have "uts_ok w" using v fill_field_ok [OF ok refl len] by (simp add: w uts_ok_def)
  ultimately show ?thesis using assms(6,7) filled(1) by (simp add: gethostname_def w Let_def)
qed

definition sample_uts_env :: uts_env where
  "sample_uts_env =
     \<lparr>ue_capable = True, ue_uname26 = True, ue_release = ''6.6.44-usac'', ue_patchlevel = 6,
      ue_uncopied = (\<lambda>a n. False), ue_user = (\<lambda>a n. Some (replicate n (CHR ''h''))), ue_per_linux32 = True,
      ue_compat_machine = Some ''i686''\<rparr>"

text \<open>The name the system reports, set in \<open>include/linux/uts.h\<close>.\<close>

definition UTS_SYSNAME :: string where "UTS_SYSNAME = ''USAC Linux''"

definition sample_uts :: utsname where
  "sample_uts =
     \<lparr>u_sysname = UTS_SYSNAME @ replicate 55 NUL, u_nodename = replicate 65 NUL, u_release = replicate 65 NUL,
      u_version = replicate 65 NUL, u_machine = replicate 65 NUL, u_domainname = replicate 65 NUL\<rparr>"

lemma sample_uts_ok: "uts_ok sample_uts"
  by (simp add: uts_ok_def field_ok_def sample_uts_def UTS_SYSNAME_def NEW_UTS_LEN_def nth_append)

theorem hostname_round_trip_witness:
  "gethostname sample_uts_env 8 2 (snd (sethostname sample_uts_env 4 3 sample_uts)) = (0, [(8, ''hh'')])"
proof -
  have s: "sethostname sample_uts_env 4 (int (length ''hhh'')) sample_uts =
      (0, snd (sethostname sample_uts_env 4 3 sample_uts))"
    by (simp add: sethostname_def sample_uts_env_def NEW_UTS_LEN_def)
  have "user_lengths sample_uts_env" "ue_user sample_uts_env 4 (length ''hhh'') = Some ''hhh''"
    "text_upto_nul ''hhh'' = ''hhh''"
    by (auto simp: user_lengths_def sample_uts_env_def text_upto_nul_def numeral_3_eq_3)
  then show ?thesis
    using hostname_round_trip [OF sample_uts_ok reach_refl _ s, of 2 sample_uts_env 8]
    by (simp add: sample_uts_env_def)
qed

text \<open>The release that \<open>uname\<close> reports to a program with \<open>UNAME26\<close> is \<open>2.6.\<close> and the
  patch level plus 60, followed by the build's release from its third dot or its first
  character that is neither digit nor dot; it is cut to the field and ends with a zero byte
  inside it, and what follows the three numbers is copied unchanged.\<close>
theorem old_release_fits:
  assumes "ue_uname26 E" and "override_release E a len = (False, [(a, bs)])" and "0 < len" and "len \<le> 65"
  shows "length bs \<le> len \<and> last bs = NUL \<and> butlast bs = take (len - 1) (release26 E)
    \<and> release26 E = ''2.6.'' @ dec (ue_patchlevel E + 60) @ release_rest 0 (ue_release E)
    \<and> (\<exists>pre. ue_release E = pre @ release_rest 0 (ue_release E)
         \<and> list_all (\<lambda>c. is_digit c \<or> c = CHR ''.'') pre)"
proof -
  let ?t = "take (len - 1) (release26 E)"
  have l: "max 1 (min len 65) = len" "max (Suc 0) (min len 65) = len" using assms(3,4) by auto
  have "bs = take (Suc (length ?t)) (?t @ replicate (65 - length ?t) NUL)"
    using assms(1,2) by (simp add: override_release_def Let_def l split: if_splits)
  moreover have "replicate (65 - length ?t) NUL = NUL # replicate (64 - length ?t) NUL"
    using assms(3,4) by (simp add: replicate_Suc [symmetric] Suc_diff_le del: replicate.simps)
  ultimately have "bs = take (Suc (length ?t)) (?t @ NUL # replicate (64 - length ?t) NUL)" by (simp only:)
  also have "take (Suc (length t)) (t @ NUL # r) = t @ [NUL]" for t r by simp
  finally have bs: "bs = ?t @ [NUL]" .
  have "\<exists>pre. r = pre @ release_rest k r \<and> list_all (\<lambda>c. is_digit c \<or> c = CHR ''.'') pre" for r k
  proof (induction k r rule: release_rest.induct)
    case (2 k c cs)
    show ?case
    proof (cases "c = CHR ''.'' \<and> Suc k \<ge> 3 \<or> \<not> is_digit c \<and> c \<noteq> CHR ''.''")
      case True
      then show ?thesis by (intro exI [of _ "[]"]) auto
    next
      case False
      then obtain pre where "cs = pre @ release_rest (if c = CHR ''.'' then Suc k else k) cs"
        "list_all (\<lambda>c. is_digit c \<or> c = CHR ''.'') pre" using 2 by auto
      then show ?thesis using False by (intro exI [of _ "c # pre"]) auto
    qed
  qed simp
  then show ?thesis using assms(3) unfolding bs by (simp add: release26_def)
qed

theorem old_release_fits_witness:
  "override_release sample_uts_env 8 9 = (False, [(8, ''2.6.66-u'' @ [NUL])]) \<and> last (''2.6.66-u'' @ [NUL]) = NUL"
proof -
  have r: "override_release sample_uts_env 8 9 = (False, [(8, ''2.6.66-u'' @ [NUL])])"
    by code_simp
  show ?thesis using old_release_fits [OF _ r] r by (simp add: sample_uts_env_def)
qed

end
