(* ===== verification/Sys_Rlimit.thy ===== *)
theory Sys_Rlimit
  imports Kernel_Prelude
begin

text \<open>
  Resource limits in \<open>Practica1/linux-6.6.44/kernel/sys.c\<close>: \<open>do_prlimit\<close>, the native and
  the compat \<open>getrlimit\<close> and \<open>setrlimit\<close>, both \<open>old_getrlimit\<close>, the 64-bit conversions,
  \<open>check_prlimit_permission\<close> and \<open>prlimit64\<close>. The state is the table of the tasks' limits;
  capabilities, hooks and user memory are parameters.
\<close>

subsection \<open>Data\<close>

record rlimit =
  rlim_cur :: u64
  rlim_max :: u64

definition RLIM_INFINITY :: u64 where "RLIM_INFINITY = - 1"
definition RLIM64_INFINITY :: u64 where "RLIM64_INFINITY = - 1"
definition COMPAT_RLIM_INFINITY :: u32 where "COMPAT_RLIM_INFINITY = 0xffffffff"
definition RLIM_NLIMITS :: nat where "RLIM_NLIMITS = 16"
definition RLIMIT_CPU :: nat where "RLIMIT_CPU = 0"
definition RLIMIT_NOFILE :: nat where "RLIMIT_NOFILE = 7"

datatype prlimit_flag = LSM_PRLIMIT_READ | LSM_PRLIMIT_WRITE

record rl_task =
  rt_rlim :: "rlimit list"
  rt_uids :: "u32 \<times> u32 \<times> u32"
  rt_gids :: "u32 \<times> u32 \<times> u32"
  rt_ns :: nat

text \<open>The tasks, and the CPU timers armed (\<open>update_rlimit_cpu\<close>) so far.\<close>

record rl_state =
  rs_task :: "nat \<Rightarrow> rl_task"
  rs_cpu_timer :: "(nat \<times> u64) list"

record rl_env =
  re_current :: nat
  re_find_task :: "int \<Rightarrow> nat option"
  re_nr_open :: u64
  re_posix_timers :: bool
  re_capable :: bool
  re_ns_capable :: "nat \<Rightarrow> bool"
  re_setrlimit_hook :: "nat \<Rightarrow> nat \<Rightarrow> rlimit \<Rightarrow> int"
  re_prlimit_hook :: "nat \<Rightarrow> prlimit_flag list \<Rightarrow> int"
  re_user_rlimit :: "u64 \<Rightarrow> rlimit option"
  re_user_compat :: "u64 \<Rightarrow> (u32 \<times> u32) option"
  re_uncopied :: "u64 \<Rightarrow> bool"

text \<open>Limits copied to the caller: native or 64-bit pairs, and compat pairs.\<close>

datatype rl_copy = Copy_Rlimit u64 rlimit | Copy_Compat u64 u32 u32

subsection \<open>\<open>do_prlimit\<close>\<close>

definition set_rlim :: "nat \<Rightarrow> nat \<Rightarrow> rlimit \<Rightarrow> rl_state \<Rightarrow> rl_state" where
  "set_rlim tsk resource r s =
     s\<lparr>rs_task := (rs_task s)(tsk := (rs_task s tsk)\<lparr>rt_rlim := (rt_rlim (rs_task s tsk))[resource := r]\<rparr>)\<rparr>"

text \<open>The result, the old limit, which is stored only when the call succeeds, and the state.\<close>

definition do_prlimit ::
  "rl_env \<Rightarrow> nat \<Rightarrow> u32 \<Rightarrow> rlimit option \<Rightarrow> rl_state \<Rightarrow> int \<times> rlimit \<times> rl_state" where
  "do_prlimit E tsk resource new_rlim s =
     (let n = unat resource; rlim = rt_rlim (rs_task s tsk) ! n in
      if RLIM_NLIMITS \<le> n then (- EINVAL, rlim, s)
      else
        (case new_rlim of
           None \<Rightarrow> (0, rlim, s)
         | Some new \<Rightarrow>
             if rlim_cur new > rlim_max new then (- EINVAL, rlim, s)
             else if n = RLIMIT_NOFILE \<and> rlim_max new > re_nr_open E then (- EPERM, rlim, s)
             else
               (let retval = (if rlim_max new > rlim_max rlim \<and> \<not> re_capable E then - EPERM else 0);
                    retval = (if retval = 0 then re_setrlimit_hook E tsk n new else retval)
                in if retval \<noteq> 0 then (retval, rlim, s)
                   else
                     (let s' = set_rlim tsk n new s in
                      (0, rlim,
                       if n = RLIMIT_CPU \<and> rlim_cur new \<noteq> RLIM_INFINITY \<and> re_posix_timers E
                       then s'\<lparr>rs_cpu_timer := rs_cpu_timer s' @ [(tsk, rlim_cur new)]\<rparr> else s')))))"

subsection \<open>Native and compat calls\<close>

definition setrlimit :: "rl_env \<Rightarrow> u32 \<Rightarrow> u64 \<Rightarrow> rl_state \<Rightarrow> int \<times> rl_state" where
  "setrlimit E resource rlim s =
     (case re_user_rlimit E rlim of
        None \<Rightarrow> (- EFAULT, s)
      | Some new_rlim \<Rightarrow>
          (let (r, _, s') = do_prlimit E (re_current E) resource (Some new_rlim) s in (r, s')))"

definition getrlimit :: "rl_env \<Rightarrow> u32 \<Rightarrow> u64 \<Rightarrow> rl_state \<Rightarrow> int \<times> rl_copy list" where
  "getrlimit E resource rlim s =
     (let (ret, value, _) = do_prlimit E (re_current E) resource None s in
      if ret = 0 then
        (if re_uncopied E rlim then (- EFAULT, []) else (0, [Copy_Rlimit rlim value]))
      else (ret, []))"

definition widen_limit :: "u32 \<Rightarrow> u64" where
  "widen_limit v = (if v = COMPAT_RLIM_INFINITY then RLIM_INFINITY else ucast v)"

definition narrow_limit :: "u64 \<Rightarrow> u32" where
  "narrow_limit v = (if v > ucast COMPAT_RLIM_INFINITY then COMPAT_RLIM_INFINITY else ucast v)"

definition compat_setrlimit :: "rl_env \<Rightarrow> u32 \<Rightarrow> u64 \<Rightarrow> rl_state \<Rightarrow> int \<times> rl_state" where
  "compat_setrlimit E resource rlim s =
     (case re_user_compat E rlim of
        None \<Rightarrow> (- EFAULT, s)
      | Some (cur32, max32) \<Rightarrow>
          (let (r, _, s') = do_prlimit E (re_current E) resource
             (Some \<lparr>rlim_cur = widen_limit cur32, rlim_max = widen_limit max32\<rparr>) s in (r, s')))"

definition compat_getrlimit :: "rl_env \<Rightarrow> u32 \<Rightarrow> u64 \<Rightarrow> rl_state \<Rightarrow> int \<times> rl_copy list" where
  "compat_getrlimit E resource rlim s =
     (let (ret, r, _) = do_prlimit E (re_current E) resource None s in
      if ret = 0 then
        (if re_uncopied E rlim then (- EFAULT, [])
         else (ret, [Copy_Compat rlim (narrow_limit (rlim_cur r)) (narrow_limit (rlim_max r))]))
      else (ret, []))"

definition cap_limit :: "rlimit \<Rightarrow> rlimit" where
  "cap_limit x =
     (let x = (if rlim_cur x > 0x7FFFFFFF then x\<lparr>rlim_cur := 0x7FFFFFFF\<rparr> else x)
      in if rlim_max x > 0x7FFFFFFF then x\<lparr>rlim_max := 0x7FFFFFFF\<rparr> else x)"

definition old_getrlimit :: "rl_env \<Rightarrow> u32 \<Rightarrow> u64 \<Rightarrow> rl_state \<Rightarrow> int \<times> rl_copy list" where
  "old_getrlimit E resource rlim s =
     (if RLIM_NLIMITS \<le> unat resource then (- EINVAL, [])
      else
        (let x = cap_limit (rt_rlim (rs_task s (re_current E)) ! unat resource) in
         if re_uncopied E rlim then (- EFAULT, []) else (0, [Copy_Rlimit rlim x])))"

text \<open>Two \<open>put_user\<close> of 32-bit fields, the second only after the first.\<close>

definition compat_old_getrlimit :: "rl_env \<Rightarrow> u32 \<Rightarrow> u64 \<Rightarrow> rl_state \<Rightarrow> int \<times> rl_copy list" where
  "compat_old_getrlimit E resource rlim s =
     (if RLIM_NLIMITS \<le> unat resource then (- EINVAL, [])
      else
        (let r = cap_limit (rt_rlim (rs_task s (re_current E)) ! unat resource) in
         if re_uncopied E rlim \<or> re_uncopied E (rlim + 4) then (- EFAULT, [])
         else (0, [Copy_Compat rlim (ucast (rlim_cur r)) (ucast (rlim_max r))])))"

subsection \<open>\<open>prlimit64\<close>\<close>

definition rlim64_is_infinity :: "u64 \<Rightarrow> bool" where
  "rlim64_is_infinity rlim64 \<longleftrightarrow> rlim64 = RLIM64_INFINITY"

definition rlim_to_rlim64 :: "rlimit \<Rightarrow> rlimit" where
  "rlim_to_rlim64 r =
     \<lparr>rlim_cur = (if rlim_cur r = RLIM_INFINITY then RLIM64_INFINITY else rlim_cur r),
      rlim_max = (if rlim_max r = RLIM_INFINITY then RLIM64_INFINITY else rlim_max r)\<rparr>"

definition rlim64_to_rlim :: "rlimit \<Rightarrow> rlimit" where
  "rlim64_to_rlim r =
     \<lparr>rlim_cur = (if rlim64_is_infinity (rlim_cur r) then RLIM_INFINITY else rlim_cur r),
      rlim_max = (if rlim64_is_infinity (rlim_max r) then RLIM_INFINITY else rlim_max r)\<rparr>"

definition check_prlimit_permission :: "rl_env \<Rightarrow> nat \<Rightarrow> prlimit_flag list \<Rightarrow> rl_state \<Rightarrow> int" where
  "check_prlimit_permission E task flags s =
     (if re_current E = task then 0
      else
        (let cred = rs_task s (re_current E); tcred = rs_task s task;
             uid = fst (rt_uids cred); gid = fst (rt_gids cred);
             id_match = (rt_uids tcred = (uid, uid, uid) \<and> rt_gids tcred = (gid, gid, gid))
         in if \<not> id_match \<and> \<not> re_ns_capable E (rt_ns tcred) then - EPERM
            else re_prlimit_hook E task flags))"

definition prlimit64 ::
  "rl_env \<Rightarrow> int \<Rightarrow> u32 \<Rightarrow> u64 \<Rightarrow> u64 \<Rightarrow> rl_state \<Rightarrow> int \<times> rl_copy list \<times> rl_state" where
  "prlimit64 E pid resource new_rlim old_rlim s =
     (let user = re_user_rlimit E new_rlim;
          new = (if new_rlim \<noteq> 0 then map_option rlim64_to_rlim user else None);
          flags = (if old_rlim \<noteq> 0 then [LSM_PRLIMIT_READ] else [])
            @ (if new_rlim \<noteq> 0 then [LSM_PRLIMIT_WRITE] else [])
      in if new_rlim \<noteq> 0 \<and> user = None then (- EFAULT, [], s)
         else
           (case (if pid \<noteq> 0 then re_find_task E pid else Some (re_current E)) of
              None \<Rightarrow> (- ESRCH, [], s)
            | Some tsk \<Rightarrow>
                (let ret = check_prlimit_permission E tsk flags s in
                 if ret \<noteq> 0 then (ret, [], s)
                 else
                   (let (ret, old, s') = do_prlimit E tsk resource new s in
                    if ret = 0 \<and> old_rlim \<noteq> 0 then
                      (if re_uncopied E old_rlim then (- EFAULT, [], s')
                       else (0, [Copy_Rlimit old_rlim (rlim_to_rlim64 old)], s'))
                    else (ret, [], s')))))"

subsection \<open>Any sequence of calls\<close>

text \<open>A call by any task, under the capabilities and hooks it then has.\<close>

inductive rl_step :: "bool \<Rightarrow> rl_state \<Rightarrow> rl_state \<Rightarrow> bool" for privileged :: bool where
  "re_capable E \<longrightarrow> privileged \<Longrightarrow> rl_step privileged s (snd (setrlimit E resource rlim s))"
| "re_capable E \<longrightarrow> privileged \<Longrightarrow> rl_step privileged s (snd (compat_setrlimit E resource rlim s))"
| "re_capable E \<longrightarrow> privileged \<Longrightarrow> rl_step privileged s (snd (snd (prlimit64 E pid resource new old s)))"

text \<open>Each task has its sixteen limits, soft below hard.\<close>

definition rl_inv :: "rl_state \<Rightarrow> bool" where
  "rl_inv s \<longleftrightarrow>
     (\<forall>t. length (rt_rlim (rs_task s t)) = RLIM_NLIMITS \<and>
        list_all (\<lambda>r. rlim_cur r \<le> rlim_max r) (rt_rlim (rs_task s t)))"

text \<open>No hard limit of \<open>t\<close> is above that of \<open>s\<close>.\<close>

definition not_raised :: "rl_state \<Rightarrow> rl_state \<Rightarrow> bool" where
  "not_raised s t \<longleftrightarrow>
     (\<forall>k. length (rt_rlim (rs_task t k)) = length (rt_rlim (rs_task s k)) \<and>
        list_all2 (\<lambda>a b. rlim_max b \<le> rlim_max a) (rt_rlim (rs_task s k)) (rt_rlim (rs_task t k)))"

lemma set_rlim_inv:
  assumes "rl_inv s" and "rlim_cur r \<le> rlim_max r"
  shows "rl_inv (set_rlim tsk n r s)"
  using assms set_update_subset_insert [of "rt_rlim (rs_task s tsk)" n r]
  by (auto simp: rl_inv_def set_rlim_def list_all_iff)

lemma not_raised_refl: "not_raised s s"
  by (simp add: not_raised_def list_all2_conv_all_nth)

lemma not_raised_trans:
  assumes "not_raised s t" and "not_raised t u"
  shows "not_raised s u"
  unfolding not_raised_def
proof
  fix k
  let ?l = "\<lambda>s. rt_rlim (rs_task s k)"
  have st: "length (?l t) = length (?l s)" "list_all2 (\<lambda>a b. rlim_max b \<le> rlim_max a) (?l s) (?l t)"
    and tu: "length (?l u) = length (?l t)" "list_all2 (\<lambda>a b. rlim_max b \<le> rlim_max a) (?l t) (?l u)"
    using assms by (auto simp only: not_raised_def)
  have "list_all2 (\<lambda>a b. rlim_max b \<le> rlim_max a) (?l s) (?l u)"
    by (rule list_all2_trans [OF _ st(2) tu(2)]) (rule order_trans)
  then show "length (?l u) = length (?l s) \<and> list_all2 (\<lambda>a b. rlim_max b \<le> rlim_max a) (?l s) (?l u)"
    using st(1) tu(1) by simp
qed

lemma not_raised_set:
  assumes "n < length (rt_rlim (rs_task s tsk))" and "rlim_max r \<le> rlim_max (rt_rlim (rs_task s tsk) ! n)"
  shows "not_raised s (set_rlim tsk n r s)"
  unfolding not_raised_def
proof
  fix k
  show "length (rt_rlim (rs_task (set_rlim tsk n r s) k)) = length (rt_rlim (rs_task s k)) \<and>
    list_all2 (\<lambda>a b. rlim_max b \<le> rlim_max a) (rt_rlim (rs_task s k)) (rt_rlim (rs_task (set_rlim tsk n r s) k))"
    using assms by (cases "k = tsk") (simp_all add: set_rlim_def list_all2_conv_all_nth nth_list_update)
qed

text \<open>What \<open>do_prlimit\<close> leaves: the old state, or the new limit set, in bounds and, without the
  capability, not raised; the timer log does not matter for the limits.\<close>

lemma do_prlimit_effect:
  "rs_task (snd (snd (do_prlimit E tsk res new s))) = rs_task s \<or>
   (\<exists>r. new = Some r \<and> unat res < RLIM_NLIMITS \<and> rlim_cur r \<le> rlim_max r
      \<and> (re_capable E \<or> rlim_max r \<le> rlim_max (rt_rlim (rs_task s tsk) ! unat res))
      \<and> rs_task (snd (snd (do_prlimit E tsk res new s))) = rs_task (set_rlim tsk (unat res) r s))"
proof (cases new)
  case (Some r)
  show ?thesis
  proof (cases "fst (do_prlimit E tsk res new s) = 0")
    case True
    then have "unat res < RLIM_NLIMITS \<and> rlim_cur r \<le> rlim_max r
      \<and> (re_capable E \<or> rlim_max r \<le> rlim_max (rt_rlim (rs_task s tsk) ! unat res))"
      by (simp add: Some do_prlimit_def Let_def not_less not_le split: if_splits) blast
    moreover have "rs_task (snd (snd (do_prlimit E tsk res new s))) = rs_task (set_rlim tsk (unat res) r s)"
      using True by (auto simp: Some do_prlimit_def Let_def split: if_splits)
    ultimately show ?thesis using Some by blast
  next
    case False
    then have "snd (snd (do_prlimit E tsk res new s)) = s"
      by (auto simp: Some do_prlimit_def Let_def split: if_splits)
    then show ?thesis by simp
  qed
qed (simp add: do_prlimit_def Let_def)

lemma same_tasks_inv:
  "rs_task s = rs_task t \<Longrightarrow> rl_inv s = rl_inv t"
  "rs_task s = rs_task t \<Longrightarrow> not_raised u s = not_raised u t"
  by (simp_all add: rl_inv_def not_raised_def)

lemma prlimit64_state:
  "snd (snd (prlimit64 E pid res new old s)) = s \<or>
   (\<exists>tsk r. snd (snd (prlimit64 E pid res new old s)) = snd (snd (do_prlimit E tsk res r s)))"
  by (simp add: prlimit64_def Let_def split_beta split: option.split) blast

lemma rl_step_effect:
  assumes inv: "rl_inv s" and "rl_step privileged s t"
  shows "rl_inv t \<and> (privileged \<or> not_raised s t)"
proof -
  have main: "rl_inv t \<and> (privileged \<or> not_raised s t)"
    if e: "rs_task t = rs_task (snd (snd (do_prlimit E tsk res new s)))" "re_capable E \<longrightarrow> privileged"
    for E tsk res new
    using do_prlimit_effect [of E tsk res new s]
  proof
    assume "rs_task (snd (snd (do_prlimit E tsk res new s))) = rs_task s"
    then have "rs_task t = rs_task s" using e(1) by simp
    then show ?thesis using inv same_tasks_inv [of t s] not_raised_refl by metis
  next
    assume "\<exists>r. new = Some r \<and> unat res < RLIM_NLIMITS \<and> rlim_cur r \<le> rlim_max r
      \<and> (re_capable E \<or> rlim_max r \<le> rlim_max (rt_rlim (rs_task s tsk) ! unat res))
      \<and> rs_task (snd (snd (do_prlimit E tsk res new s))) = rs_task (set_rlim tsk (unat res) r s)"
    then obtain r where r: "unat res < RLIM_NLIMITS" "rlim_cur r \<le> rlim_max r"
      "re_capable E \<or> rlim_max r \<le> rlim_max (rt_rlim (rs_task s tsk) ! unat res)"
      "rs_task t = rs_task (set_rlim tsk (unat res) r s)" using e(1) by auto
    have "rl_inv t" using set_rlim_inv [OF inv r(2)] same_tasks_inv(1) [OF r(4)] by blast
    moreover have "privileged \<or> not_raised s t"
      using r(1,3) e(2) inv not_raised_set [of "unat res" s tsk r] same_tasks_inv(2) [OF r(4)]
      by (auto simp: rl_inv_def)
    ultimately show ?thesis ..
  qed
  have same: "rl_inv s \<and> (privileged \<or> not_raised s s)" using inv not_raised_refl by blast
  from assms(2) show ?thesis
  proof cases
    case (1 E resource rlim)
    then show ?thesis
      using main [of E "re_current E" resource] same by (auto simp: setrlimit_def split_beta split: option.splits)
  next
    case (2 E resource rlim)
    then show ?thesis
      using main [of E "re_current E" resource] same by (auto simp: compat_setrlimit_def split_beta split: option.splits)
  next
    case (3 E pid resource new old)
    then show ?thesis
      using main [of E _ resource] same prlimit64_state [of E pid resource new old s] by metis
  qed
qed

interpretation rl_sys: step_system "rl_step privileged" rl_inv for privileged
  by unfold_locales (use rl_step_effect in blast)

text \<open>Against a fixed start, an unprivileged run raises nothing.\<close>

interpretation rl_bounded: step_system "rl_step False" "\<lambda>t. rl_inv t \<and> not_raised s t" for s
  by unfold_locales (use rl_step_effect not_raised_trans in blast)

subsection \<open>Properties\<close>

text \<open>C26: whatever native, compat and 64-bit calls any tasks make, every soft limit stays at or
  below its hard limit; and if none of the callers has \<open>CAP_SYS_RESOURCE\<close>, no hard limit of
  any task is ever above what it was at the start.\<close>
theorem limits_ordered_and_not_raised:
  assumes "rl_inv s" and "reach (rl_step privileged) s t"
  shows "rl_inv t \<and> (privileged \<or> not_raised s t)"
proof (cases privileged)
  case True
  then show ?thesis using rl_sys.reach_keeps [OF assms(2)] assms(1) by blast
next
  case False
  then have "reach (rl_step False) s t" using assms(2) by simp
  then show ?thesis using rl_bounded.reach_keeps [of s t s] assms(1) not_raised_refl by blast
qed

definition sample_rl_env :: rl_env where
  "sample_rl_env =
     \<lparr>re_current = 1, re_find_task = (\<lambda>p. None), re_nr_open = 4096, re_posix_timers = True,
      re_capable = False, re_ns_capable = (\<lambda>n. False), re_setrlimit_hook = (\<lambda>t n r. 0),
      re_prlimit_hook = (\<lambda>t f. 0),
      re_user_rlimit = (\<lambda>a. Some \<lparr>rlim_cur = 20, rlim_max = 50\<rparr>),
      re_user_compat = (\<lambda>a. Some (7, 30)), re_uncopied = (\<lambda>a. False)\<rparr>"

definition sample_limits :: rl_state where
  "sample_limits =
     \<lparr>rs_task = (\<lambda>t. \<lparr>rt_rlim = replicate 16 \<lparr>rlim_cur = 10, rlim_max = 100\<rparr>, rt_uids = (1, 1, 1),
        rt_gids = (1, 1, 1), rt_ns = 0\<rparr>), rs_cpu_timer = []\<rparr>"

lemma sample_limits_inv: "rl_inv sample_limits"
  by (simp add: rl_inv_def sample_limits_def RLIM_NLIMITS_def list_all_iff)

lemma sample_set:
  "do_prlimit sample_rl_env 1 2 (Some \<lparr>rlim_cur = 20, rlim_max = 50\<rparr>) sample_limits =
     (0, \<lparr>rlim_cur = 10, rlim_max = 100\<rparr>, set_rlim 1 2 \<lparr>rlim_cur = 20, rlim_max = 50\<rparr> sample_limits)"
  by (simp add: do_prlimit_def sample_rl_env_def sample_limits_def RLIM_NLIMITS_def RLIMIT_NOFILE_def
      RLIMIT_CPU_def Let_def)

lemma sample_setrlimit:
  "setrlimit sample_rl_env 2 8 sample_limits = (0, set_rlim 1 2 \<lparr>rlim_cur = 20, rlim_max = 50\<rparr> sample_limits)"
  using sample_set by (simp add: setrlimit_def) (simp add: sample_rl_env_def)

theorem limits_ordered_and_not_raised_witness:
  "rl_inv (set_rlim 1 2 \<lparr>rlim_cur = 20, rlim_max = 50\<rparr> sample_limits)
   \<and> not_raised sample_limits (set_rlim 1 2 \<lparr>rlim_cur = 20, rlim_max = 50\<rparr> sample_limits)"
proof -
  have "rl_step False sample_limits (snd (setrlimit sample_rl_env 2 8 sample_limits))"
    by (rule rl_step.intros) (simp add: sample_rl_env_def)
  then have "reach (rl_step False) sample_limits (set_rlim 1 2 \<lparr>rlim_cur = 20, rlim_max = 50\<rparr> sample_limits)"
    unfolding sample_setrlimit snd_conv by (rule reach_one)
  from limits_ordered_and_not_raised [OF sample_limits_inv this] show ?thesis by simp
qed

lemma narrow_widen: "narrow_limit (widen_limit v) = v"
proof (cases "v = COMPAT_RLIM_INFINITY")
  case True
  then show ?thesis
    by (simp add: widen_limit_def narrow_limit_def RLIM_INFINITY_def COMPAT_RLIM_INFINITY_def)
next
  case False
  have "unat v < 2 ^ 32" using unsigned_less [of v] by simp
  moreover have "unat (ucast v :: u64) = unat v"
    using unsigned_less [of v, where ?'a = nat]
    by (simp add: unsigned_ucast_eq take_bit_nat_eq_self)
  ultimately have "\<not> (ucast v :: u64) > ucast COMPAT_RLIM_INFINITY"
    by (simp add: word_less_nat_alt COMPAT_RLIM_INFINITY_def)
  moreover have "ucast (ucast v :: u64) = v" by (rule ucast_up_ucast_id) (simp add: is_up_def)
  ultimately show ?thesis using False by (simp add: widen_limit_def narrow_limit_def)
qed

lemma do_prlimit_sets:
  assumes "rl_inv s" and "do_prlimit E tsk res (Some r) s = (0, old, t)"
  shows "unat res < RLIM_NLIMITS \<and> rt_rlim (rs_task t tsk) ! unat res = r"
proof -
  have "unat res < RLIM_NLIMITS" "rs_task t = rs_task (set_rlim tsk (unat res) r s)"
    using assms(2) by (auto simp: do_prlimit_def Let_def not_le split: if_splits)
  then show ?thesis using assms(1) by (simp add: set_rlim_def rl_inv_def)
qed

lemma getrlimit_value:
  assumes "unat res < RLIM_NLIMITS" and "\<not> re_uncopied E b"
  shows "getrlimit E res b t = (0, [Copy_Rlimit b (rt_rlim (rs_task t (re_current E)) ! unat res)])"
    and "compat_getrlimit E res b t =
      (0, [Copy_Compat b (narrow_limit (rlim_cur (rt_rlim (rs_task t (re_current E)) ! unat res)))
             (narrow_limit (rlim_max (rt_rlim (rs_task t (re_current E)) ! unat res)))])"
  using assms by (simp_all add: getrlimit_def compat_getrlimit_def do_prlimit_def)

text \<open>Limits read back as they were set: \<open>getrlimit\<close> gives the pair of the last successful
  \<open>setrlimit\<close>, the compat \<open>getrlimit\<close> the pair of the last successful compat \<open>setrlimit\<close>,
  the value for infinity included, and \<open>getrlimit\<close> shows that value as the 64-bit one.\<close>
theorem limits_read_back:
  assumes "rl_inv s" and "\<not> re_uncopied E b"
    and "re_user_rlimit E a = Some r" and "setrlimit E res a s = (0, s1)"
    and "re_user_compat E c = Some (cur32, max32)" and "compat_setrlimit E res c s = (0, s2)"
  shows "getrlimit E res b s1 = (0, [Copy_Rlimit b r])
    \<and> compat_getrlimit E res b s2 = (0, [Copy_Compat b cur32 max32])
    \<and> getrlimit E res b s2 = (0, [Copy_Rlimit b \<lparr>rlim_cur = widen_limit cur32, rlim_max = widen_limit max32\<rparr>])"
proof -
  obtain o1 where "do_prlimit E (re_current E) res (Some r) s = (0, o1, s1)"
    using assms(3,4) by (auto simp: setrlimit_def split: prod.splits)
  note 1 = do_prlimit_sets [OF assms(1) this]
  obtain o2 where "do_prlimit E (re_current E) res
      (Some \<lparr>rlim_cur = widen_limit cur32, rlim_max = widen_limit max32\<rparr>) s = (0, o2, s2)"
    using assms(5,6) by (auto simp: compat_setrlimit_def split: prod.splits)
  note 2 = do_prlimit_sets [OF assms(1) this]
  show ?thesis using 1 2 getrlimit_value [OF _ assms(2), of res] by (simp add: narrow_widen)
qed

theorem limits_read_back_witness:
  "getrlimit sample_rl_env 2 16 (set_rlim 1 2 \<lparr>rlim_cur = 20, rlim_max = 50\<rparr> sample_limits)
     = (0, [Copy_Rlimit 16 \<lparr>rlim_cur = 20, rlim_max = 50\<rparr>])"
proof -
  have "compat_setrlimit sample_rl_env 2 8 sample_limits =
      (0, set_rlim 1 2 \<lparr>rlim_cur = 7, rlim_max = 30\<rparr> sample_limits)"
    by (simp add: compat_setrlimit_def do_prlimit_def sample_rl_env_def sample_limits_def RLIM_NLIMITS_def
        RLIMIT_NOFILE_def RLIMIT_CPU_def Let_def widen_limit_def COMPAT_RLIM_INFINITY_def)
  from limits_read_back [OF sample_limits_inv _ _ sample_setrlimit _ this, of 16 "\<lparr>rlim_cur = 20, rlim_max = 50\<rparr>" 7 30]
  show ?thesis by (simp add: sample_rl_env_def)
qed

end
