(* ===== verification/Sys_Usage.thy ===== *)
theory Sys_Usage
  imports Kernel_Prelude
begin

text \<open>
  Resource usage in \<open>Practica1/linux-6.6.44/kernel/sys.c\<close>: \<open>times\<close>, \<open>getrusage\<close> with its three
  callers, \<open>umask\<close> and \<open>getcpu\<close>. The accounting structures of the threads and of their
  shared \<open>signal_struct\<close> are the state; the scheduler's CPU times, the conversions of clock
  values, the memory high-water mark and user memory are parameters.
\<close>

subsection \<open>Accounting data\<close>

text \<open>The counters of a \<open>task_struct\<close>, of its \<open>signal_struct\<close> and of \<open>struct rusage\<close>.\<close>

record us_task =
  nvcsw :: u64
  nivcsw :: u64
  min_flt :: u64
  maj_flt :: u64
  io_inblock :: u64
  io_oublock :: u64

record us_signal =
  sig_cutime :: u64
  sig_cstime :: u64
  sig_cnvcsw :: u64
  sig_cnivcsw :: u64
  sig_cmin_flt :: u64
  sig_cmaj_flt :: u64
  sig_cinblock :: u64
  sig_coublock :: u64
  sig_cmaxrss :: u64
  sig_nvcsw :: u64
  sig_nivcsw :: u64
  sig_min_flt :: u64
  sig_maj_flt :: u64
  sig_inblock :: u64
  sig_oublock :: u64
  sig_maxrss :: u64

record rusage =
  ru_utime :: "int \<times> int"
  ru_stime :: "int \<times> int"
  ru_maxrss :: u64
  ru_minflt :: u64
  ru_majflt :: u64
  ru_inblock :: u64
  ru_oublock :: u64
  ru_nvcsw :: u64
  ru_nivcsw :: u64

record tms =
  tms_utime :: int
  tms_stime :: int
  tms_cutime :: int
  tms_cstime :: int

text \<open>
  A process is named by a thread of it. \<open>ue_threads p\<close> lists the live threads of \<open>p\<close>'s
  process from \<open>p\<close> on; \<open>ue_sighand_lock p\<close> tells whether \<open>lock_task_sighand\<close> finds the
  signal handlers (it does not once the process has been released); \<open>ue_hiwater p\<close> is
  \<open>None\<close> for a task without memory, else what \<open>setmax_mm_hiwater_rss\<close> does to its argument.
\<close>

record us_env =
  ue_current :: nat
  ue_task :: "nat \<Rightarrow> us_task"
  ue_signal :: "nat \<Rightarrow> us_signal"
  ue_threads :: "nat \<Rightarrow> nat list"
  ue_sighand_lock :: "nat \<Rightarrow> bool"
  ue_cputime :: "nat \<Rightarrow> u64 \<times> u64"
  ue_group_cputime :: "nat \<Rightarrow> u64 \<times> u64"
  ue_timeval :: "u64 \<Rightarrow> int \<times> int"
  ue_clock_t :: "u64 \<Rightarrow> int"
  ue_jiffies_clock_t :: int
  ue_compat_clock_t :: "int \<Rightarrow> int"
  ue_hiwater :: "nat \<Rightarrow> (u64 \<Rightarrow> u64) option"
  ue_uncopied :: "u64 \<Rightarrow> bool"
  ue_cpu :: u32
  ue_node :: u32

definition RUSAGE_SELF :: int where "RUSAGE_SELF = 0"
definition RUSAGE_CHILDREN :: int where "RUSAGE_CHILDREN = - 1"
definition RUSAGE_BOTH :: int where "RUSAGE_BOTH = - 2"
definition RUSAGE_THREAD :: int where "RUSAGE_THREAD = 1"

lemmas rusage_who = RUSAGE_SELF_def RUSAGE_CHILDREN_def RUSAGE_BOTH_def RUSAGE_THREAD_def

lemma who_distinct [simp]: "RUSAGE_SELF \<noteq> RUSAGE_CHILDREN" "RUSAGE_BOTH \<noteq> RUSAGE_CHILDREN"
  by (simp_all add: rusage_who)

subsection \<open>\<open>times\<close>\<close>

definition do_sys_times :: "us_env \<Rightarrow> tms" where
  "do_sys_times E =
     (let (tgutime, tgstime) = ue_group_cputime E (ue_current E);
          cutime = sig_cutime (ue_signal E (ue_current E));
          cstime = sig_cstime (ue_signal E (ue_current E))
      in \<lparr>tms_utime = ue_clock_t E tgutime, tms_stime = ue_clock_t E tgstime,
          tms_cutime = ue_clock_t E cutime, tms_cstime = ue_clock_t E cstime\<rparr>)"

text \<open>
  The result and the structures copied to the caller. \<open>times\<close> and \<open>compat_times\<close> skip the
  copy for a null buffer and still return the clock.
\<close>

definition sys_times :: "us_env \<Rightarrow> u64 \<Rightarrow> int \<times> (u64 \<times> tms) list" where
  "sys_times E tbuf =
     (if tbuf \<noteq> 0 \<and> ue_uncopied E tbuf then (- EFAULT, [])
      else (ue_jiffies_clock_t E, if tbuf \<noteq> 0 then [(tbuf, do_sys_times E)] else []))"

definition compat_tms :: "us_env \<Rightarrow> tms \<Rightarrow> tms" where
  "compat_tms E t =
     \<lparr>tms_utime = ue_compat_clock_t E (tms_utime t), tms_stime = ue_compat_clock_t E (tms_stime t),
      tms_cutime = ue_compat_clock_t E (tms_cutime t), tms_cstime = ue_compat_clock_t E (tms_cstime t)\<rparr>"

definition compat_times :: "us_env \<Rightarrow> u64 \<Rightarrow> int \<times> (u64 \<times> tms) list" where
  "compat_times E tbuf =
     (if tbuf \<noteq> 0 \<and> ue_uncopied E tbuf then (- EFAULT, [])
      else (ue_compat_clock_t E (ue_jiffies_clock_t E),
            if tbuf \<noteq> 0 then [(tbuf, compat_tms E (do_sys_times E))] else []))"

subsection \<open>\<open>getrusage\<close>\<close>

definition accumulate_thread_rusage :: "us_task \<Rightarrow> rusage \<Rightarrow> rusage" where
  "accumulate_thread_rusage t r =
     r\<lparr>ru_nvcsw := ru_nvcsw r + nvcsw t, ru_nivcsw := ru_nivcsw r + nivcsw t,
       ru_minflt := ru_minflt r + min_flt t, ru_majflt := ru_majflt r + maj_flt t,
       ru_inblock := ru_inblock r + io_inblock t, ru_oublock := ru_oublock r + io_oublock t\<rparr>"

definition zero_rusage :: rusage where
  "zero_rusage = \<lparr>ru_utime = (0, 0), ru_stime = (0, 0), ru_maxrss = 0, ru_minflt = 0, ru_majflt = 0,
                  ru_inblock = 0, ru_oublock = 0, ru_nvcsw = 0, ru_nivcsw = 0\<rparr>"

text \<open>The assignments of the \<open>RUSAGE_CHILDREN\<close> case, which \<open>RUSAGE_BOTH\<close> shares.\<close>

definition children_usage :: "us_signal \<Rightarrow> rusage \<Rightarrow> rusage" where
  "children_usage g r =
     r\<lparr>ru_nvcsw := sig_cnvcsw g, ru_nivcsw := sig_cnivcsw g, ru_minflt := sig_cmin_flt g,
       ru_majflt := sig_cmaj_flt g, ru_inblock := sig_cinblock g, ru_oublock := sig_coublock g\<rparr>"

text \<open>The additions of the \<open>RUSAGE_SELF\<close> case: the threads that have exited, then the live ones.\<close>

definition self_usage :: "us_env \<Rightarrow> nat \<Rightarrow> rusage \<Rightarrow> rusage" where
  "self_usage E p r =
     (let g = ue_signal E p;
          r = r\<lparr>ru_nvcsw := ru_nvcsw r + sig_nvcsw g, ru_nivcsw := ru_nivcsw r + sig_nivcsw g,
                ru_minflt := ru_minflt r + sig_min_flt g, ru_majflt := ru_majflt r + sig_maj_flt g,
                ru_inblock := ru_inblock r + sig_inblock g, ru_oublock := ru_oublock r + sig_oublock g\<rparr>
      in fold (\<lambda>t. accumulate_thread_rusage (ue_task E t)) (ue_threads E p) r)"

text \<open>The code after the label \<open>out\<close>.\<close>

definition finish_usage :: "us_env \<Rightarrow> nat \<Rightarrow> int \<Rightarrow> u64 \<Rightarrow> u64 \<Rightarrow> u64 \<Rightarrow> rusage \<Rightarrow> rusage" where
  "finish_usage E p who utime stime maxrss r =
     (let maxrss = (if who \<noteq> RUSAGE_CHILDREN then
                      (case ue_hiwater E p of None \<Rightarrow> maxrss | Some setmax \<Rightarrow> setmax maxrss)
                    else maxrss)
      in r\<lparr>ru_utime := ue_timeval E utime, ru_stime := ue_timeval E stime,
           ru_maxrss := maxrss * (PAGE_SIZE div 1024)\<rparr>)"

definition getrusage :: "us_env \<Rightarrow> nat \<Rightarrow> int \<Rightarrow> rusage outcome" where
  "getrusage E p who =
     (let g = ue_signal E p in
      if who = RUSAGE_THREAD then
        (let (utime, stime) = ue_cputime E (ue_current E) in
         Done (finish_usage E p who utime stime (sig_maxrss g)
                 (accumulate_thread_rusage (ue_task E p) zero_rusage)))
      else if \<not> ue_sighand_lock E p then Done zero_rusage
      else if who = RUSAGE_CHILDREN then
        Done (finish_usage E p who (0 + sig_cutime g) (0 + sig_cstime g) (sig_cmaxrss g)
                (children_usage g zero_rusage))
      else if who = RUSAGE_BOTH \<or> who = RUSAGE_SELF then
        (let (utime, stime, maxrss, r) =
               (if who = RUSAGE_BOTH
                then (sig_cutime g, sig_cstime g, sig_cmaxrss g, children_usage g zero_rusage)
                else (0, 0, 0, zero_rusage));
             (tgutime, tgstime) = ue_group_cputime E p
         in Done (finish_usage E p who (utime + tgutime) (stime + tgstime)
                    (if maxrss < sig_maxrss g then sig_maxrss g else maxrss) (self_usage E p r)))
      else Oops)"

text \<open>The system calls: the compat one hands the structure to \<open>put_compat_rusage\<close>, an argument.\<close>

definition getrusage_who :: "int \<Rightarrow> bool" where
  "getrusage_who who \<longleftrightarrow> \<not> (who \<noteq> RUSAGE_SELF \<and> who \<noteq> RUSAGE_CHILDREN \<and> who \<noteq> RUSAGE_THREAD)"

definition sys_getrusage :: "us_env \<Rightarrow> int \<Rightarrow> u64 \<Rightarrow> (int \<times> (u64 \<times> rusage) list) outcome" where
  "sys_getrusage E who ru =
     (if \<not> getrusage_who who then Done (- EINVAL, [])
      else (case getrusage E (ue_current E) who of
              Oops \<Rightarrow> Oops
            | Done r \<Rightarrow> Done (if ue_uncopied E ru then (- EFAULT, []) else (0, [(ru, r)]))))"

definition compat_getrusage ::
  "us_env \<Rightarrow> (rusage \<Rightarrow> u64 \<Rightarrow> int \<times> (u64 \<times> rusage) list) \<Rightarrow> int \<Rightarrow> u64
   \<Rightarrow> (int \<times> (u64 \<times> rusage) list) outcome" where
  "compat_getrusage E put_compat_rusage who ru =
     (if \<not> getrusage_who who then Done (- EINVAL, [])
      else (case getrusage E (ue_current E) who of
              Oops \<Rightarrow> Oops
            | Done r \<Rightarrow> Done (put_compat_rusage r ru)))"

subsection \<open>\<open>umask\<close> and \<open>getcpu\<close>\<close>

definition S_IRWXUGO :: u32 where "S_IRWXUGO = 511"

text \<open>The result and the new mask of \<open>current->fs\<close>.\<close>

definition umask :: "u32 \<Rightarrow> u32 \<Rightarrow> u32 \<times> u32" where
  "umask fs_umask new_mask = (fs_umask, new_mask AND S_IRWXUGO)"

text \<open>Two \<open>put_user\<close>; the second is made whether or not the first failed.\<close>

definition getcpu :: "us_env \<Rightarrow> u64 \<Rightarrow> u64 \<Rightarrow> int \<times> (u64 \<times> u32) list" where
  "getcpu E cpup nodep =
     (let cpu_fails = (cpup \<noteq> 0 \<and> ue_uncopied E cpup);
          node_fails = (nodep \<noteq> 0 \<and> ue_uncopied E nodep)
      in (if cpu_fails \<or> node_fails then - EFAULT else 0,
          (if cpup \<noteq> 0 \<and> \<not> cpu_fails then [(cpup, ue_cpu E)] else []) @
          (if nodep \<noteq> 0 \<and> \<not> node_fails then [(nodep, ue_node E)] else [])))"


subsection \<open>The counters of a process\<close>

lemma accumulate_sums:
  "ru_nvcsw (fold (\<lambda>t. accumulate_thread_rusage (f t)) ts r) = ru_nvcsw r + (\<Sum>t\<leftarrow>ts. nvcsw (f t))"
  "ru_nivcsw (fold (\<lambda>t. accumulate_thread_rusage (f t)) ts r) = ru_nivcsw r + (\<Sum>t\<leftarrow>ts. nivcsw (f t))"
  "ru_minflt (fold (\<lambda>t. accumulate_thread_rusage (f t)) ts r) = ru_minflt r + (\<Sum>t\<leftarrow>ts. min_flt (f t))"
  "ru_majflt (fold (\<lambda>t. accumulate_thread_rusage (f t)) ts r) = ru_majflt r + (\<Sum>t\<leftarrow>ts. maj_flt (f t))"
  "ru_inblock (fold (\<lambda>t. accumulate_thread_rusage (f t)) ts r) = ru_inblock r + (\<Sum>t\<leftarrow>ts. io_inblock (f t))"
  "ru_oublock (fold (\<lambda>t. accumulate_thread_rusage (f t)) ts r) = ru_oublock r + (\<Sum>t\<leftarrow>ts. io_oublock (f t))"
  by (induction ts arbitrary: r) (simp_all add: accumulate_thread_rusage_def add.assoc)

lemma finish_usage_counters [simp]:
  "ru_nvcsw (finish_usage E p who u s m r) = ru_nvcsw r"
  "ru_nivcsw (finish_usage E p who u s m r) = ru_nivcsw r"
  "ru_minflt (finish_usage E p who u s m r) = ru_minflt r"
  "ru_majflt (finish_usage E p who u s m r) = ru_majflt r"
  "ru_inblock (finish_usage E p who u s m r) = ru_inblock r"
  "ru_oublock (finish_usage E p who u s m r) = ru_oublock r"
  by (simp_all add: finish_usage_def Let_def)

lemma finish_usage_times [simp]:
  "ru_utime (finish_usage E p who u s m r) = ue_timeval E u"
  "ru_stime (finish_usage E p who u s m r) = ue_timeval E s"
  by (simp_all add: finish_usage_def Let_def)

text \<open>The six counters of one structure, in the order of \<open>struct rusage\<close>.\<close>

definition counters :: "rusage \<Rightarrow> u64 list" where
  "counters r = [ru_minflt r, ru_majflt r, ru_inblock r, ru_oublock r, ru_nvcsw r, ru_nivcsw r]"

definition add_counters :: "u64 list \<Rightarrow> u64 list \<Rightarrow> u64 list" where
  "add_counters a b = map2 (+) a b"

lemma self_usage_adds:
  "counters (self_usage E p r) = add_counters (counters r) (counters (self_usage E p zero_rusage))"
  by (simp add: counters_def add_counters_def self_usage_def Let_def accumulate_sums zero_rusage_def
      add.assoc)

lemma getrusage_children:
  "ue_sighand_lock E p \<Longrightarrow>
   getrusage E p RUSAGE_CHILDREN =
     Done (finish_usage E p RUSAGE_CHILDREN (sig_cutime (ue_signal E p)) (sig_cstime (ue_signal E p))
             (sig_cmaxrss (ue_signal E p)) (children_usage (ue_signal E p) zero_rusage))"
  by (simp add: getrusage_def rusage_who Let_def)

lemma getrusage_self:
  "ue_sighand_lock E p \<Longrightarrow>
   getrusage E p RUSAGE_SELF =
     Done (finish_usage E p RUSAGE_SELF (fst (ue_group_cputime E p)) (snd (ue_group_cputime E p))
             (sig_maxrss (ue_signal E p)) (self_usage E p zero_rusage))"
  by (auto simp: getrusage_def rusage_who split_beta Let_def word_neq_0_conv [symmetric] simp del: word_neq_0_conv)

lemma getrusage_both:
  "ue_sighand_lock E p \<Longrightarrow>
   getrusage E p RUSAGE_BOTH =
     Done (finish_usage E p RUSAGE_BOTH
             (sig_cutime (ue_signal E p) + fst (ue_group_cputime E p))
             (sig_cstime (ue_signal E p) + snd (ue_group_cputime E p))
             (max (sig_cmaxrss (ue_signal E p)) (sig_maxrss (ue_signal E p)))
             (self_usage E p (children_usage (ue_signal E p) zero_rusage)))"
  by (auto simp: getrusage_def rusage_who split_beta Let_def max_def)

lemma kilobytes_max:
  fixes a b :: u64
  assumes "unat a < 2 ^ 62" and "unat b < 2 ^ 62"
  shows "max a b * (PAGE_SIZE div 1024) = max (a * (PAGE_SIZE div 1024)) (b * (PAGE_SIZE div 1024))"
proof -
  have "PAGE_SIZE div 1024 = 4" by (simp add: PAGE_SIZE_def)
  moreover have "unat (a * 4) = unat a * 4" "unat (b * 4) = unat b * 4"
    using assms unat_mult_small [of a 4] unat_mult_small [of b 4] by simp_all
  ultimately show ?thesis by (auto simp: max_def word_le_nat_alt)
qed

text \<open>What a process used together with its waited-for children is what its two parts
  report: \<open>RUSAGE_BOTH\<close> gives for every counter the sum of \<open>RUSAGE_SELF\<close> and
  \<open>RUSAGE_CHILDREN\<close>, its times are those of the summed nanoseconds, and its peak memory is the
  larger of the two; and the own part counts the exited threads and every live one once.\<close>
theorem rusage_both_adds:
  assumes "ue_sighand_lock E p" and "ue_hiwater E p = Some (max peak)"
    and "unat peak < 2 ^ 62" "unat (sig_maxrss (ue_signal E p)) < 2 ^ 62" "unat (sig_cmaxrss (ue_signal E p)) < 2 ^ 62"
  shows "\<exists>b s c. getrusage E p RUSAGE_BOTH = Done b \<and> getrusage E p RUSAGE_SELF = Done s
     \<and> getrusage E p RUSAGE_CHILDREN = Done c
     \<and> counters b = add_counters (counters c) (counters s)
     \<and> ru_utime b = ue_timeval E (sig_cutime (ue_signal E p) + fst (ue_group_cputime E p))
     \<and> ru_maxrss b = max (ru_maxrss s) (ru_maxrss c)
     \<and> ru_nvcsw s = sig_nvcsw (ue_signal E p) + (\<Sum>t\<leftarrow>ue_threads E p. nvcsw (ue_task E t))"
proof -
  let ?g = "ue_signal E p"
  have "max peak (max (sig_cmaxrss ?g) (sig_maxrss ?g)) * (PAGE_SIZE div 1024)
        = max (max peak (sig_maxrss ?g) * (PAGE_SIZE div 1024)) (sig_cmaxrss ?g * (PAGE_SIZE div 1024))"
    using assms(3-5) by (subst kilobytes_max [symmetric]) (auto simp: max_def ac_simps)
  then show ?thesis
    using assms(1,2)
    by (simp add: getrusage_children getrusage_self getrusage_both counters_def add_counters_def
        finish_usage_def self_usage_def children_usage_def zero_rusage_def accumulate_sums Let_def
        add.assoc)
qed

definition sample_signal :: us_signal where
  "sample_signal = \<lparr>sig_cutime = 5, sig_cstime = 6, sig_cnvcsw = 1, sig_cnivcsw = 2, sig_cmin_flt = 3,
     sig_cmaj_flt = 4, sig_cinblock = 5, sig_coublock = 6, sig_cmaxrss = 900, sig_nvcsw = 10,
     sig_nivcsw = 20, sig_min_flt = 30, sig_maj_flt = 40, sig_inblock = 50, sig_oublock = 60,
     sig_maxrss = 100\<rparr>"

definition sample_us_env :: us_env where
  "sample_us_env = \<lparr>ue_current = 1,
     ue_task = (\<lambda>t. \<lparr>nvcsw = of_nat t, nivcsw = 0, min_flt = 7, maj_flt = 0, io_inblock = 8, io_oublock = 0\<rparr>),
     ue_signal = (\<lambda>p. sample_signal), ue_threads = (\<lambda>p. [1, 2]), ue_sighand_lock = (\<lambda>p. p = 1),
     ue_cputime = (\<lambda>p. (1, 1)), ue_group_cputime = (\<lambda>p. (2000, 3000)),
     ue_timeval = (\<lambda>n. (uint n div 1000000000, uint n mod 1000000000 div 1000)),
     ue_clock_t = (\<lambda>n. uint n div 10000000), ue_jiffies_clock_t = 77, ue_compat_clock_t = id,
     ue_hiwater = (\<lambda>p. Some (max 300)), ue_uncopied = (\<lambda>a. False), ue_cpu = 0, ue_node = 0\<rparr>"

theorem rusage_both_adds_witness:
  "ru_nvcsw (result (getrusage sample_us_env 1 RUSAGE_BOTH)) = 14
   \<and> ru_maxrss (result (getrusage sample_us_env 1 RUSAGE_BOTH)) = 3600
   \<and> counters (result (getrusage sample_us_env 1 RUSAGE_BOTH))
      = add_counters (counters (result (getrusage sample_us_env 1 RUSAGE_CHILDREN)))
          (counters (result (getrusage sample_us_env 1 RUSAGE_SELF)))"
proof -
  have "ue_sighand_lock sample_us_env 1" "ue_hiwater sample_us_env 1 = Some (max 300)"
    "unat (300 :: u64) < 2 ^ 62" "unat (sig_maxrss (ue_signal sample_us_env 1)) < 2 ^ 62"
    "unat (sig_cmaxrss (ue_signal sample_us_env 1)) < 2 ^ 62"
    by (simp_all add: sample_us_env_def sample_signal_def)
  note both = rusage_both_adds [OF this]
  have "getrusage sample_us_env 1 RUSAGE_BOTH =
     Done (finish_usage sample_us_env 1 RUSAGE_BOTH 2005 3006 900
             (self_usage sample_us_env 1 (children_usage sample_signal zero_rusage)))"
    by (subst getrusage_both) (simp_all add: sample_us_env_def sample_signal_def)
  then have "ru_nvcsw (result (getrusage sample_us_env 1 RUSAGE_BOTH)) = 14"
    "ru_maxrss (result (getrusage sample_us_env 1 RUSAGE_BOTH)) = 3600"
    by (simp_all add: finish_usage_def self_usage_def children_usage_def zero_rusage_def
        accumulate_thread_rusage_def sample_us_env_def sample_signal_def PAGE_SIZE_def rusage_who)
  with both show ?thesis by auto
qed

end
