(* ===== verification/Sys_Prctl_Mm.thy ===== *)
theory Sys_Prctl_Mm
  imports Kernel_Prelude
begin

text \<open>
  \<open>prctl(PR_SET_MM)\<close> and \<open>prctl(PR_GET_AUXV)\<close> in \<open>Practica1/linux-6.6.44/kernel/sys.c\<close>: the
  description of the address space kept in \<open>struct mm_struct\<close>, the checks on new values, and
  the executable file and the auxiliary vector that can be replaced. The state is the
  \<open>mm_struct\<close>; user memory, capabilities, files and the memory map are parameters.
\<close>

subsection \<open>Data\<close>

text \<open>
  The eleven addresses that \<open>struct prctl_mm_map\<close> and \<open>struct mm_struct\<close> share are one record,
  which both extend. The saved auxiliary vector is kept as its bytes, since a call may
  replace any number of them.
\<close>

record mm_map =
  start_code :: u64
  end_code :: u64
  start_data :: u64
  end_data :: u64
  start_brk :: u64
  brk :: u64
  start_stack :: u64
  arg_start :: u64
  arg_end :: u64
  env_start :: u64
  env_end :: u64

record prctl_mm_map = mm_map +
  map_auxv :: u64
  auxv_size :: u32
  exe_fd :: u32

record mm_struct = mm_map +
  exe_file :: nat
  saved_auxv :: bytes

text \<open>
  An open file of the caller: its identity, whether it is a regular file on a mount that
  allows execution, the result of \<open>file_permission(MAY_EXEC)\<close> and that of
  \<open>replace_mm_exe_file\<close>.
\<close>

record exec_file =
  ef_file :: nat
  ef_regular :: bool
  ef_noexec :: bool
  ef_permission :: int
  ef_replace :: int

text \<open>
  \<open>me_vector\<close> is \<open>AT_VECTOR_SIZE\<close>, \<open>me_map_size\<close> is \<open>sizeof(struct prctl_mm_map)\<close>,
  \<open>me_user_byte\<close> the caller's memory (\<open>None\<close> where a copy faults), \<open>me_find_vma\<close> whether
  \<open>find_vma\<close> finds an area, \<open>me_checkpoint_restore\<close> the configuration option.
\<close>

record mm_env =
  me_task_size :: u64
  me_mmap_min_addr :: u64
  me_vector :: nat
  me_map_size :: u64
  me_data_rlimit :: u64
  me_check_data_rlimit :: "u64 \<Rightarrow> u64 \<Rightarrow> u64 \<Rightarrow> u64 \<Rightarrow> u64 \<Rightarrow> int"
  me_checkpoint_restore :: bool
  me_capable :: bool
  me_restore_capable :: bool
  me_user_map :: "u64 \<Rightarrow> prctl_mm_map option"
  me_user_byte :: "u64 \<Rightarrow> u8 option"
  me_unwritable :: "u64 \<Rightarrow> bool"
  me_fdget :: "u32 \<Rightarrow> exec_file option"
  me_find_vma :: "u64 \<Rightarrow> bool"

datatype mm_opt = PR_SET_MM_START_CODE | PR_SET_MM_END_CODE | PR_SET_MM_START_DATA
  | PR_SET_MM_END_DATA | PR_SET_MM_START_STACK | PR_SET_MM_START_BRK | PR_SET_MM_BRK
  | PR_SET_MM_ARG_START | PR_SET_MM_ARG_END | PR_SET_MM_ENV_START | PR_SET_MM_ENV_END
  | PR_SET_MM_AUXV | PR_SET_MM_EXE_FILE | PR_SET_MM_MAP | PR_SET_MM_MAP_SIZE | PR_SET_MM_OTHER

text \<open>What a call writes to the caller: the size of the structure, or bytes of the vector.\<close>

datatype mm_copy = Copy_Size u64 u64 | Copy_Bytes u64 bytes

definition copy_from_user :: "mm_env \<Rightarrow> u64 \<Rightarrow> nat \<Rightarrow> bytes option" where
  "copy_from_user E addr n =
     (let bs = map (\<lambda>i. me_user_byte E (addr + of_nat i)) [0..<n] in
      if list_all (\<lambda>b. b \<noteq> None) bs then Some (map the bs) else None)"

definition auxv_bytes :: "mm_env \<Rightarrow> nat" where
  "auxv_bytes E = 8 * me_vector E"

text \<open>The zeroed vector with \<open>bs\<close> copied to its start and its last two words reset to \<open>AT_NULL\<close>.\<close>

definition fill_auxv :: "mm_env \<Rightarrow> bytes \<Rightarrow> bytes" where
  "fill_auxv E bs =
     take (8 * (me_vector E - 2)) (bs @ replicate (auxv_bytes E - List.length bs) 0) @ replicate 16 0"

subsection \<open>Operations\<close>

definition prctl_set_mm_exe_file :: "mm_env \<Rightarrow> mm_struct \<Rightarrow> u32 \<Rightarrow> int \<times> mm_struct" where
  "prctl_set_mm_exe_file E mm fd =
     (case me_fdget E fd of
        None \<Rightarrow> (- EBADF, mm)
      | Some exe \<Rightarrow>
          if \<not> ef_regular exe \<or> ef_noexec exe then (- EACCES, mm)
          else if ef_permission exe \<noteq> 0 then (ef_permission exe, mm)
          else if ef_replace exe \<noteq> 0 then (ef_replace exe, mm)
          else (0, mm\<lparr>exe_file := ef_file exe\<rparr>))"

definition map_addresses :: "'a mm_map_scheme \<Rightarrow> u64 list" where
  "map_addresses m = [start_code m, end_code m, start_data m, end_data m, start_brk m, brk m,
     start_stack m, arg_start m, arg_end m, env_start m, env_end m]"

definition ordered_pairs :: "'a mm_map_scheme \<Rightarrow> bool" where
  "ordered_pairs m \<longleftrightarrow> start_code m < end_code m \<and> start_data m \<le> end_data m \<and> start_brk m \<le> brk m
     \<and> arg_start m \<le> arg_end m \<and> env_start m \<le> env_end m"

definition validate_prctl_map_addr :: "mm_env \<Rightarrow> 'a mm_map_scheme \<Rightarrow> int" where
  "validate_prctl_map_addr E m =
     (if list_ex (\<lambda>val. val \<ge> me_task_size E \<or> val < me_mmap_min_addr E) (map_addresses m) then - EINVAL
      else if \<not> ordered_pairs m then - EINVAL
      else if me_check_data_rlimit E (me_data_rlimit E) (brk m) (start_brk m) (end_data m) (start_data m) \<noteq> 0
      then - EINVAL
      else 0)"

text \<open>The eleven assignments between the two structures, in either direction.\<close>

definition copy_map :: "'a mm_map_scheme \<Rightarrow> 'b mm_map_scheme \<Rightarrow> 'b mm_map_scheme" where
  "copy_map m mm =
     mm\<lparr>start_code := start_code m, end_code := end_code m, start_data := start_data m,
        end_data := end_data m, start_brk := start_brk m, brk := brk m, start_stack := start_stack m,
        arg_start := arg_start m, arg_end := arg_end m, env_start := env_start m, env_end := env_end m\<rparr>"

text \<open>\<open>user_auxv\<close> is \<open>None\<close> when the map carries no vector.\<close>

definition read_map_auxv :: "mm_env \<Rightarrow> prctl_mm_map \<Rightarrow> int + bytes option" where
  "read_map_auxv E m =
     (if auxv_size m = 0 then Inr None
      else if map_auxv m = 0 \<or> unat (auxv_size m) > auxv_bytes E then Inl (- EINVAL)
      else (case copy_from_user E (map_auxv m) (unat (auxv_size m)) of
              None \<Rightarrow> Inl (- EFAULT)
            | Some bs \<Rightarrow> Inr (Some (fill_auxv E bs))))"

definition prctl_set_mm_map ::
  "mm_env \<Rightarrow> mm_opt \<Rightarrow> u64 \<Rightarrow> u64 \<Rightarrow> mm_struct \<Rightarrow> int \<times> mm_struct \<times> mm_copy list" where
  "prctl_set_mm_map E opt addr data_size mm =
     (if opt = PR_SET_MM_MAP_SIZE then
        (if me_unwritable E addr then (- EFAULT, mm, []) else (0, mm, [Copy_Size addr (me_map_size E)]))
      else if data_size \<noteq> me_map_size E then (- EINVAL, mm, [])
      else (case me_user_map E addr of
              None \<Rightarrow> (- EFAULT, mm, [])
            | Some m \<Rightarrow>
                (let error = validate_prctl_map_addr E m in
                 if error \<noteq> 0 then (error, mm, [])
                 else (case read_map_auxv E m of
                         Inl error \<Rightarrow> (error, mm, [])
                       | Inr user_auxv \<Rightarrow>
                           (let (error, mm') =
                                  (if exe_fd m = - 1 then (0, mm)
                                   else if \<not> me_restore_capable E then (- EPERM, mm)
                                   else prctl_set_mm_exe_file E mm (exe_fd m))
                            in if error \<noteq> 0 then (error, mm', [])
                               else (0, (let mm'' = copy_map m mm' in
                                         case user_auxv of
                                           None \<Rightarrow> mm''
                                         | Some a \<Rightarrow> mm''\<lparr>saved_auxv := a\<rparr>), []))))))"

definition prctl_set_auxv :: "mm_env \<Rightarrow> mm_struct \<Rightarrow> u64 \<Rightarrow> u64 \<Rightarrow> int \<times> mm_struct" where
  "prctl_set_auxv E mm addr len =
     (if unat len > auxv_bytes E then (- EINVAL, mm)
      else (case copy_from_user E addr (unat len) of
              None \<Rightarrow> (- EFAULT, mm)
            | Some bs \<Rightarrow>
                (0, mm\<lparr>saved_auxv := take (unat len) (fill_auxv E bs) @ drop (unat len) (saved_auxv mm)\<rparr>)))"

text \<open>The first \<open>switch\<close> of \<open>prctl_set_mm\<close>; its default case leaves with \<open>-EINVAL\<close>.\<close>

definition assign_addr :: "mm_opt \<Rightarrow> u64 \<Rightarrow> 'a mm_map_scheme \<Rightarrow> 'a mm_map_scheme option" where
  "assign_addr opt addr m =
     (case opt of
        PR_SET_MM_START_CODE \<Rightarrow> Some (m\<lparr>start_code := addr\<rparr>)
      | PR_SET_MM_END_CODE \<Rightarrow> Some (m\<lparr>end_code := addr\<rparr>)
      | PR_SET_MM_START_DATA \<Rightarrow> Some (m\<lparr>start_data := addr\<rparr>)
      | PR_SET_MM_END_DATA \<Rightarrow> Some (m\<lparr>end_data := addr\<rparr>)
      | PR_SET_MM_START_STACK \<Rightarrow> Some (m\<lparr>start_stack := addr\<rparr>)
      | PR_SET_MM_START_BRK \<Rightarrow> Some (m\<lparr>start_brk := addr\<rparr>)
      | PR_SET_MM_BRK \<Rightarrow> Some (m\<lparr>brk := addr\<rparr>)
      | PR_SET_MM_ARG_START \<Rightarrow> Some (m\<lparr>arg_start := addr\<rparr>)
      | PR_SET_MM_ARG_END \<Rightarrow> Some (m\<lparr>arg_end := addr\<rparr>)
      | PR_SET_MM_ENV_START \<Rightarrow> Some (m\<lparr>env_start := addr\<rparr>)
      | PR_SET_MM_ENV_END \<Rightarrow> Some (m\<lparr>env_end := addr\<rparr>)
      | _ \<Rightarrow> None)"

definition needs_vma :: "mm_opt \<Rightarrow> bool" where
  "needs_vma opt \<longleftrightarrow> opt \<in> {PR_SET_MM_START_STACK, PR_SET_MM_ARG_START, PR_SET_MM_ARG_END,
                           PR_SET_MM_ENV_START, PR_SET_MM_ENV_END}"

definition empty_map :: prctl_mm_map where
  "empty_map = \<lparr>start_code = 0, end_code = 0, start_data = 0, end_data = 0, start_brk = 0, brk = 0,
     start_stack = 0, arg_start = 0, arg_end = 0, env_start = 0, env_end = 0,
     map_auxv = 0, auxv_size = 0, exe_fd = - 1\<rparr>"

definition prctl_set_mm ::
  "mm_env \<Rightarrow> mm_opt \<Rightarrow> u64 \<Rightarrow> u64 \<Rightarrow> u64 \<Rightarrow> mm_struct \<Rightarrow> int \<times> mm_struct \<times> mm_copy list" where
  "prctl_set_mm E opt addr arg4 arg5 mm =
     (if arg5 \<noteq> 0 \<or> (arg4 \<noteq> 0 \<and> opt \<noteq> PR_SET_MM_AUXV \<and> opt \<noteq> PR_SET_MM_MAP \<and> opt \<noteq> PR_SET_MM_MAP_SIZE)
      then (- EINVAL, mm, [])
      else if me_checkpoint_restore E \<and> (opt = PR_SET_MM_MAP \<or> opt = PR_SET_MM_MAP_SIZE)
      then prctl_set_mm_map E opt addr arg4 mm
      else if \<not> me_capable E then (- EPERM, mm, [])
      else if opt = PR_SET_MM_EXE_FILE then
        (let (r, mm') = prctl_set_mm_exe_file E mm (ucast addr) in (r, mm', []))
      else if opt = PR_SET_MM_AUXV then
        (let (r, mm') = prctl_set_auxv E mm addr arg4 in (r, mm', []))
      else if addr \<ge> me_task_size E \<or> addr < me_mmap_min_addr E then (- EINVAL, mm, [])
      else (case assign_addr opt addr (copy_map mm empty_map) of
              None \<Rightarrow> (- EINVAL, mm, [])
            | Some m \<Rightarrow>
                (let error = validate_prctl_map_addr E m in
                 if error \<noteq> 0 then (error, mm, [])
                 else if needs_vma opt \<and> \<not> me_find_vma E addr then (- EFAULT, mm, [])
                 else (0, copy_map m mm, []))))"

definition prctl_get_auxv :: "mm_env \<Rightarrow> mm_struct \<Rightarrow> u64 \<Rightarrow> u64 \<Rightarrow> int \<times> mm_copy list" where
  "prctl_get_auxv E mm addr len =
     (let size = min (auxv_bytes E) (unat len) in
      if 0 < size \<and> me_unwritable E addr then (- EFAULT, [])
      else (int (auxv_bytes E), if 0 < size then [Copy_Bytes addr (take size (saved_auxv mm))] else []))"


subsection \<open>The layout invariant\<close>

text \<open>
  Every address inside the user space, the pairs in order, the data segment within its
  limit, and a saved vector of the right size that ends in two \<open>AT_NULL\<close> words.
\<close>

definition layout_ok :: "mm_env \<Rightarrow> 'a mm_map_scheme \<Rightarrow> bool" where
  "layout_ok E m \<longleftrightarrow> list_all (\<lambda>a. me_mmap_min_addr E \<le> a \<and> a < me_task_size E) (map_addresses m)
     \<and> ordered_pairs m
     \<and> me_check_data_rlimit E (me_data_rlimit E) (brk m) (start_brk m) (end_data m) (start_data m) = 0"

definition auxv_ok :: "mm_env \<Rightarrow> bytes \<Rightarrow> bool" where
  "auxv_ok E a \<longleftrightarrow> List.length a = auxv_bytes E \<and> drop (8 * (me_vector E - 2)) a = replicate 16 0"

definition mm_ok :: "mm_env \<Rightarrow> mm_struct \<Rightarrow> bool" where
  "mm_ok E mm \<longleftrightarrow> layout_ok E mm \<and> auxv_ok E (saved_auxv mm)"

lemma validate_iff_layout: "validate_prctl_map_addr E m = 0 \<longleftrightarrow> layout_ok E m"
  by (auto simp: validate_prctl_map_addr_def layout_ok_def list_all_iff list_ex_iff not_le not_less)

lemma copy_map_fields [simp]:
  "map_addresses (copy_map m mm) = map_addresses m" "ordered_pairs (copy_map m mm) = ordered_pairs m"
  "brk (copy_map m mm) = brk m" "start_brk (copy_map m mm) = start_brk m"
  "end_data (copy_map m mm) = end_data m" "start_data (copy_map m mm) = start_data m"
  by (simp_all add: copy_map_def map_addresses_def ordered_pairs_def)

lemma copy_map_keeps [simp]:
  "saved_auxv (copy_map m mm) = saved_auxv mm" "exe_file (copy_map m mm) = exe_file mm"
  by (simp_all add: copy_map_def)

lemma layout_copy [simp]: "layout_ok E (copy_map m mm) = layout_ok E m"
  by (simp add: layout_ok_def)

lemma layout_exe [simp]: "layout_ok E (mm\<lparr>exe_file := f\<rparr>) = layout_ok E mm"
  "layout_ok E (mm\<lparr>saved_auxv := a\<rparr>) = layout_ok E mm"
  by (simp_all add: layout_ok_def map_addresses_def ordered_pairs_def)

lemma fill_auxv_ok:
  assumes "2 \<le> me_vector E" and "List.length bs \<le> auxv_bytes E"
  shows "auxv_ok E (fill_auxv E bs)"
  using assms by (simp add: auxv_ok_def fill_auxv_def auxv_bytes_def)

lemma copied_length: "copy_from_user E addr n = Some bs \<Longrightarrow> List.length bs = n"
  by (auto simp: copy_from_user_def Let_def split: if_splits)

lemma splice_auxv_ok:
  assumes "auxv_ok E a" and "auxv_ok E b" and "n \<le> auxv_bytes E"
  shows "auxv_ok E (take n a @ drop n b)"
proof -
  let ?k = "8 * (me_vector E - 2)"
  have len: "List.length a = auxv_bytes E" "List.length b = auxv_bytes E"
    and tail: "drop ?k a = replicate 16 0" "drop ?k b = replicate 16 0"
    using assms by (simp_all add: auxv_ok_def)
  have "drop ?k (take n a @ drop n b) = replicate 16 0"
  proof (cases "n \<le> ?k")
    case True
    then show ?thesis using tail len assms(3) by simp
  next
    case False
    have "drop ?k (take n a) = take (n - ?k) (replicate 16 0)"
      using tail(1) by (simp add: drop_take)
    moreover have "drop n b = drop (n - ?k) (replicate 16 0)"
      using tail(2) False by (metis drop_drop le_add_diff_inverse2 nat_le_linear)
    ultimately show ?thesis using False len assms(3)
      by (simp del: take_replicate drop_replicate)
  qed
  then show ?thesis using len assms(3) by (simp add: auxv_ok_def)
qed

lemma exe_file_keeps: "mm_ok E mm \<Longrightarrow> mm_ok E (snd (prctl_set_mm_exe_file E mm fd))"
  by (auto simp: prctl_set_mm_exe_file_def mm_ok_def split: option.split)

lemma exe_file_error: "fst (prctl_set_mm_exe_file E mm fd) \<noteq> 0 \<Longrightarrow> snd (prctl_set_mm_exe_file E mm fd) = mm"
  by (auto simp: prctl_set_mm_exe_file_def split: option.splits)

lemma set_auxv_keeps:
  assumes "mm_ok E mm" and "2 \<le> me_vector E"
  shows "mm_ok E (snd (prctl_set_auxv E mm addr len))"
  using assms copied_length
  by (auto simp: prctl_set_auxv_def mm_ok_def not_less split: option.split
      intro!: splice_auxv_ok fill_auxv_ok)

lemma read_map_auxv_ok:
  assumes "read_map_auxv E m = Inr (Some a)" and "2 \<le> me_vector E"
  shows "auxv_ok E a"
  using assms copied_length
  by (auto simp: read_map_auxv_def not_less split: if_splits option.splits intro!: fill_auxv_ok)

lemma set_mm_map_keeps:
  assumes "mm_ok E mm" and "2 \<le> me_vector E"
  shows "mm_ok E (fst (snd (prctl_set_mm_map E opt addr sz mm)))"
  using assms exe_file_keeps exe_file_error
  by (auto simp: prctl_set_mm_map_def mm_ok_def validate_iff_layout Let_def split_beta
      intro: read_map_auxv_ok split: option.split sum.split)

lemma set_mm_keeps:
  assumes "mm_ok E mm" and "2 \<le> me_vector E"
  shows "mm_ok E (fst (snd (prctl_set_mm E opt addr arg4 arg5 mm)))"
  using assms set_mm_map_keeps exe_file_keeps set_auxv_keeps
  by (auto simp: prctl_set_mm_def Let_def split_beta split: option.split)
    (auto simp: mm_ok_def validate_iff_layout)


lemma set_mm_map_error:
  "fst (prctl_set_mm_map E opt addr sz mm) = 0 \<or> fst (snd (prctl_set_mm_map E opt addr sz mm)) = mm"
  by (simp add: prctl_set_mm_map_def Let_def split_beta exe_file_error split: option.split sum.split)

lemma set_auxv_error: "fst (prctl_set_auxv E mm addr len) = 0 \<or> snd (prctl_set_auxv E mm addr len) = mm"
  by (simp add: prctl_set_auxv_def split: option.split)

lemma set_mm_error:
  "fst (prctl_set_mm E opt addr arg4 arg5 mm) = 0 \<or> fst (snd (prctl_set_mm E opt addr arg4 arg5 mm)) = mm"
  using set_mm_map_error [of E opt addr arg4 mm] set_auxv_error [of E mm addr arg4]
    exe_file_error [of E mm "ucast addr"]
  by (simp add: prctl_set_mm_def Let_def split_beta split: option.split) blast

text \<open>
  A step is one call, by any task that shares the memory, with any arguments and with the
  files, the capabilities and the user memory of that moment; the address limits are the same.
\<close>

definition same_limits :: "mm_env \<Rightarrow> mm_env \<Rightarrow> bool" where
  "same_limits B E \<longleftrightarrow> me_task_size E = me_task_size B \<and> me_mmap_min_addr E = me_mmap_min_addr B
     \<and> me_vector E = me_vector B \<and> me_data_rlimit E = me_data_rlimit B
     \<and> me_check_data_rlimit E = me_check_data_rlimit B"

inductive mm_step :: "mm_env \<Rightarrow> mm_struct \<Rightarrow> mm_struct \<Rightarrow> bool" for B :: mm_env where
  "same_limits B E \<Longrightarrow> mm_step B mm (fst (snd (prctl_set_mm E opt addr arg4 arg5 mm)))"

inductive_cases mm_stepE: "mm_step B mm mm'"

lemma same_limits_ok: "same_limits B E \<Longrightarrow> mm_ok E mm = mm_ok B mm"
  by (simp add: same_limits_def mm_ok_def layout_ok_def auxv_ok_def auxv_bytes_def)

text \<open>The invariant is a contract only for a vector that has room for its terminator.\<close>

definition mm_inv :: "mm_env \<Rightarrow> mm_struct \<Rightarrow> bool" where
  "mm_inv B mm \<longleftrightarrow> 2 \<le> me_vector B \<and> mm_ok B mm"

interpretation mm_sys: step_system "mm_step B" "mm_inv B" for B
proof unfold_locales
  fix s t
  assume inv: "mm_inv B s" and "mm_step B s t"
  from this(2) obtain E opt addr arg4 arg5
    where same: "same_limits B E" and t: "t = fst (snd (prctl_set_mm E opt addr arg4 arg5 s))"
    by (rule mm_stepE)
  have "2 \<le> me_vector E" "mm_ok E s"
    using inv same same_limits_ok [OF same, of s] by (simp_all add: mm_inv_def same_limits_def)
  then have "mm_ok E t" unfolding t by (intro set_mm_keeps)
  then show "mm_inv B t" using inv same_limits_ok [OF same, of t] by (simp add: mm_inv_def)
qed

text \<open>C28: no sequence of \<open>PR_SET_MM\<close> calls, whichever options, addresses and capabilities they
  come with, breaks the description of the address space: each address stays inside the user
  range, each segment starts no later than it ends, the data segment keeps to its limit and
  the saved auxiliary vector keeps its size and its two closing \<open>AT_NULL\<close> words.\<close>
theorem mm_layout_kept:
  assumes "2 \<le> me_vector B" and "mm_ok B mm" and "reach (mm_step B) mm mm'"
  shows "mm_ok B mm'"
  using mm_sys.reach_keeps [OF assms(3)] assms(1,2) by (simp add: mm_inv_def)

definition sample_mm_env :: mm_env where
  "sample_mm_env = \<lparr>me_task_size = 0x8000, me_mmap_min_addr = 0x1000, me_vector = 3,
     me_map_size = 104, me_data_rlimit = - 1, me_check_data_rlimit = (\<lambda>r b sb ed sd. 0),
     me_checkpoint_restore = True, me_capable = True, me_restore_capable = False,
     me_user_map = (\<lambda>a. None), me_user_byte = (\<lambda>a. if a < 100 then Some (ucast a) else None),
     me_unwritable = (\<lambda>a. False), me_fdget = (\<lambda>fd. None), me_find_vma = (\<lambda>a. True)\<rparr>"

definition sample_mm :: mm_struct where
  "sample_mm = \<lparr>start_code = 0x1000, end_code = 0x2000, start_data = 0x2000, end_data = 0x3000,
     start_brk = 0x4000, brk = 0x4000, start_stack = 0x7000, arg_start = 0x7100, arg_end = 0x7200,
     env_start = 0x7200, env_end = 0x7300, exe_file = 1, saved_auxv = replicate 24 0\<rparr>"

lemma sample_mm_ok: "mm_ok sample_mm_env sample_mm"
  by (simp add: mm_ok_def layout_ok_def auxv_ok_def auxv_bytes_def map_addresses_def ordered_pairs_def
      sample_mm_env_def sample_mm_def)

lemma sample_set_brk:
  "prctl_set_mm sample_mm_env PR_SET_MM_BRK 0x5000 0 0 sample_mm = (0, sample_mm\<lparr>brk := 0x5000\<rparr>, [])"
  by (simp add: prctl_set_mm_def assign_addr_def validate_prctl_map_addr_def map_addresses_def
      ordered_pairs_def needs_vma_def copy_map_def empty_map_def sample_mm_env_def sample_mm_def)

theorem mm_layout_kept_witness:
  "mm_ok sample_mm_env (sample_mm\<lparr>brk := 0x5000\<rparr>)
   \<and> fst (prctl_set_mm sample_mm_env PR_SET_MM_BRK 0x3fff 0 0 sample_mm) = - EINVAL"
proof
  have "mm_step sample_mm_env sample_mm
      (fst (snd (prctl_set_mm sample_mm_env PR_SET_MM_BRK 0x5000 0 0 sample_mm)))"
    by (rule mm_step.intros) (simp add: same_limits_def)
  then have "reach (mm_step sample_mm_env) sample_mm (sample_mm\<lparr>brk := 0x5000\<rparr>)"
    unfolding sample_set_brk fst_conv snd_conv by (rule reach_one)
  moreover have "2 \<le> me_vector sample_mm_env" by (simp add: sample_mm_env_def)
  ultimately show "mm_ok sample_mm_env (sample_mm\<lparr>brk := 0x5000\<rparr>)"
    using mm_layout_kept sample_mm_ok by blast
  show "fst (prctl_set_mm sample_mm_env PR_SET_MM_BRK 0x3fff 0 0 sample_mm) = - EINVAL"
    by (simp add: prctl_set_mm_def assign_addr_def validate_prctl_map_addr_def map_addresses_def
        ordered_pairs_def needs_vma_def copy_map_def empty_map_def sample_mm_env_def sample_mm_def)
qed

text \<open>The auxiliary vector reads back as it was written: after \<open>PR_SET_MM_AUXV\<close> with a full
  vector, \<open>PR_GET_AUXV\<close> copies the same bytes out, except that the last two words are
  \<open>AT_NULL\<close> whatever the caller put there.\<close>
theorem auxv_round_trip:
  assumes "2 \<le> me_vector E" and "mm_ok E mm" and "me_capable E"
    and "copy_from_user E addr (auxv_bytes E) = Some bs"
    and "unat len = auxv_bytes E" and "\<not> me_unwritable E out"
  shows "\<exists>mm'. prctl_set_mm E PR_SET_MM_AUXV addr len 0 mm = (0, mm', [])
    \<and> prctl_get_auxv E mm' out len
        = (int (auxv_bytes E), [Copy_Bytes out (take (8 * (me_vector E - 2)) bs @ replicate 16 0)])"
proof -
  have "auxv_ok E (fill_auxv E bs)"
    using assms(1,4) copied_length [of E addr "auxv_bytes E" bs] by (auto intro: fill_auxv_ok)
  moreover have "List.length (saved_auxv mm) = auxv_bytes E" "0 < auxv_bytes E"
    using assms(1,2) by (simp_all add: mm_ok_def auxv_ok_def auxv_bytes_def)
  moreover have "fill_auxv E bs = take (8 * (me_vector E - 2)) bs @ replicate 16 0"
    using copied_length [OF assms(4)] by (simp add: fill_auxv_def auxv_bytes_def)
  moreover have "take (auxv_bytes E) (fill_auxv E bs) = fill_auxv E bs"
    using calculation(1) by (simp add: auxv_ok_def)
  ultimately show ?thesis using assms(3-6)
    by (simp add: prctl_set_mm_def prctl_set_auxv_def prctl_get_auxv_def auxv_ok_def Let_def
        del: take_append)
qed

theorem auxv_round_trip_witness:
  "\<exists>mm'. prctl_set_mm sample_mm_env PR_SET_MM_AUXV 10 24 0 sample_mm = (0, mm', [])
    \<and> prctl_get_auxv sample_mm_env mm' 0 24
        = (24, [Copy_Bytes 0 ([10, 11, 12, 13, 14, 15, 16, 17] @ replicate 16 0)])"
proof -
  have bs: "copy_from_user sample_mm_env 10 (auxv_bytes sample_mm_env)
      = Some [10, 11, 12, 13, 14, 15, 16, 17, 18, 19, 20, 21, 22, 23, 24, 25, 26, 27, 28, 29, 30, 31, 32, 33]"
    by (simp add: copy_from_user_def auxv_bytes_def sample_mm_env_def upt_rec)
  have "2 \<le> me_vector sample_mm_env" "me_capable sample_mm_env"
    "unat (24 :: u64) = auxv_bytes sample_mm_env" "\<not> me_unwritable sample_mm_env 0"
    by (simp_all add: sample_mm_env_def auxv_bytes_def)
  from auxv_round_trip [OF this(1) sample_mm_ok this(2) bs this(3,4)] show ?thesis
    by (simp add: auxv_bytes_def sample_mm_env_def)
qed

end
