(* ===== verification/Sys_Prctl.thy ===== *)
theory Sys_Prctl
  imports Sys_Prctl_Mm
begin

text \<open>
  \<open>prctl\<close> in \<open>Practica1/linux-6.6.44/kernel/sys.c\<close>, one definition for each group of cases of
  its \<open>switch\<close>, and the functions only it calls: \<open>prctl_set_vma\<close>, the three MDWE functions,
  \<open>propagate_has_child_subreaper\<close> and \<open>prctl_get_tid_address\<close>. The state is what these options
  read and write of the task, its memory and its process tree; the options that only hand
  their arguments to another part of the kernel have that part as a parameter.
\<close>

subsection \<open>State\<close>

text \<open>
  The flag bits of \<open>task_struct\<close> and \<open>mm_struct\<close> that the file names are kept as sets: \<open>|=\<close>
  adds to the set, \<open>&= ~\<close> removes from it. \<open>pr_comm\<close> holds the bytes of \<open>comm\<close>,
  \<open>pr_has_subreaper\<close> the flag of every process of the tree.
\<close>

datatype task_flag = PF_MCE_PROCESS | PF_MCE_EARLY | PF_MEMALLOC_NOIO | PF_LOCAL_THROTTLE | PF_OTHER nat
datatype mm_flag = MMF_HAS_MDWE | MMF_HAS_MDWE_NO_INHERIT | MMF_DISABLE_THP | MMF_VM_MERGE_ANY

record pr_state =
  pr_pdeath_signal :: u32
  pr_comm :: string
  pr_timer_slack :: u64
  pr_default_slack :: u64
  pr_flags :: "task_flag set"
  pr_no_new_privs :: bool
  pr_is_subreaper :: bool
  pr_has_subreaper :: "nat \<Rightarrow> bool"
  pr_clear_child_tid :: u64
  pr_dumpable :: u64
  pr_mm_flags :: "mm_flag set"
  pr_mm :: mm_struct

text \<open>
  \<open>pe_security\<close> is \<open>security_task_prctl\<close>; \<open>pe_service\<close> the result of an option that is handed
  on whole (seccomp, perf events, user dispatch, core scheduling, speculation control);
  \<open>pe_arch\<close> the macro an architecture defines for an option, if it does; \<open>pe_set_comm\<close> and
  \<open>pe_get_comm\<close> the copies made by \<open>set_task_comm\<close> and \<open>get_task_comm\<close>; \<open>pe_walk\<close> is
  \<open>walk_process_tree\<close>; \<open>pe_ksm\<close> the result of \<open>ksm_enable_merge_any\<close> or
  \<open>ksm_disable_merge_any\<close>, and whether the memory is merged afterwards.
\<close>

record pr_env =
  pe_mm :: mm_env
  pe_mm_opt :: "u64 \<Rightarrow> mm_opt"
  pe_security :: "int \<Rightarrow> u64 \<Rightarrow> u64 \<Rightarrow> u64 \<Rightarrow> u64 \<Rightarrow> int"
  pe_service :: "int \<Rightarrow> u64 \<Rightarrow> u64 \<Rightarrow> u64 \<Rightarrow> u64 \<Rightarrow> int"
  pe_arch :: "int \<Rightarrow> (u64 \<Rightarrow> u64 \<Rightarrow> int) option"
  pe_me :: nat
  pe_child_reaper :: "nat \<Rightarrow> bool"
  pe_walk :: "nat \<Rightarrow> (nat \<Rightarrow> (nat \<Rightarrow> bool) \<Rightarrow> int \<times> (nat \<Rightarrow> bool)) \<Rightarrow> (nat \<Rightarrow> bool) \<Rightarrow> (nat \<Rightarrow> bool)"
  pe_valid_signal :: "u64 \<Rightarrow> bool"
  pe_user_string :: "u64 \<Rightarrow> string option"
  pe_strndup :: "u64 \<Rightarrow> nat \<Rightarrow> string errptr"
  pe_unputable :: "u64 \<Rightarrow> bool"
  pe_set_comm :: "string \<Rightarrow> string"
  pe_get_comm :: "string \<Rightarrow> string"
  pe_sys_resource :: bool
  pe_lock_killed :: bool
  pe_mdwe_supported :: bool
  pe_anon_vma_name :: bool
  pe_anon_alloc :: "string \<Rightarrow> bool"
  pe_madvise_name :: "u64 \<Rightarrow> u64 \<Rightarrow> string option \<Rightarrow> int"
  pe_tid_address :: bool
  pe_sched_core :: bool
  pe_ksm_config :: bool
  pe_ksm :: "bool \<Rightarrow> bool \<Rightarrow> int \<times> bool"

text \<open>What a call writes to the caller, and the name it gives to a range of memory.\<close>

datatype pr_out = Put_Int u64 int | Copy_Comm u64 string | Mm_Out mm_copy | Name_Range u64 u64 "string option"

type_synonym pr_result = "int \<times> pr_state \<times> pr_out list"

text \<open>The values of the options, as the kernel's interface fixes them.\<close>

abbreviation (input) PR_SET_PDEATHSIG :: int where "PR_SET_PDEATHSIG \<equiv> 1"
abbreviation (input) PR_GET_PDEATHSIG :: int where "PR_GET_PDEATHSIG \<equiv> 2"
abbreviation (input) PR_GET_DUMPABLE :: int where "PR_GET_DUMPABLE \<equiv> 3"
abbreviation (input) PR_SET_DUMPABLE :: int where "PR_SET_DUMPABLE \<equiv> 4"
abbreviation (input) PR_GET_UNALIGN :: int where "PR_GET_UNALIGN \<equiv> 5"
abbreviation (input) PR_SET_UNALIGN :: int where "PR_SET_UNALIGN \<equiv> 6"
abbreviation (input) PR_GET_FPEMU :: int where "PR_GET_FPEMU \<equiv> 9"
abbreviation (input) PR_SET_FPEMU :: int where "PR_SET_FPEMU \<equiv> 10"
abbreviation (input) PR_GET_FPEXC :: int where "PR_GET_FPEXC \<equiv> 11"
abbreviation (input) PR_SET_FPEXC :: int where "PR_SET_FPEXC \<equiv> 12"
abbreviation (input) PR_GET_TIMING :: int where "PR_GET_TIMING \<equiv> 13"
abbreviation (input) PR_SET_TIMING :: int where "PR_SET_TIMING \<equiv> 14"
abbreviation (input) PR_SET_NAME :: int where "PR_SET_NAME \<equiv> 15"
abbreviation (input) PR_GET_NAME :: int where "PR_GET_NAME \<equiv> 16"
abbreviation (input) PR_GET_ENDIAN :: int where "PR_GET_ENDIAN \<equiv> 19"
abbreviation (input) PR_SET_ENDIAN :: int where "PR_SET_ENDIAN \<equiv> 20"
abbreviation (input) PR_GET_SECCOMP :: int where "PR_GET_SECCOMP \<equiv> 21"
abbreviation (input) PR_SET_SECCOMP :: int where "PR_SET_SECCOMP \<equiv> 22"
abbreviation (input) PR_GET_TSC :: int where "PR_GET_TSC \<equiv> 25"
abbreviation (input) PR_SET_TSC :: int where "PR_SET_TSC \<equiv> 26"
abbreviation (input) PR_SET_TIMERSLACK :: int where "PR_SET_TIMERSLACK \<equiv> 29"
abbreviation (input) PR_GET_TIMERSLACK :: int where "PR_GET_TIMERSLACK \<equiv> 30"
abbreviation (input) PR_TASK_PERF_EVENTS_DISABLE :: int where "PR_TASK_PERF_EVENTS_DISABLE \<equiv> 31"
abbreviation (input) PR_TASK_PERF_EVENTS_ENABLE :: int where "PR_TASK_PERF_EVENTS_ENABLE \<equiv> 32"
abbreviation (input) PR_MCE_KILL :: int where "PR_MCE_KILL \<equiv> 33"
abbreviation (input) PR_MCE_KILL_GET :: int where "PR_MCE_KILL_GET \<equiv> 34"
abbreviation (input) PR_SET_MM :: int where "PR_SET_MM \<equiv> 35"
abbreviation (input) PR_SET_CHILD_SUBREAPER :: int where "PR_SET_CHILD_SUBREAPER \<equiv> 36"
abbreviation (input) PR_GET_CHILD_SUBREAPER :: int where "PR_GET_CHILD_SUBREAPER \<equiv> 37"
abbreviation (input) PR_SET_NO_NEW_PRIVS :: int where "PR_SET_NO_NEW_PRIVS \<equiv> 38"
abbreviation (input) PR_GET_NO_NEW_PRIVS :: int where "PR_GET_NO_NEW_PRIVS \<equiv> 39"
abbreviation (input) PR_GET_TID_ADDRESS :: int where "PR_GET_TID_ADDRESS \<equiv> 40"
abbreviation (input) PR_SET_THP_DISABLE :: int where "PR_SET_THP_DISABLE \<equiv> 41"
abbreviation (input) PR_GET_THP_DISABLE :: int where "PR_GET_THP_DISABLE \<equiv> 42"
abbreviation (input) PR_MPX_ENABLE_MANAGEMENT :: int where "PR_MPX_ENABLE_MANAGEMENT \<equiv> 43"
abbreviation (input) PR_MPX_DISABLE_MANAGEMENT :: int where "PR_MPX_DISABLE_MANAGEMENT \<equiv> 44"
abbreviation (input) PR_SET_FP_MODE :: int where "PR_SET_FP_MODE \<equiv> 45"
abbreviation (input) PR_GET_FP_MODE :: int where "PR_GET_FP_MODE \<equiv> 46"
abbreviation (input) PR_SVE_SET_VL :: int where "PR_SVE_SET_VL \<equiv> 50"
abbreviation (input) PR_SVE_GET_VL :: int where "PR_SVE_GET_VL \<equiv> 51"
abbreviation (input) PR_GET_SPECULATION_CTRL :: int where "PR_GET_SPECULATION_CTRL \<equiv> 52"
abbreviation (input) PR_SET_SPECULATION_CTRL :: int where "PR_SET_SPECULATION_CTRL \<equiv> 53"
abbreviation (input) PR_PAC_RESET_KEYS :: int where "PR_PAC_RESET_KEYS \<equiv> 54"
abbreviation (input) PR_SET_TAGGED_ADDR_CTRL :: int where "PR_SET_TAGGED_ADDR_CTRL \<equiv> 55"
abbreviation (input) PR_GET_TAGGED_ADDR_CTRL :: int where "PR_GET_TAGGED_ADDR_CTRL \<equiv> 56"
abbreviation (input) PR_SET_IO_FLUSHER :: int where "PR_SET_IO_FLUSHER \<equiv> 57"
abbreviation (input) PR_GET_IO_FLUSHER :: int where "PR_GET_IO_FLUSHER \<equiv> 58"
abbreviation (input) PR_SET_SYSCALL_USER_DISPATCH :: int where "PR_SET_SYSCALL_USER_DISPATCH \<equiv> 59"
abbreviation (input) PR_PAC_SET_ENABLED_KEYS :: int where "PR_PAC_SET_ENABLED_KEYS \<equiv> 60"
abbreviation (input) PR_PAC_GET_ENABLED_KEYS :: int where "PR_PAC_GET_ENABLED_KEYS \<equiv> 61"
abbreviation (input) PR_SCHED_CORE :: int where "PR_SCHED_CORE \<equiv> 62"
abbreviation (input) PR_SME_SET_VL :: int where "PR_SME_SET_VL \<equiv> 63"
abbreviation (input) PR_SME_GET_VL :: int where "PR_SME_GET_VL \<equiv> 64"
abbreviation (input) PR_SET_MDWE :: int where "PR_SET_MDWE \<equiv> 65"
abbreviation (input) PR_GET_MDWE :: int where "PR_GET_MDWE \<equiv> 66"
abbreviation (input) PR_SET_MEMORY_MERGE :: int where "PR_SET_MEMORY_MERGE \<equiv> 67"
abbreviation (input) PR_GET_MEMORY_MERGE :: int where "PR_GET_MEMORY_MERGE \<equiv> 68"
abbreviation (input) PR_RISCV_V_SET_CONTROL :: int where "PR_RISCV_V_SET_CONTROL \<equiv> 69"
abbreviation (input) PR_RISCV_V_GET_CONTROL :: int where "PR_RISCV_V_GET_CONTROL \<equiv> 70"
abbreviation (input) PR_SET_VMA :: int where "PR_SET_VMA \<equiv> 0x53564d41"
abbreviation (input) PR_GET_AUXV :: int where "PR_GET_AUXV \<equiv> 0x41555856"

definition PR_MCE_KILL_CLEAR :: u64 where "PR_MCE_KILL_CLEAR = 0"
definition PR_MCE_KILL_SET :: u64 where "PR_MCE_KILL_SET = 1"
definition PR_MCE_KILL_LATE :: u64 where "PR_MCE_KILL_LATE = 0"
definition PR_MCE_KILL_EARLY :: u64 where "PR_MCE_KILL_EARLY = 1"
definition PR_MCE_KILL_DEFAULT :: u64 where "PR_MCE_KILL_DEFAULT = 2"
definition PR_TIMING_STATISTICAL :: u64 where "PR_TIMING_STATISTICAL = 0"
definition SUID_DUMP_DISABLE :: u64 where "SUID_DUMP_DISABLE = 0"
definition SUID_DUMP_USER :: u64 where "SUID_DUMP_USER = 1"
definition PR_SET_VMA_ANON_NAME :: u64 where "PR_SET_VMA_ANON_NAME = 0"
definition PR_MDWE_REFUSE_EXEC_GAIN :: u64 where "PR_MDWE_REFUSE_EXEC_GAIN = 1"
definition PR_MDWE_NO_INHERIT :: u64 where "PR_MDWE_NO_INHERIT = 2"
definition PR_IO_FLUSHER :: "task_flag set" where "PR_IO_FLUSHER = {PF_MEMALLOC_NOIO, PF_LOCAL_THROTTLE}"

lemmas prctl_values = PR_MCE_KILL_CLEAR_def PR_MCE_KILL_SET_def PR_MCE_KILL_LATE_def
  PR_MCE_KILL_EARLY_def PR_MCE_KILL_DEFAULT_def PR_TIMING_STATISTICAL_def SUID_DUMP_DISABLE_def
  SUID_DUMP_USER_def PR_SET_VMA_ANON_NAME_def PR_MDWE_REFUSE_EXEC_GAIN_def PR_MDWE_NO_INHERIT_def


subsection \<open>Helpers of the file\<close>

text \<open>The macros that are \<open>-EINVAL\<close> unless the architecture defines them, and the weak functions.\<close>

definition arch_ctl :: "pr_env \<Rightarrow> int \<Rightarrow> u64 \<Rightarrow> u64 \<Rightarrow> int" where
  "arch_ctl E option a b = (case pe_arch E option of None \<Rightarrow> - EINVAL | Some f \<Rightarrow> f a b)"

definition prctl_get_tid_address :: "pr_env \<Rightarrow> pr_state \<Rightarrow> u64 \<Rightarrow> int \<times> pr_out list" where
  "prctl_get_tid_address E s tid_addr =
     (if \<not> pe_tid_address E then (- EINVAL, [])
      else if pe_unputable E tid_addr then (- EFAULT, [])
      else (0, [Put_Int tid_addr (uint (pr_clear_child_tid s))]))"

definition propagate_has_child_subreaper :: "pr_env \<Rightarrow> nat \<Rightarrow> (nat \<Rightarrow> bool) \<Rightarrow> int \<times> (nat \<Rightarrow> bool)" where
  "propagate_has_child_subreaper E p has =
     (if has p \<or> pe_child_reaper E p then (0, has) else (1, has(p := True)))"

definition is_valid_name_char :: "char \<Rightarrow> bool" where
  "is_valid_name_char ch \<longleftrightarrow>
     0x1f < (of_char ch :: nat) \<and> (of_char ch :: nat) < 0x7f
     \<and> ch \<notin> {CHR 0x5C, CHR 0x60, CHR ''$'', CHR ''['', CHR '']''}"

definition ANON_VMA_NAME_MAX_LEN :: nat where "ANON_VMA_NAME_MAX_LEN = 80"

definition prctl_set_vma ::
  "pr_env \<Rightarrow> u64 \<Rightarrow> u64 \<Rightarrow> u64 \<Rightarrow> u64 \<Rightarrow> int \<times> pr_out list" where
  "prctl_set_vma E opt addr sz arg =
     (if \<not> pe_anon_vma_name E \<or> opt \<noteq> PR_SET_VMA_ANON_NAME then (- EINVAL, [])
      else
        (let anon_name =
               (if arg = 0 then Inr None
                else (case pe_strndup E arg ANON_VMA_NAME_MAX_LEN of
                        Inl e \<Rightarrow> Inl e
                      | Inr name \<Rightarrow>
                          if \<not> list_all is_valid_name_char name then Inl (- EINVAL)
                          else if \<not> pe_anon_alloc E name then Inl (- ENOMEM)
                          else Inr (Some name)))
         in case anon_name of
              Inl e \<Rightarrow> (e, [])
            | Inr nm \<Rightarrow>
                (let error = pe_madvise_name E addr sz nm
                 in (error, if error = 0 then [Name_Range addr sz nm] else []))))"

definition get_current_mdwe :: "pr_state \<Rightarrow> u64" where
  "get_current_mdwe s =
     (if MMF_HAS_MDWE \<in> pr_mm_flags s then PR_MDWE_REFUSE_EXEC_GAIN else 0) OR
     (if MMF_HAS_MDWE_NO_INHERIT \<in> pr_mm_flags s then PR_MDWE_NO_INHERIT else 0)"

definition prctl_set_mdwe :: "pr_env \<Rightarrow> pr_state \<Rightarrow> u64 \<Rightarrow> u64 \<Rightarrow> u64 \<Rightarrow> u64 \<Rightarrow> int \<times> pr_state" where
  "prctl_set_mdwe E s bits arg3 arg4 arg5 =
     (let current_bits = get_current_mdwe s in
      if arg3 \<noteq> 0 \<or> arg4 \<noteq> 0 \<or> arg5 \<noteq> 0 then (- EINVAL, s)
      else if bits AND NOT (PR_MDWE_REFUSE_EXEC_GAIN OR PR_MDWE_NO_INHERIT) \<noteq> 0 then (- EINVAL, s)
      else if bits AND PR_MDWE_NO_INHERIT \<noteq> 0 \<and> bits AND PR_MDWE_REFUSE_EXEC_GAIN = 0 then (- EINVAL, s)
      else if \<not> pe_mdwe_supported E then (- EINVAL, s)
      else if current_bits \<noteq> 0 \<and> current_bits \<noteq> bits then (- EPERM, s)
      else
        (let flags = (if bits AND PR_MDWE_NO_INHERIT \<noteq> 0
                      then insert MMF_HAS_MDWE_NO_INHERIT (pr_mm_flags s) else pr_mm_flags s);
             flags = (if bits AND PR_MDWE_REFUSE_EXEC_GAIN \<noteq> 0 then insert MMF_HAS_MDWE flags else flags)
         in (0, s\<lparr>pr_mm_flags := flags\<rparr>)))"

definition prctl_get_mdwe :: "pr_state \<Rightarrow> u64 \<Rightarrow> u64 \<Rightarrow> u64 \<Rightarrow> u64 \<Rightarrow> int" where
  "prctl_get_mdwe s arg2 arg3 arg4 arg5 =
     (if arg2 \<noteq> 0 \<or> arg3 \<noteq> 0 \<or> arg4 \<noteq> 0 \<or> arg5 \<noteq> 0 then - EINVAL else c_int (uint (get_current_mdwe s)))"

definition put_int :: "pr_env \<Rightarrow> u64 \<Rightarrow> int \<Rightarrow> pr_state \<Rightarrow> pr_result" where
  "put_int E addr v s = (if pe_unputable E addr then (- EFAULT, s, []) else (0, s, [Put_Int addr v]))"

subsection \<open>The cases of \<open>prctl\<close>\<close>

definition prctl_signal_dump :: "pr_env \<Rightarrow> int \<Rightarrow> u64 \<Rightarrow> pr_state \<Rightarrow> pr_result" where
  "prctl_signal_dump E option arg2 s =
     (if option = PR_SET_PDEATHSIG then
        (if \<not> pe_valid_signal E arg2 then (- EINVAL, s, []) else (0, s\<lparr>pr_pdeath_signal := ucast arg2\<rparr>, []))
      else if option = PR_GET_PDEATHSIG then put_int E arg2 (uint (pr_pdeath_signal s)) s
      else if option = PR_GET_DUMPABLE then (uint (pr_dumpable s), s, [])
      else
        (if arg2 \<noteq> SUID_DUMP_DISABLE \<and> arg2 \<noteq> SUID_DUMP_USER then (- EINVAL, s, [])
         else (0, s\<lparr>pr_dumpable := arg2\<rparr>, [])))"

definition prctl_timing_name :: "pr_env \<Rightarrow> int \<Rightarrow> u64 \<Rightarrow> pr_state \<Rightarrow> pr_result" where
  "prctl_timing_name E option arg2 s =
     (if option = PR_GET_TIMING then (uint PR_TIMING_STATISTICAL, s, [])
      else if option = PR_SET_TIMING then (if arg2 \<noteq> PR_TIMING_STATISTICAL then - EINVAL else 0, s, [])
      else if option = PR_SET_NAME then
        (case pe_user_string E arg2 of
           None \<Rightarrow> (- EFAULT, s, [])
         | Some str \<Rightarrow> (0, s\<lparr>pr_comm := pe_set_comm E (take 15 str)\<rparr>, []))
      else if pe_unputable E arg2 then (- EFAULT, s, [])
      else (0, s, [Copy_Comm arg2 (pe_get_comm E (pr_comm s))]))"

definition prctl_timerslack :: "int \<Rightarrow> u64 \<Rightarrow> pr_state \<Rightarrow> pr_result" where
  "prctl_timerslack option arg2 s =
     (if option = PR_GET_TIMERSLACK then (sint (pr_timer_slack s), s, [])
      else (0, s\<lparr>pr_timer_slack := (if arg2 = 0 then pr_default_slack s else arg2)\<rparr>, []))"

definition prctl_mce :: "int \<Rightarrow> u64 \<Rightarrow> u64 \<Rightarrow> u64 \<Rightarrow> u64 \<Rightarrow> pr_state \<Rightarrow> pr_result" where
  "prctl_mce option arg2 arg3 arg4 arg5 s =
     (if option = PR_MCE_KILL then
        (if arg4 OR arg5 \<noteq> 0 then (- EINVAL, s, [])
         else if arg2 = PR_MCE_KILL_CLEAR then
           (if arg3 \<noteq> 0 then (- EINVAL, s, [])
            else (0, s\<lparr>pr_flags := pr_flags s - {PF_MCE_PROCESS}\<rparr>, []))
         else if arg2 = PR_MCE_KILL_SET then
           (let flags = insert PF_MCE_PROCESS (pr_flags s) in
            if arg3 = PR_MCE_KILL_EARLY then (0, s\<lparr>pr_flags := insert PF_MCE_EARLY flags\<rparr>, [])
            else if arg3 = PR_MCE_KILL_LATE then (0, s\<lparr>pr_flags := flags - {PF_MCE_EARLY}\<rparr>, [])
            else if arg3 = PR_MCE_KILL_DEFAULT
            then (0, s\<lparr>pr_flags := flags - {PF_MCE_EARLY, PF_MCE_PROCESS}\<rparr>, [])
            else (- EINVAL, s\<lparr>pr_flags := flags\<rparr>, []))
         else (- EINVAL, s, []))
      else
        (if arg2 OR arg3 OR arg4 OR arg5 \<noteq> 0 then (- EINVAL, s, [])
         else (if PF_MCE_PROCESS \<in> pr_flags s
               then (if PF_MCE_EARLY \<in> pr_flags s then uint PR_MCE_KILL_EARLY else uint PR_MCE_KILL_LATE)
               else uint PR_MCE_KILL_DEFAULT, s, [])))"

definition prctl_subreaper :: "pr_env \<Rightarrow> int \<Rightarrow> u64 \<Rightarrow> pr_state \<Rightarrow> pr_result" where
  "prctl_subreaper E option arg2 s =
     (if option = PR_SET_CHILD_SUBREAPER then
        (let s = s\<lparr>pr_is_subreaper := (arg2 \<noteq> 0)\<rparr> in
         if arg2 = 0 then (0, s, [])
         else (0, s\<lparr>pr_has_subreaper :=
                    pe_walk E (pe_me E) (propagate_has_child_subreaper E) (pr_has_subreaper s)\<rparr>, []))
      else put_int E arg2 (if pr_is_subreaper s then 1 else 0) s)"

definition prctl_no_new_privs :: "int \<Rightarrow> u64 \<Rightarrow> u64 \<Rightarrow> u64 \<Rightarrow> u64 \<Rightarrow> pr_state \<Rightarrow> pr_result" where
  "prctl_no_new_privs option arg2 arg3 arg4 arg5 s =
     (if option = PR_SET_NO_NEW_PRIVS then
        (if arg2 \<noteq> 1 \<or> arg3 \<noteq> 0 \<or> arg4 \<noteq> 0 \<or> arg5 \<noteq> 0 then (- EINVAL, s, [])
         else (0, s\<lparr>pr_no_new_privs := True\<rparr>, []))
      else
        (if arg2 \<noteq> 0 \<or> arg3 \<noteq> 0 \<or> arg4 \<noteq> 0 \<or> arg5 \<noteq> 0 then (- EINVAL, s, [])
         else (if pr_no_new_privs s then 1 else 0, s, [])))"

definition prctl_thp :: "pr_env \<Rightarrow> int \<Rightarrow> u64 \<Rightarrow> u64 \<Rightarrow> u64 \<Rightarrow> u64 \<Rightarrow> pr_state \<Rightarrow> pr_result" where
  "prctl_thp E option arg2 arg3 arg4 arg5 s =
     (if option = PR_GET_THP_DISABLE then
        (if arg2 \<noteq> 0 \<or> arg3 \<noteq> 0 \<or> arg4 \<noteq> 0 \<or> arg5 \<noteq> 0 then (- EINVAL, s, [])
         else (if MMF_DISABLE_THP \<in> pr_mm_flags s then 1 else 0, s, []))
      else if arg3 \<noteq> 0 \<or> arg4 \<noteq> 0 \<or> arg5 \<noteq> 0 then (- EINVAL, s, [])
      else if pe_lock_killed E then (- EINTR, s, [])
      else (0, s\<lparr>pr_mm_flags := (if arg2 \<noteq> 0 then insert MMF_DISABLE_THP (pr_mm_flags s)
                                 else pr_mm_flags s - {MMF_DISABLE_THP})\<rparr>, []))"

definition prctl_fp_vector :: "pr_env \<Rightarrow> int \<Rightarrow> u64 \<Rightarrow> int" where
  "prctl_fp_vector E option arg2 =
     (if option \<in> {PR_SET_UNALIGN, PR_GET_UNALIGN, PR_SET_FPEMU, PR_GET_FPEMU, PR_SET_FPEXC, PR_GET_FPEXC,
                  PR_GET_ENDIAN, PR_SET_ENDIAN, PR_GET_TSC, PR_SET_TSC, PR_SET_FP_MODE, PR_SVE_SET_VL,
                  PR_SME_SET_VL, PR_RISCV_V_SET_CONTROL} then arch_ctl E option arg2 0
      else arch_ctl E option 0 0)"

definition prctl_arch_keys :: "pr_env \<Rightarrow> int \<Rightarrow> u64 \<Rightarrow> u64 \<Rightarrow> u64 \<Rightarrow> u64 \<Rightarrow> int" where
  "prctl_arch_keys E option arg2 arg3 arg4 arg5 =
     (if option \<in> {PR_GET_SPECULATION_CTRL, PR_PAC_RESET_KEYS, PR_SET_TAGGED_ADDR_CTRL} then
        (if arg3 \<noteq> 0 \<or> arg4 \<noteq> 0 \<or> arg5 \<noteq> 0 then - EINVAL else arch_ctl E option arg2 0)
      else if option \<in> {PR_SET_SPECULATION_CTRL, PR_PAC_SET_ENABLED_KEYS} then
        (if arg4 \<noteq> 0 \<or> arg5 \<noteq> 0 then - EINVAL else arch_ctl E option arg2 arg3)
      else
        (if arg2 \<noteq> 0 \<or> arg3 \<noteq> 0 \<or> arg4 \<noteq> 0 \<or> arg5 \<noteq> 0 then - EINVAL else arch_ctl E option 0 0))"

definition prctl_io_flusher :: "pr_env \<Rightarrow> int \<Rightarrow> u64 \<Rightarrow> u64 \<Rightarrow> u64 \<Rightarrow> u64 \<Rightarrow> pr_state \<Rightarrow> pr_result" where
  "prctl_io_flusher E option arg2 arg3 arg4 arg5 s =
     (if \<not> pe_sys_resource E then (- EPERM, s, [])
      else if option = PR_SET_IO_FLUSHER then
        (if arg3 \<noteq> 0 \<or> arg4 \<noteq> 0 \<or> arg5 \<noteq> 0 then (- EINVAL, s, [])
         else if arg2 = 1 then (0, s\<lparr>pr_flags := pr_flags s \<union> PR_IO_FLUSHER\<rparr>, [])
         else if arg2 = 0 then (0, s\<lparr>pr_flags := pr_flags s - PR_IO_FLUSHER\<rparr>, [])
         else (- EINVAL, s, []))
      else
        (if arg2 \<noteq> 0 \<or> arg3 \<noteq> 0 \<or> arg4 \<noteq> 0 \<or> arg5 \<noteq> 0 then (- EINVAL, s, [])
         else (if PR_IO_FLUSHER \<subseteq> pr_flags s then 1 else 0, s, [])))"

definition prctl_memory_merge :: "pr_env \<Rightarrow> int \<Rightarrow> u64 \<Rightarrow> u64 \<Rightarrow> u64 \<Rightarrow> u64 \<Rightarrow> pr_state \<Rightarrow> pr_result" where
  "prctl_memory_merge E option arg2 arg3 arg4 arg5 s =
     (if \<not> pe_ksm_config E then (- EINVAL, s, [])
      else if option = PR_SET_MEMORY_MERGE then
        (if arg3 \<noteq> 0 \<or> arg4 \<noteq> 0 \<or> arg5 \<noteq> 0 then (- EINVAL, s, [])
         else if pe_lock_killed E then (- EINTR, s, [])
         else
           (let (error, merged) = pe_ksm E (arg2 \<noteq> 0) (MMF_VM_MERGE_ANY \<in> pr_mm_flags s)
            in (error, s\<lparr>pr_mm_flags := (if merged then insert MMF_VM_MERGE_ANY (pr_mm_flags s)
                                        else pr_mm_flags s - {MMF_VM_MERGE_ANY})\<rparr>, [])))
      else
        (if arg2 \<noteq> 0 \<or> arg3 \<noteq> 0 \<or> arg4 \<noteq> 0 \<or> arg5 \<noteq> 0 then (- EINVAL, s, [])
         else (if MMF_VM_MERGE_ANY \<in> pr_mm_flags s then 1 else 0, s, [])))"

definition prctl_memory :: "pr_env \<Rightarrow> int \<Rightarrow> u64 \<Rightarrow> u64 \<Rightarrow> u64 \<Rightarrow> u64 \<Rightarrow> pr_state \<Rightarrow> pr_result" where
  "prctl_memory E option arg2 arg3 arg4 arg5 s =
     (if option = PR_SET_MM then
        (let (error, mm, out) = prctl_set_mm (pe_mm E) (pe_mm_opt E arg2) arg3 arg4 arg5 (pr_mm s)
         in (error, s\<lparr>pr_mm := mm\<rparr>, map Mm_Out out))
      else if option = PR_SET_MDWE then
        (let (error, s') = prctl_set_mdwe E s arg2 arg3 arg4 arg5 in (error, s', []))
      else if option = PR_GET_MDWE then (prctl_get_mdwe s arg2 arg3 arg4 arg5, s, [])
      else if option = PR_SET_VMA then
        (let (error, out) = prctl_set_vma E arg2 arg3 arg4 arg5 in (error, s, out))
      else if arg4 \<noteq> 0 \<or> arg5 \<noteq> 0 then (- EINVAL, s, [])
      else (let (error, out) = prctl_get_auxv (pe_mm E) (pr_mm s) arg2 arg3 in (error, s, map Mm_Out out)))"

definition prctl_switch :: "pr_env \<Rightarrow> int \<Rightarrow> u64 \<Rightarrow> u64 \<Rightarrow> u64 \<Rightarrow> u64 \<Rightarrow> pr_state \<Rightarrow> pr_result" where
  "prctl_switch E option arg2 arg3 arg4 arg5 s =
     (if option \<in> {PR_SET_PDEATHSIG, PR_GET_PDEATHSIG, PR_GET_DUMPABLE, PR_SET_DUMPABLE}
      then prctl_signal_dump E option arg2 s
      else if option \<in> {PR_GET_TIMING, PR_SET_TIMING, PR_SET_NAME, PR_GET_NAME}
      then prctl_timing_name E option arg2 s
      else if option \<in> {PR_GET_TIMERSLACK, PR_SET_TIMERSLACK} then prctl_timerslack option arg2 s
      else if option \<in> {PR_MCE_KILL, PR_MCE_KILL_GET} then prctl_mce option arg2 arg3 arg4 arg5 s
      else if option = PR_GET_TID_ADDRESS then
        (let (error, out) = prctl_get_tid_address E s arg2 in (error, s, out))
      else if option \<in> {PR_SET_CHILD_SUBREAPER, PR_GET_CHILD_SUBREAPER} then prctl_subreaper E option arg2 s
      else if option \<in> {PR_SET_NO_NEW_PRIVS, PR_GET_NO_NEW_PRIVS}
      then prctl_no_new_privs option arg2 arg3 arg4 arg5 s
      else if option \<in> {PR_GET_THP_DISABLE, PR_SET_THP_DISABLE} then prctl_thp E option arg2 arg3 arg4 arg5 s
      else if option \<in> {PR_SET_UNALIGN, PR_GET_UNALIGN, PR_SET_FPEMU, PR_GET_FPEMU, PR_SET_FPEXC, PR_GET_FPEXC,
                        PR_GET_ENDIAN, PR_SET_ENDIAN, PR_GET_TSC, PR_SET_TSC, PR_SET_FP_MODE, PR_GET_FP_MODE,
                        PR_SVE_SET_VL, PR_SVE_GET_VL, PR_SME_SET_VL, PR_SME_GET_VL,
                        PR_RISCV_V_SET_CONTROL, PR_RISCV_V_GET_CONTROL}
      then (prctl_fp_vector E option arg2, s, [])
      else if option \<in> {PR_GET_SPECULATION_CTRL, PR_SET_SPECULATION_CTRL, PR_PAC_RESET_KEYS,
                        PR_PAC_SET_ENABLED_KEYS, PR_PAC_GET_ENABLED_KEYS, PR_SET_TAGGED_ADDR_CTRL,
                        PR_GET_TAGGED_ADDR_CTRL}
      then (prctl_arch_keys E option arg2 arg3 arg4 arg5, s, [])
      else if option \<in> {PR_SET_IO_FLUSHER, PR_GET_IO_FLUSHER} then prctl_io_flusher E option arg2 arg3 arg4 arg5 s
      else if option \<in> {PR_SET_MM, PR_SET_MDWE, PR_GET_MDWE, PR_SET_VMA, PR_GET_AUXV}
      then prctl_memory E option arg2 arg3 arg4 arg5 s
      else if option \<in> {PR_SET_MEMORY_MERGE, PR_GET_MEMORY_MERGE}
      then prctl_memory_merge E option arg2 arg3 arg4 arg5 s
      else if option \<in> {PR_GET_SECCOMP, PR_SET_SECCOMP, PR_TASK_PERF_EVENTS_DISABLE,
                        PR_TASK_PERF_EVENTS_ENABLE, PR_SET_SYSCALL_USER_DISPATCH}
           \<or> option = PR_SCHED_CORE \<and> pe_sched_core E
      then (pe_service E option arg2 arg3 arg4 arg5, s, [])
      else (- EINVAL, s, []))"

definition prctl :: "pr_env \<Rightarrow> int \<Rightarrow> u64 \<Rightarrow> u64 \<Rightarrow> u64 \<Rightarrow> u64 \<Rightarrow> pr_state \<Rightarrow> pr_result" where
  "prctl E option arg2 arg3 arg4 arg5 s =
     (let error = pe_security E option arg2 arg3 arg4 arg5 in
      if error \<noteq> - ENOSYS then (error, s, []) else prctl_switch E option arg2 arg3 arg4 arg5 s)"


subsection \<open>What no call takes back\<close>

text \<open>
  \<open>kept B s r\<close>: the state in the result \<open>r\<close> of a call made in state \<open>s\<close> has not lost
  \<open>no_new_privs\<close>, has the same MDWE protection if there was one, and describes the address
  space as consistently as before.
\<close>

definition kept :: "mm_env \<Rightarrow> pr_state \<Rightarrow> pr_result \<Rightarrow> bool" where
  "kept B s r \<longleftrightarrow> (pr_no_new_privs s \<longrightarrow> pr_no_new_privs (fst (snd r)))
     \<and> (get_current_mdwe s \<noteq> 0 \<longrightarrow> get_current_mdwe (fst (snd r)) = get_current_mdwe s)
     \<and> (mm_inv B (pr_mm s) \<longrightarrow> mm_inv B (pr_mm (fst (snd r))))"

lemma kept_same [simp]: "kept B s (e, s, out)"
  by (simp add: kept_def)

lemma kept_if: "kept B s x \<Longrightarrow> kept B s y \<Longrightarrow> kept B s (if b then x else y)"
  by simp

text \<open>Updates that touch none of the three.\<close>

lemma kept_updates [simp]:
  "kept B s (e, s\<lparr>pr_pdeath_signal := a\<rparr>, out)" "kept B s (e, s\<lparr>pr_dumpable := b\<rparr>, out)"
  "kept B s (e, s\<lparr>pr_comm := c\<rparr>, out)" "kept B s (e, s\<lparr>pr_timer_slack := d\<rparr>, out)"
  "kept B s (e, s\<lparr>pr_flags := f\<rparr>, out)" "kept B s (e, s\<lparr>pr_is_subreaper := g\<rparr>, out)"
  "kept B s (e, s\<lparr>pr_is_subreaper := g, pr_has_subreaper := h\<rparr>, out)"
  "kept B s (e, s\<lparr>pr_no_new_privs := True\<rparr>, out)"
  by (simp_all add: kept_def get_current_mdwe_def)

lemma kept_mm_flags:
  "fl \<inter> {MMF_HAS_MDWE, MMF_HAS_MDWE_NO_INHERIT} = pr_mm_flags s \<inter> {MMF_HAS_MDWE, MMF_HAS_MDWE_NO_INHERIT}
   \<Longrightarrow> kept B s (e, s\<lparr>pr_mm_flags := fl\<rparr>, out)"
  by (simp add: kept_def get_current_mdwe_def set_eq_iff) metis

lemma kept_other_flags [simp]:
  "kept B s (e, s\<lparr>pr_mm_flags := insert MMF_DISABLE_THP (pr_mm_flags s)\<rparr>, out)"
  "kept B s (e, s\<lparr>pr_mm_flags := pr_mm_flags s - {MMF_DISABLE_THP}\<rparr>, out)"
  "kept B s (e, s\<lparr>pr_mm_flags := insert MMF_VM_MERGE_ANY (pr_mm_flags s)\<rparr>, out)"
  "kept B s (e, s\<lparr>pr_mm_flags := pr_mm_flags s - {MMF_VM_MERGE_ANY}\<rparr>, out)"
  by (rule kept_mm_flags, blast)+

lemma kept_mdwe: "kept B s (fst (prctl_set_mdwe E s bits a b c), snd (prctl_set_mdwe E s bits a b c), out)"
  by (cases "MMF_HAS_MDWE \<in> pr_mm_flags s"; cases "MMF_HAS_MDWE_NO_INHERIT \<in> pr_mm_flags s")
    (auto simp: prctl_set_mdwe_def kept_def get_current_mdwe_def prctl_values Let_def)

lemma kept_mm:
  assumes "same_limits B (pe_mm E)"
  shows "kept B s (e, s\<lparr>pr_mm := fst (snd (prctl_set_mm (pe_mm E) opt a b c (pr_mm s)))\<rparr>, out)"
  using mm_sys.step_keeps [OF _ mm_step.intros [OF assms]]
  by (simp add: kept_def get_current_mdwe_def)

lemma kept_groups:
  "kept B s (prctl_signal_dump E option arg2 s)" "kept B s (prctl_timing_name E option arg2 s)"
  "kept B s (prctl_timerslack option arg2 s)" "kept B s (prctl_mce option arg2 arg3 arg4 arg5 s)"
  "kept B s (prctl_subreaper E option arg2 s)" "kept B s (prctl_no_new_privs option arg2 arg3 arg4 arg5 s)"
  "kept B s (prctl_thp E option arg2 arg3 arg4 arg5 s)"
  "kept B s (prctl_io_flusher E option arg2 arg3 arg4 arg5 s)"
  "kept B s (prctl_memory_merge E option arg2 arg3 arg4 arg5 s)"
  by (simp_all add: prctl_signal_dump_def prctl_timing_name_def prctl_timerslack_def prctl_mce_def
      prctl_subreaper_def prctl_no_new_privs_def prctl_thp_def prctl_io_flusher_def
      prctl_memory_merge_def put_int_def Let_def split_beta split: option.split)

lemma kept_memory:
  "same_limits B (pe_mm E) \<Longrightarrow> kept B s (prctl_memory E option arg2 arg3 arg4 arg5 s)"
  by (simp add: prctl_memory_def split_beta kept_mdwe kept_mm)

lemma kept_switch:
  "same_limits B (pe_mm E) \<Longrightarrow> kept B s (prctl_switch E option arg2 arg3 arg4 arg5 s)"
  unfolding prctl_switch_def
  by (intro kept_if kept_groups kept_memory) (simp_all add: split_beta)

text \<open>A step is one \<open>prctl\<close> call with any arguments, in any circumstances with the same address limits.\<close>

inductive prctl_step :: "mm_env \<Rightarrow> pr_state \<Rightarrow> pr_state \<Rightarrow> bool" for B :: mm_env where
  "same_limits B (pe_mm E) \<Longrightarrow> prctl_step B s (fst (snd (prctl E option arg2 arg3 arg4 arg5 s)))"

inductive_cases prctl_stepE: "prctl_step B s t"

definition locked_since :: "mm_env \<Rightarrow> pr_state \<Rightarrow> pr_state \<Rightarrow> bool" where
  "locked_since B s0 s \<longleftrightarrow> kept B s0 (0, s, [])"

lemma kept_prctl: "same_limits B (pe_mm E) \<Longrightarrow> kept B s (prctl E option arg2 arg3 arg4 arg5 s)"
  unfolding prctl_def Let_def by (intro kept_if kept_switch kept_same)

interpretation prctl_sys: step_system "prctl_step B" "locked_since B s0" for B s0
proof unfold_locales
  fix s t
  assume "locked_since B s0 s" "prctl_step B s t"
  then show "locked_since B s0 t"
    by (elim prctl_stepE) (use kept_prctl in \<open>fastforce simp: locked_since_def kept_def\<close>)
qed

text \<open>C27: what \<open>prctl\<close> promises not to take back it never takes back: after any sequence of
  calls, with whatever options, arguments, capabilities and outcomes, a task that had
  \<open>no_new_privs\<close> still has it, a memory under MDWE still has exactly the same MDWE bits, and
  a consistent description of the address space is still consistent.\<close>
theorem one_way_switches:
  assumes "reach (prctl_step B) s t"
  shows "(pr_no_new_privs s \<longrightarrow> pr_no_new_privs t)
    \<and> (get_current_mdwe s \<noteq> 0 \<longrightarrow> get_current_mdwe t = get_current_mdwe s)
    \<and> (mm_inv B (pr_mm s) \<longrightarrow> mm_inv B (pr_mm t))"
  using prctl_sys.reach_keeps [OF assms, of s] by (simp_all add: locked_since_def kept_def)


subsection \<open>Failed calls\<close>

text \<open>The one call that changes the state and then fails: \<open>PR_MCE_KILL_SET\<close> with an unknown policy.\<close>

definition bad_policy :: "int \<Rightarrow> u64 \<Rightarrow> u64 \<Rightarrow> u64 \<Rightarrow> u64 \<Rightarrow> bool" where
  "bad_policy option arg2 arg3 arg4 arg5 \<longleftrightarrow> option = PR_MCE_KILL \<and> arg4 OR arg5 = 0
     \<and> arg2 = PR_MCE_KILL_SET \<and> arg3 \<notin> {PR_MCE_KILL_EARLY, PR_MCE_KILL_LATE, PR_MCE_KILL_DEFAULT}"

definition unchanged :: "pr_state \<Rightarrow> pr_result \<Rightarrow> bool" where
  "unchanged s r \<longleftrightarrow> 0 \<le> fst r \<or> fst (snd r) = s"

lemma unchanged_same [simp]: "unchanged s (e, s, out)"
  by (simp add: unchanged_def)

lemma unchanged_zero [simp]: "unchanged s (0, t, out)"
  by (simp add: unchanged_def)

lemma unchanged_if: "(b \<Longrightarrow> unchanged s x) \<Longrightarrow> (\<not> b \<Longrightarrow> unchanged s y) \<Longrightarrow> unchanged s (if b then x else y)"
  by simp

text \<open>\<open>ksm_enable_merge_any\<close> and \<open>ksm_disable_merge_any\<close> leave the memory as it is when they fail.\<close>

definition ksm_atomic :: "pr_env \<Rightarrow> bool" where
  "ksm_atomic E \<longleftrightarrow> (\<forall>on was. fst (pe_ksm E on was) < 0 \<longrightarrow> snd (pe_ksm E on was) = was)"

lemma unchanged_merge:
  assumes "ksm_atomic E"
  shows "unchanged s (prctl_memory_merge E option arg2 arg3 arg4 arg5 s)"
proof -
  let ?was = "MMF_VM_MERGE_ANY \<in> pr_mm_flags s"
  have "snd (pe_ksm E on ?was) = ?was" if "fst (pe_ksm E on ?was) < 0" for on
    using that assms by (simp add: ksm_atomic_def)
  moreover have "s\<lparr>pr_mm_flags := if ?was then insert MMF_VM_MERGE_ANY (pr_mm_flags s)
      else pr_mm_flags s - {MMF_VM_MERGE_ANY}\<rparr> = s"
    by (cases s) (simp add: insert_absorb)
  ultimately have "unchanged s (fst (pe_ksm E on ?was),
      s\<lparr>pr_mm_flags := if snd (pe_ksm E on ?was) then insert MMF_VM_MERGE_ANY (pr_mm_flags s)
        else pr_mm_flags s - {MMF_VM_MERGE_ANY}\<rparr>, out)" for on out
    by (cases "fst (pe_ksm E on ?was) < 0") (simp_all add: unchanged_def not_less)
  then show ?thesis
    unfolding prctl_memory_merge_def split_beta Let_def by (intro unchanged_if) simp_all
qed

lemma unchanged_memory: "unchanged s (prctl_memory E option arg2 arg3 arg4 arg5 s)"
proof -
  have "unchanged s (fst (prctl_set_mdwe E s bits a b c), snd (prctl_set_mdwe E s bits a b c), out)"
    for bits a b c out
    by (simp add: prctl_set_mdwe_def Let_def)
  moreover have "unchanged s (fst (prctl_set_mm (pe_mm E) opt a b c (pr_mm s)),
      s\<lparr>pr_mm := fst (snd (prctl_set_mm (pe_mm E) opt a b c (pr_mm s)))\<rparr>, out)" for opt a b c out
    using set_mm_error [of "pe_mm E" opt a b c "pr_mm s"] by (auto simp: unchanged_def)
  ultimately show ?thesis by (simp add: prctl_memory_def split_beta)
qed

lemma unchanged_groups:
  "unchanged s (prctl_signal_dump E option arg2 s)" "unchanged s (prctl_timing_name E option arg2 s)"
  "unchanged s (prctl_timerslack option arg2 s)" "unchanged s (prctl_subreaper E option arg2 s)"
  "unchanged s (prctl_no_new_privs option arg2 arg3 arg4 arg5 s)"
  "unchanged s (prctl_thp E option arg2 arg3 arg4 arg5 s)"
  "unchanged s (prctl_io_flusher E option arg2 arg3 arg4 arg5 s)"
  by (simp_all add: prctl_signal_dump_def prctl_timing_name_def prctl_timerslack_def
      prctl_subreaper_def prctl_no_new_privs_def prctl_thp_def prctl_io_flusher_def
      put_int_def Let_def split: option.split)

lemma unchanged_mce:
  "\<not> bad_policy option arg2 arg3 arg4 arg5 \<Longrightarrow> option \<in> {PR_MCE_KILL, PR_MCE_KILL_GET}
   \<Longrightarrow> unchanged s (prctl_mce option arg2 arg3 arg4 arg5 s)"
  unfolding prctl_mce_def Let_def
  by (intro unchanged_if unchanged_same unchanged_zero) (simp_all add: bad_policy_def)

lemma unchanged_switch:
  assumes "ksm_atomic E" and "\<not> bad_policy option arg2 arg3 arg4 arg5"
  shows "unchanged s (prctl_switch E option arg2 arg3 arg4 arg5 s)"
  unfolding prctl_switch_def
  by (intro unchanged_if unchanged_groups unchanged_memory unchanged_merge assms unchanged_mce)
    (simp_all add: split_beta)

text \<open>C31: a \<open>prctl\<close> call that fails has changed nothing, whatever its option and arguments, with
  one exception: \<open>PR_MCE_KILL_SET\<close> with an unknown policy fails with \<open>-EINVAL\<close> but has already
  switched the task to a policy of its own.\<close>
theorem failed_prctl_changes_nothing:
  assumes "fst (prctl E option arg2 arg3 arg4 arg5 s) < 0" and "ksm_atomic E"
  shows "fst (snd (prctl E option arg2 arg3 arg4 arg5 s)) =
    (if bad_policy option arg2 arg3 arg4 arg5 \<and> pe_security E option arg2 arg3 arg4 arg5 = - ENOSYS
     then s\<lparr>pr_flags := insert PF_MCE_PROCESS (pr_flags s)\<rparr> else s)"
proof (cases "pe_security E option arg2 arg3 arg4 arg5 = - ENOSYS")
  case True
  show ?thesis
  proof (cases "bad_policy option arg2 arg3 arg4 arg5")
    case bad: True
    then have "prctl_mce PR_MCE_KILL arg2 arg3 arg4 arg5 s
        = (- EINVAL, s\<lparr>pr_flags := insert PF_MCE_PROCESS (pr_flags s)\<rparr>, [])"
      by (simp add: bad_policy_def prctl_mce_def prctl_values)
    then show ?thesis using bad True by (simp add: prctl_def prctl_switch_def bad_policy_def)
  next
    case False
    then show ?thesis
      using unchanged_switch [OF assms(2) False, of s] assms(1) True by (simp add: prctl_def unchanged_def)
  qed
next
  case False
  then show ?thesis by (simp add: prctl_def)
qed


subsection \<open>Settings read back\<close>

definition reply :: "pr_result \<Rightarrow> int \<times> pr_out list" where
  "reply r = (fst r, snd (snd r))"

definition after_call :: "pr_env \<Rightarrow> int \<Rightarrow> u64 \<Rightarrow> u64 \<Rightarrow> pr_state \<Rightarrow> pr_state" where
  "after_call E option arg2 arg3 s = fst (snd (prctl E option arg2 arg3 0 0 s))"

text \<open>A machine on which the hooks, the locks, the capabilities and the copies let the calls pass.\<close>

definition permissive :: "pr_env \<Rightarrow> bool" where
  "permissive E \<longleftrightarrow> pe_security E = (\<lambda>option a b c d. - ENOSYS) \<and> pe_sys_resource E
     \<and> \<not> pe_lock_killed E \<and> pe_mdwe_supported E
     \<and> (\<forall>n. pe_get_comm E (pe_set_comm E n) = n @ replicate (16 - length n) (CHR 0x00))"

lemma permissive_prctl: "permissive E \<Longrightarrow> prctl E option a b c d s = prctl_switch E option a b c d s"
  by (simp add: permissive_def prctl_def)

lemma mdwe_after:
  assumes "permissive E" and "bits \<in> {1, 3}" and "get_current_mdwe s \<in> {0, bits}"
  shows "get_current_mdwe (snd (prctl_set_mdwe E s bits 0 0 0)) = bits"
  using assms
  by (cases "MMF_HAS_MDWE \<in> pr_mm_flags s"; cases "MMF_HAS_MDWE_NO_INHERIT \<in> pr_mm_flags s")
    (auto simp: prctl_set_mdwe_def get_current_mdwe_def prctl_values permissive_def Let_def)

text \<open>What is set is what is read back, for every pair of options that sets and gets one
  thing: the parent death signal, the name (its first 15 characters, padded), the timer
  slack (0 restores the default), the machine check policy, the huge page switch, the
  I/O flusher role and the MDWE bits.\<close>
theorem settings_read_back:
  assumes "permissive E" and "\<not> pe_unputable E out"
    and "pe_valid_signal E sig" and "pe_user_string E addr = Some nm"
    and "policy \<in> {PR_MCE_KILL_EARLY, PR_MCE_KILL_LATE, PR_MCE_KILL_DEFAULT}"
    and "role \<in> {0, 1}" and "bits \<in> {1, 3}" and "get_current_mdwe s \<in> {0, bits}"
  shows "reply (prctl E PR_GET_PDEATHSIG out 0 0 0 (after_call E PR_SET_PDEATHSIG sig 0 s))
      = (0, [Put_Int out (uint (ucast sig :: u32))])
    \<and> reply (prctl E PR_GET_NAME out 0 0 0 (after_call E PR_SET_NAME addr 0 s))
      = (0, [Copy_Comm out (take 15 nm @ replicate (16 - length (take 15 nm)) (CHR 0x00))])
    \<and> reply (prctl E PR_GET_TIMERSLACK 0 0 0 0 (after_call E PR_SET_TIMERSLACK slack 0 s))
      = (sint (if slack = 0 then pr_default_slack s else slack), [])
    \<and> reply (prctl E PR_MCE_KILL_GET 0 0 0 0 (after_call E PR_MCE_KILL PR_MCE_KILL_SET policy s))
      = (uint policy, [])
    \<and> reply (prctl E PR_GET_THP_DISABLE 0 0 0 0 (after_call E PR_SET_THP_DISABLE off 0 s))
      = (if off \<noteq> 0 then 1 else 0, [])
    \<and> reply (prctl E PR_GET_IO_FLUSHER 0 0 0 0 (after_call E PR_SET_IO_FLUSHER role 0 s))
      = (uint role, [])
    \<and> reply (prctl E PR_GET_MDWE 0 0 0 0 (after_call E PR_SET_MDWE bits 0 s)) = (uint bits, [])"
proof -
  note eval = permissive_prctl [OF assms(1)] after_call_def reply_def prctl_switch_def
  have "reply (prctl E PR_GET_PDEATHSIG out 0 0 0 (after_call E PR_SET_PDEATHSIG sig 0 s))
      = (0, [Put_Int out (uint (ucast sig :: u32))])"
    using assms(2,3) by (simp add: eval prctl_signal_dump_def put_int_def)
  moreover have "reply (prctl E PR_GET_NAME out 0 0 0 (after_call E PR_SET_NAME addr 0 s))
      = (0, [Copy_Comm out (take 15 nm @ replicate (16 - length (take 15 nm)) (CHR 0x00))])"
    using assms(1,2,4) by (simp add: eval prctl_timing_name_def permissive_def)
  moreover have "reply (prctl E PR_GET_TIMERSLACK 0 0 0 0 (after_call E PR_SET_TIMERSLACK slack 0 s))
      = (sint (if slack = 0 then pr_default_slack s else slack), [])"
    by (simp add: eval prctl_timerslack_def)
  moreover have "reply (prctl E PR_MCE_KILL_GET 0 0 0 0 (after_call E PR_MCE_KILL PR_MCE_KILL_SET policy s))
      = (uint policy, [])"
    using assms(5) by (auto simp: eval prctl_mce_def prctl_values)
  moreover have "reply (prctl E PR_GET_THP_DISABLE 0 0 0 0 (after_call E PR_SET_THP_DISABLE off 0 s))
      = (if off \<noteq> 0 then 1 else 0, [])"
    using assms(1) by (simp add: eval prctl_thp_def permissive_def)
  moreover have "reply (prctl E PR_GET_IO_FLUSHER 0 0 0 0 (after_call E PR_SET_IO_FLUSHER role 0 s))
      = (uint role, [])"
    using assms(1,6) by (auto simp: eval prctl_io_flusher_def permissive_def PR_IO_FLUSHER_def)
  moreover have "reply (prctl E PR_GET_MDWE 0 0 0 0 (after_call E PR_SET_MDWE bits 0 s)) = (uint bits, [])"
    using mdwe_after [OF assms(1,7,8)] assms(7)
    by (auto simp: eval prctl_memory_def prctl_get_mdwe_def split_beta)
  ultimately show ?thesis by blast
qed

subsection \<open>Examples\<close>

definition sample_pr_env :: pr_env where
  "sample_pr_env = \<lparr>pe_mm = sample_mm_env, pe_mm_opt = (\<lambda>a. PR_SET_MM_OTHER),
     pe_security = (\<lambda>option a b c d. - ENOSYS), pe_service = (\<lambda>option a b c d. 0),
     pe_arch = (\<lambda>option. None), pe_me = 1, pe_child_reaper = (\<lambda>p. False), pe_walk = (\<lambda>p visit has. has),
     pe_valid_signal = (\<lambda>n. n \<le> 64), pe_user_string = (\<lambda>a. if a = 9 then Some ''a rather long task name'' else None),
     pe_strndup = (\<lambda>a n. Inl (- EFAULT)), pe_unputable = (\<lambda>a. a = 0),
     pe_set_comm = (\<lambda>n. n), pe_get_comm = (\<lambda>n. n @ replicate (16 - length n) (CHR 0x00)),
     pe_sys_resource = True, pe_lock_killed = False, pe_mdwe_supported = True, pe_anon_vma_name = True,
     pe_anon_alloc = (\<lambda>n. True), pe_madvise_name = (\<lambda>a n nm. 0), pe_tid_address = True,
     pe_sched_core = False, pe_ksm_config = True, pe_ksm = (\<lambda>on was. (0, on))\<rparr>"

definition sample_pr :: pr_state where
  "sample_pr = \<lparr>pr_pdeath_signal = 0, pr_comm = ''init'', pr_timer_slack = 50000, pr_default_slack = 50000,
     pr_flags = {}, pr_no_new_privs = False, pr_is_subreaper = False, pr_has_subreaper = (\<lambda>p. False),
     pr_clear_child_tid = 0, pr_dumpable = 1, pr_mm_flags = {}, pr_mm = sample_mm\<rparr>"

lemma sample_security: "pe_security sample_pr_env = (\<lambda>option a b c d. - ENOSYS)"
  by (simp add: sample_pr_env_def)

theorem one_way_switches_witness:
  "pr_no_new_privs (after_call sample_pr_env PR_SET_NO_NEW_PRIVS 0 0 (sample_pr\<lparr>pr_no_new_privs := True\<rparr>))
   \<and> get_current_mdwe (after_call sample_pr_env PR_SET_MDWE 0 0
        (sample_pr\<lparr>pr_mm_flags := {MMF_HAS_MDWE}\<rparr>)) = 1"
proof -
  have "same_limits sample_mm_env (pe_mm sample_pr_env)" by (simp add: same_limits_def sample_pr_env_def)
  then have step: "reach (prctl_step sample_mm_env) s (after_call sample_pr_env option a b s)" for option a b s
    unfolding after_call_def by (intro reach_one prctl_step.intros)
  note kept = one_way_switches [OF step]
  have "pr_no_new_privs (sample_pr\<lparr>pr_no_new_privs := True\<rparr>)" by simp
  moreover have "get_current_mdwe (sample_pr\<lparr>pr_mm_flags := {MMF_HAS_MDWE}\<rparr>) = 1"
    by (simp add: get_current_mdwe_def prctl_values)
  ultimately show ?thesis
    using kept [of "sample_pr\<lparr>pr_no_new_privs := True\<rparr>" PR_SET_NO_NEW_PRIVS 0 0]
      kept [of "sample_pr\<lparr>pr_mm_flags := {MMF_HAS_MDWE}\<rparr>" PR_SET_MDWE 0 0] by simp
qed

theorem failed_prctl_changes_nothing_witness:
  "fst (prctl sample_pr_env PR_MCE_KILL PR_MCE_KILL_SET 7 0 0 sample_pr) = - EINVAL
   \<and> fst (snd (prctl sample_pr_env PR_MCE_KILL PR_MCE_KILL_SET 7 0 0 sample_pr))
      = sample_pr\<lparr>pr_flags := {PF_MCE_PROCESS}\<rparr>"
proof -
  have fails: "fst (prctl sample_pr_env PR_MCE_KILL PR_MCE_KILL_SET 7 0 0 sample_pr) = - EINVAL"
    by (simp add: prctl_def prctl_switch_def prctl_mce_def prctl_values sample_security)
  have "ksm_atomic sample_pr_env" by (simp add: ksm_atomic_def sample_pr_env_def)
  with fails have "fst (snd (prctl sample_pr_env PR_MCE_KILL PR_MCE_KILL_SET 7 0 0 sample_pr))
      = sample_pr\<lparr>pr_flags := insert PF_MCE_PROCESS (pr_flags sample_pr)\<rparr>"
    using failed_prctl_changes_nothing [of sample_pr_env PR_MCE_KILL PR_MCE_KILL_SET 7 0 0 sample_pr]
    by (simp add: bad_policy_def prctl_values sample_security)
  with fails show ?thesis by (simp add: sample_pr_def)
qed

theorem settings_read_back_witness:
  "reply (prctl sample_pr_env PR_GET_NAME 5 0 0 0 (after_call sample_pr_env PR_SET_NAME 9 0 sample_pr))
     = (0, [Copy_Comm 5 (''a rather long t'' @ [(CHR 0x00)])])
   \<and> reply (prctl sample_pr_env PR_GET_MDWE 0 0 0 0 (after_call sample_pr_env PR_SET_MDWE 3 0 sample_pr)) = (3, [])"
proof -
  have 1: "permissive sample_pr_env" by (simp add: permissive_def sample_pr_env_def)
  have 2: "\<not> pe_unputable sample_pr_env 5" "pe_valid_signal sample_pr_env 9"
    "pe_user_string sample_pr_env 9 = Some ''a rather long task name''"
    by (simp_all add: sample_pr_env_def)
  have 3: "PR_MCE_KILL_EARLY \<in> {PR_MCE_KILL_EARLY, PR_MCE_KILL_LATE, PR_MCE_KILL_DEFAULT}"
    "(1 :: u64) \<in> {0, 1}" "(3 :: u64) \<in> {1, 3}" "get_current_mdwe sample_pr \<in> {0, 3}"
    by (simp_all add: get_current_mdwe_def sample_pr_def)
  from settings_read_back [OF 1 2 3] show ?thesis by simp
qed

end
