(* ===== verification/Sys_Info.thy ===== *)
theory Sys_Info
  imports Kernel_Prelude
begin

text \<open>
  \<open>sysinfo\<close> in \<open>Practica1/linux-6.6.44/kernel/sys.c\<close>: \<open>do_sysinfo\<close>, which brings the memory
  sizes to bytes when they fit, and the native and the compat call. The clocks, the load
  averages and the two functions that fill in the memory and swap sizes are parameters.
\<close>

subsection \<open>\<open>do_sysinfo\<close>\<close>

record si_env =
  se_boottime :: "int \<times> int"
  se_loads :: "u64 list"
  se_nr_threads :: int
  se_meminfo :: "sysinfo \<Rightarrow> sysinfo"
  se_swapinfo :: "sysinfo \<Rightarrow> sysinfo"
  se_uncopied :: "u64 \<Rightarrow> bool"

definition zero_sysinfo :: sysinfo where
  "zero_sysinfo = \<lparr>si_uptime = 0, si_loads = [0, 0, 0], si_totalram = 0, si_freeram = 0,
     si_sharedram = 0, si_bufferram = 0, si_totalswap = 0, si_freeswap = 0, si_procs = 0,
     si_totalhigh = 0, si_freehigh = 0, si_mem_unit = 0\<rparr>"

text \<open>The structure after \<open>si_swapinfo\<close>, in units of \<open>mem_unit\<close>.\<close>

definition gather_sysinfo :: "si_env \<Rightarrow> sysinfo" where
  "gather_sysinfo E =
     (let (tv_sec, tv_nsec) = se_boottime E in
      se_swapinfo E (se_meminfo E
        (zero_sysinfo\<lparr>si_uptime := tv_sec + (if tv_nsec \<noteq> 0 then 1 else 0), si_loads := se_loads E,
                      si_procs := word_of_int (se_nr_threads E)\<rparr>)))"

text \<open>
  The loop on \<open>mem_unit\<close>, which counts its bits while the doubled total still fits;
  \<open>None\<close> is the jump to \<open>out\<close>.
\<close>

function unit_bits :: "u32 \<Rightarrow> u64 \<Rightarrow> nat \<Rightarrow> nat option" where
  "unit_bits mem_unit mem_total bitcount =
     (if 1 < mem_unit then
        (let sav_total = mem_total; mem_total' = push_bit 1 mem_total in
         if mem_total' < sav_total then None
         else unit_bits (drop_bit 1 mem_unit) mem_total' (bitcount + 1))
      else Some bitcount)"
  by pat_completeness auto

lemma unat_half: "unat (drop_bit 1 (u :: 'a::len word)) = unat u div 2"
  unfolding unsigned_drop_bit_eq
  by (simp only: drop_bit_eq_div take_bit_nat_eq_self unsigned_less power_one_right)

lemma half_smaller: "1 < u \<Longrightarrow> unat (drop_bit 1 (u :: u32)) < unat u"
  by (simp only: unat_half word_less_nat_alt unsigned_1)

termination unit_bits
  by (relation "measure (\<lambda>(u, _, _). unat u)") (simp_all only: wf_measure in_measure split_conv half_smaller)

declare unit_bits.simps [simp del]

text \<open>The eight memory sizes of the structure, and the same change applied to each.\<close>

definition memory_sizes :: "sysinfo \<Rightarrow> u64 list" where
  "memory_sizes s = [si_totalram s, si_freeram s, si_sharedram s, si_bufferram s, si_totalswap s,
                     si_freeswap s, si_totalhigh s, si_freehigh s]"

definition map_sizes :: "(u64 \<Rightarrow> u64) \<Rightarrow> sysinfo \<Rightarrow> sysinfo" where
  "map_sizes f s =
     s\<lparr>si_totalram := f (si_totalram s), si_freeram := f (si_freeram s),
       si_sharedram := f (si_sharedram s), si_bufferram := f (si_bufferram s),
       si_totalswap := f (si_totalswap s), si_freeswap := f (si_freeswap s),
       si_totalhigh := f (si_totalhigh s), si_freehigh := f (si_freehigh s)\<rparr>"

definition do_sysinfo :: "si_env \<Rightarrow> sysinfo" where
  "do_sysinfo E =
     (let info = gather_sysinfo E;
          mem_total = si_totalram info + si_totalswap info
      in if mem_total < si_totalram info \<or> mem_total < si_totalswap info then info
         else (case unit_bits (si_mem_unit info) mem_total 0 of
                 None \<Rightarrow> info
               | Some bitcount \<Rightarrow> map_sizes (push_bit bitcount) (info\<lparr>si_mem_unit := 1\<rparr>)))"

text \<open>The result of the call and the structure copied to the caller.\<close>

definition sys_sysinfo :: "si_env \<Rightarrow> u64 \<Rightarrow> int \<times> (u64 \<times> sysinfo) list" where
  "sys_sysinfo E info = (if se_uncopied E info then (- EFAULT, []) else (0, [(info, do_sysinfo E)]))"

subsection \<open>The compat call\<close>

record compat_sysinfo =
  cs_uptime :: int
  cs_loads :: "u32 list"
  cs_totalram :: u32
  cs_freeram :: u32
  cs_sharedram :: u32
  cs_bufferram :: u32
  cs_totalswap :: u32
  cs_freeswap :: u32
  cs_procs :: u16
  cs_totalhigh :: u32
  cs_freehigh :: u32
  cs_mem_unit :: u32

definition upper_32_bits :: "u64 \<Rightarrow> u32" where
  "upper_32_bits n = ucast (drop_bit 32 n)"

text \<open>The loop that doubles \<open>mem_unit\<close> up to a page; it does not end for a zero unit.\<close>

partial_function (option) page_unit :: "u32 \<Rightarrow> nat \<Rightarrow> (u32 \<times> nat) option" where
  "page_unit mem_unit bitcount =
     (if ucast mem_unit < PAGE_SIZE then page_unit (push_bit 1 mem_unit) (bitcount + 1)
      else Some (mem_unit, bitcount))"

definition scale_to_pages :: "sysinfo \<Rightarrow> sysinfo option" where
  "scale_to_pages s =
     (if upper_32_bits (si_totalram s) \<noteq> 0 \<or> upper_32_bits (si_totalswap s) \<noteq> 0 then
        (case page_unit (si_mem_unit s) 0 of
           None \<Rightarrow> None
         | Some (mem_unit, bitcount) \<Rightarrow> Some (map_sizes (drop_bit bitcount) (s\<lparr>si_mem_unit := mem_unit\<rparr>)))
      else Some s)"

definition to_compat :: "sysinfo \<Rightarrow> compat_sysinfo" where
  "to_compat s =
     \<lparr>cs_uptime = c_int (si_uptime s),
      cs_loads = [ucast (si_loads s ! 0), ucast (si_loads s ! 1), ucast (si_loads s ! 2)],
      cs_totalram = ucast (si_totalram s), cs_freeram = ucast (si_freeram s),
      cs_sharedram = ucast (si_sharedram s), cs_bufferram = ucast (si_bufferram s),
      cs_totalswap = ucast (si_totalswap s), cs_freeswap = ucast (si_freeswap s),
      cs_procs = si_procs s, cs_totalhigh = ucast (si_totalhigh s),
      cs_freehigh = ucast (si_freehigh s), cs_mem_unit = si_mem_unit s\<rparr>"

text \<open>\<open>None\<close>: the call does not return.\<close>

definition compat_sys_sysinfo :: "si_env \<Rightarrow> u64 \<Rightarrow> (int \<times> (u64 \<times> compat_sysinfo) list) option" where
  "compat_sys_sysinfo E info =
     (case scale_to_pages (do_sysinfo E) of
        None \<Rightarrow> None
      | Some s \<Rightarrow> Some (if se_uncopied E info then (- EFAULT, []) else (0, [(info, to_compat s)])))"

subsection \<open>Scaling to bytes\<close>

lemma unat_push_bit:
  fixes w :: u64
  assumes "unat w * 2 ^ n < 2 ^ 64"
  shows "unat (push_bit n w) = unat w * 2 ^ n"
proof -
  have "unat (push_bit n w) = take_bit 64 (unat w * 2 ^ n)"
    unfolding unsigned_push_bit_eq by (simp add: push_bit_eq_mult)
  then show ?thesis using assms by (simp only: take_bit_nat_eq_self)
qed

lemma unsigned_less_u64: "unat (w :: u64) < 2 ^ 64"
  using unsigned_less [of w] by simp

lemma wrapped_sum:
  fixes a b m :: nat
  assumes "a < m" and "b < m" and "m \<le> a + b"
  shows "(a + b) mod m < a" and "(a + b) mod m < b"
proof -
  have "(a + b) mod m = a + b - m" using assms by (simp add: le_mod_geq)
  then show "(a + b) mod m < a" "(a + b) mod m < b" using assms by linarith+
qed

lemma total_wraps:
  fixes a b :: u64
  shows "(a + b < a \<or> a + b < b) \<longleftrightarrow> 2 ^ 64 \<le> unat a + unat b"
proof (cases "2 ^ 64 \<le> unat a + unat b")
  case True
  have "unat (a + b) = (unat a + unat b) mod 2 ^ 64" by (simp add: unat_word_ariths)
  then have "unat (a + b) < unat a"
    using wrapped_sum [OF _ _ True] by (simp only: unsigned_less_u64)
  with True show ?thesis by (simp only: word_less_nat_alt simp_thms)
next
  case False
  then have "unat (a + b) = unat a + unat b" by (intro unat_add_small) (simp only: not_le)
  with False show ?thesis by (simp only: word_less_nat_alt not_add_less1 not_add_less2 simp_thms)
qed

lemma double_overflows:
  fixes t :: u64
  shows "push_bit 1 t < t \<longleftrightarrow> 2 ^ 64 \<le> unat t * 2"
proof -
  have "push_bit 1 t = t + t" by (simp add: push_bit_eq_mult)
  then show ?thesis using total_wraps [of t t] by (simp add: mult_2_right)
qed

lemma unit_bits_power:
  assumes "unat u = 2 ^ k"
  shows "unit_bits u t b = (if unat t * 2 ^ k < 2 ^ 64 then Some (b + k) else None)"
  using assms
proof (induction k arbitrary: u t b)
  case 0
  then show ?case by (simp add: unit_bits.simps word_less_nat_alt)
next
  case (Suc k)
  have "(1 :: nat) \<le> 2 ^ k" by simp
  then have "1 < u" unfolding word_less_nat_alt Suc.prems unsigned_1 power_Suc by linarith
  moreover have "unat (drop_bit 1 u) = 2 ^ k" unfolding unat_half Suc.prems by simp
  note IH = Suc.IH [OF this, of "push_bit 1 t" "b + 1"]
  moreover have "unat t * 2 < 2 ^ 64 \<Longrightarrow> unat (push_bit 1 t) * 2 ^ k = unat t * 2 ^ Suc k"
    using unat_push_bit [of t 1] by simp
  moreover have "2 ^ 64 \<le> unat t * 2 \<Longrightarrow> \<not> unat t * 2 ^ Suc k < 2 ^ 64"
    unfolding not_less by (erule le_trans) simp
  ultimately show ?case
    unfolding unit_bits.simps [of u] Let_def double_overflows
    by (cases "unat t * 2 < 2 ^ 64") simp_all
qed

lemma sizes_map: "memory_sizes (map_sizes f s) = map f (memory_sizes s)"
  "si_mem_unit (map_sizes f s) = si_mem_unit s"
  by (simp_all add: memory_sizes_def map_sizes_def)

lemma sizes_unit [simp]: "memory_sizes (s\<lparr>si_mem_unit := u\<rparr>) = memory_sizes s"
  by (simp add: memory_sizes_def)

text \<open>Bytes that a structure reports.\<close>

definition reported_bytes :: "sysinfo \<Rightarrow> nat list" where
  "reported_bytes s = map (\<lambda>n. unat n * unat (si_mem_unit s)) (memory_sizes s)"

lemma push_bit_sizes:
  assumes "list_all (\<lambda>n. unat n \<le> m) ns" and "m * 2 ^ k < 2 ^ 64"
  shows "map (\<lambda>n. unat (push_bit k n :: u64)) ns = map (\<lambda>n. unat n * 2 ^ k) ns"
proof -
  have "unat n * 2 ^ k < 2 ^ 64" if "unat n \<le> m" for n :: u64
    using that assms(2) by (meson le_less_trans mult_le_mono1)
  then show ?thesis using assms(1) by (induction ns) (auto intro: unat_push_bit)
qed


text \<open>C32: \<open>sysinfo\<close> never changes the number of bytes it reports: with a power of two as unit and
  sizes that are part of the total, each of the eight sizes times the unit is the same
  before and after scaling; and the unit becomes one byte exactly when the total fits
  64 bits in bytes.\<close>
theorem sysinfo_keeps_bytes:
  assumes "unat (si_mem_unit (gather_sysinfo E)) = 2 ^ k"
    and "list_all (\<lambda>n. unat n \<le> unat (si_totalram (gather_sysinfo E)) + unat (si_totalswap (gather_sysinfo E)))
           (memory_sizes (gather_sysinfo E))"
  shows "reported_bytes (do_sysinfo E) = reported_bytes (gather_sysinfo E)
    \<and> si_mem_unit (do_sysinfo E) =
      (if (unat (si_totalram (gather_sysinfo E)) + unat (si_totalswap (gather_sysinfo E))) * 2 ^ k < 2 ^ 64
       then 1 else si_mem_unit (gather_sysinfo E))"
proof -
  let ?g = "gather_sysinfo E"
  let ?t = "unat (si_totalram ?g) + unat (si_totalswap ?g)"
  show ?thesis
  proof (cases "2 ^ 64 \<le> ?t")
    case True
    have "?t \<le> ?t * 2 ^ k" by simp
    with True have "\<not> ?t * 2 ^ k < 2 ^ 64" by linarith
    then show ?thesis using True by (simp only: do_sysinfo_def Let_def total_wraps if_True if_False simp_thms)
  next
    case False
    then have "unat (si_totalram ?g + si_totalswap ?g) = ?t" by (intro unat_add_small) (simp only: not_le)
    then have bits: "unit_bits (si_mem_unit ?g) (si_totalram ?g + si_totalswap ?g) 0
        = (if ?t * 2 ^ k < 2 ^ 64 then Some k else None)"
      using unit_bits_power [OF assms(1), of "si_totalram ?g + si_totalswap ?g" 0] by (simp only: add_0)
    show ?thesis
    proof (cases "?t * 2 ^ k < 2 ^ 64")
      case fits: True
      from push_bit_sizes [OF assms(2) fits] show ?thesis
        using False bits fits assms(1)
        by (simp only: do_sysinfo_def Let_def total_wraps if_False if_True option.case reported_bytes_def
            sizes_map sizes_unit map_map o_def sysinfo.simps unsigned_1 mult_1_right simp_thms)
          (simp add: o_def)
    next
      case False': False
      then show ?thesis using False bits
        by (simp only: do_sysinfo_def Let_def total_wraps if_False option.case simp_thms)
    qed
  qed
qed

subsection \<open>The compat report\<close>

lemma page_unit_one: "page_unit 1 0 = Some (4096, 12)"
  by (simp add: page_unit.simps PAGE_SIZE_def)

lemma page_unit_nonzero: "page_unit u b = Some r \<Longrightarrow> u \<noteq> 0"
  by (erule page_unit.raw_induct [where P = "\<lambda>u b r. u \<noteq> 0", rotated])
    (fastforce simp: PAGE_SIZE_def split: if_splits)

lemma page_unit_zero: "page_unit 0 b = None"
  using page_unit_nonzero [of 0 b] by (cases "page_unit 0 b") auto

lemma page_unit_returns:
  assumes "u \<noteq> 0"
  shows "page_unit u b \<noteq> None"
  using assms
proof (induction "4096 - unat u" arbitrary: u b rule: less_induct)
  case less
  show ?case
  proof (cases "ucast u < PAGE_SIZE")
    case True
    then have small: "unat u < 4096"
      using unsigned_less [of u, where ?'a = nat]
      by (simp add: word_less_nat_alt PAGE_SIZE_def unsigned_ucast_eq take_bit_nat_eq_self)
    moreover have "0 < unat u" using less.prems by (simp add: unat_gt_0)
    moreover have "unat (push_bit 1 u) = 2 * unat u"
      using small unfolding unsigned_push_bit_eq by (simp add: push_bit_eq_mult take_bit_nat_eq_self)
    ultimately show ?thesis
      using less.hyps [of "push_bit 1 u" "b + 1"] True page_unit.simps [of u b]
      by (simp add: unat_gt_0 [symmetric])
  next
    case False
    then show ?thesis by (simp add: page_unit.simps)
  qed
qed


definition compat_sizes :: "compat_sysinfo \<Rightarrow> u32 list" where
  "compat_sizes c = [cs_totalram c, cs_freeram c, cs_sharedram c, cs_bufferram c, cs_totalswap c,
                     cs_freeswap c, cs_totalhigh c, cs_freehigh c]"

definition rounded :: "nat \<Rightarrow> u64 \<Rightarrow> u32 \<Rightarrow> bool" where
  "rounded u n v \<longleftrightarrow> unat v * u \<le> unat n \<and> unat n < (unat v + 1) * u"

lemma rounded_shift:
  fixes n :: u64
  assumes "unat n < 2 ^ 32 * 2 ^ k"
  shows "rounded (2 ^ k) n (ucast (drop_bit k n))"
proof -
  have "unat (drop_bit k n) = unat n div 2 ^ k"
    unfolding unsigned_drop_bit_eq
    by (simp only: drop_bit_eq_div take_bit_nat_eq_self unsigned_less)
  moreover have "unat n div 2 ^ k < 2 ^ 32" using assms by (simp add: less_mult_imp_div_less)
  ultimately have "unat (ucast (drop_bit k n) :: u32) = unat n div 2 ^ k"
    by (simp add: unsigned_ucast_eq take_bit_nat_eq_self)
  then show ?thesis
    unfolding rounded_def by (simp add: div_times_less_eq_dividend dividend_less_div_times)
qed

lemma upper_zero: "upper_32_bits n = 0 \<Longrightarrow> unat n < 2 ^ 32"
proof -
  assume zero: "upper_32_bits n = 0"
  have n: "unat (drop_bit 32 n) = unat n div 2 ^ 32"
    unfolding unsigned_drop_bit_eq
    by (simp only: drop_bit_eq_div take_bit_nat_eq_self unsigned_less)
  have "unat n div 2 ^ 32 < 2 ^ 32"
    using unsigned_less_u64 [of n] by (intro less_mult_imp_div_less) simp
  then have "unat (upper_32_bits n) = unat n div 2 ^ 32"
    unfolding upper_32_bits_def using n by (simp add: unsigned_ucast_eq take_bit_nat_eq_self)
  with zero show ?thesis by (simp add: div_eq_0_iff)
qed

lemma compat_sizes_to_compat: "compat_sizes (to_compat s) = map ucast (memory_sizes s)"
  by (simp add: compat_sizes_def to_compat_def memory_sizes_def)

lemma rounded_sizes:
  assumes "list_all (\<lambda>n. unat n < 2 ^ 32 * 2 ^ k) ns"
  shows "list_all2 (rounded (2 ^ k)) ns (map (\<lambda>n. ucast (drop_bit k n)) ns)"
  using assms by (induction ns) (auto intro: rounded_shift)

text \<open>C33: the compat \<open>sysinfo\<close> of a machine with less than 2^44 bytes returns, with a unit of one
  byte or of one page, and each of its eight 32-bit sizes is the true size rounded down to
  that unit.\<close>
theorem compat_sysinfo_rounds:
  assumes "si_mem_unit (do_sysinfo E) = 1" and "\<not> se_uncopied E info"
    and "list_all (\<lambda>n. unat n \<le> unat (si_totalram (do_sysinfo E)) \<or> unat n \<le> unat (si_totalswap (do_sysinfo E)))
           (memory_sizes (do_sysinfo E))"
    and "unat (si_totalram (do_sysinfo E)) < 2 ^ 44" and "unat (si_totalswap (do_sysinfo E)) < 2 ^ 44"
  shows "\<exists>c. compat_sys_sysinfo E info = Some (0, [(info, c)]) \<and> cs_mem_unit c \<in> {1, 4096}
    \<and> list_all2 (rounded (unat (cs_mem_unit c))) (memory_sizes (do_sysinfo E)) (compat_sizes c)"
proof (cases "upper_32_bits (si_totalram (do_sysinfo E)) = 0 \<and> upper_32_bits (si_totalswap (do_sysinfo E)) = 0")
  case True
  then have "list_all (\<lambda>n. unat n < 2 ^ 32 * 2 ^ 0) (memory_sizes (do_sysinfo E))"
    using assms(3) upper_zero by (fastforce simp: list_all_iff)
  from rounded_sizes [OF this] show ?thesis
    using True assms(1,2)
    by (simp add: compat_sys_sysinfo_def scale_to_pages_def compat_sizes_to_compat)
      (simp add: to_compat_def)
next
  case False
  have "list_all (\<lambda>n. unat n < 2 ^ 32 * 2 ^ 12) (memory_sizes (do_sysinfo E))"
    using assms(3-5) by (fastforce simp: list_all_iff)
  from rounded_sizes [OF this] show ?thesis
    using False assms(1,2)
    by (simp add: compat_sys_sysinfo_def scale_to_pages_def page_unit_one compat_sizes_to_compat sizes_map o_def)
      (simp add: to_compat_def map_sizes_def)
qed


subsection \<open>Examples\<close>

text \<open>A machine of 8 GiB with 4-KiB units, and one with 2^52 units, whose bytes do not fit.\<close>

definition sample_si_env :: "u64 \<Rightarrow> si_env" where
  "sample_si_env ram =
     \<lparr>se_boottime = (99, 1), se_loads = [1, 2, 3], se_nr_threads = 70000,
      se_meminfo = (\<lambda>s. s\<lparr>si_totalram := ram, si_freeram := 500, si_mem_unit := 4096\<rparr>),
      se_swapinfo = (\<lambda>s. s\<lparr>si_totalswap := 1000, si_freeswap := 900\<rparr>), se_uncopied = (\<lambda>a. False)\<rparr>"

lemmas sample_si = sample_si_env_def gather_sysinfo_def zero_sysinfo_def memory_sizes_def

lemma sample_do_sysinfo:
  "do_sysinfo (sample_si_env 0x200000) = map_sizes (push_bit 12) ((gather_sysinfo (sample_si_env 0x200000))\<lparr>si_mem_unit := 1\<rparr>)"
proof -
  have "unat (4096 :: u32) = 2 ^ 12" by simp
  from unit_bits_power [OF this, of "0x2003e8" 0] have "unit_bits 4096 0x2003e8 0 = Some 12" by simp
  then show ?thesis by (simp add: do_sysinfo_def sample_si)
qed

theorem sysinfo_keeps_bytes_witness:
  "reported_bytes (do_sysinfo (sample_si_env 0x200000)) ! 0 = 8589934592
   \<and> si_mem_unit (do_sysinfo (sample_si_env 0x200000)) = 1
   \<and> si_mem_unit (do_sysinfo (sample_si_env (2 ^ 52))) = 4096"
proof -
  have unit: "unat (si_mem_unit (gather_sysinfo (sample_si_env ram))) = 2 ^ 12" for ram
    by (simp add: sample_si)
  have "list_all (\<lambda>n. unat n \<le> unat (si_totalram (gather_sysinfo (sample_si_env 0x200000)))
           + unat (si_totalswap (gather_sysinfo (sample_si_env 0x200000))))
         (memory_sizes (gather_sysinfo (sample_si_env 0x200000)))"
    by (simp add: sample_si)
  note small = sysinfo_keeps_bytes [OF unit this]
  have "list_all (\<lambda>n. unat n \<le> unat (si_totalram (gather_sysinfo (sample_si_env (2 ^ 52))))
           + unat (si_totalswap (gather_sysinfo (sample_si_env (2 ^ 52)))))
         (memory_sizes (gather_sysinfo (sample_si_env (2 ^ 52))))"
    by (simp add: sample_si)
  note big = sysinfo_keeps_bytes [OF unit this]
  have "reported_bytes (gather_sysinfo (sample_si_env 0x200000)) ! 0 = 8589934592"
    by (simp add: reported_bytes_def sample_si)
  moreover have "si_mem_unit (do_sysinfo (sample_si_env 0x200000)) = 1"
    unfolding small [THEN conjunct2] by (simp add: sample_si)
  moreover have "si_mem_unit (do_sysinfo (sample_si_env (2 ^ 52))) = 4096"
    unfolding big [THEN conjunct2] by (simp add: sample_si)
  ultimately show ?thesis using small by simp
qed

theorem compat_sysinfo_rounds_witness:
  "\<exists>c. compat_sys_sysinfo (sample_si_env 0x200000) 7 = Some (0, [(7, c)]) \<and> cs_mem_unit c \<in> {1, 4096}
    \<and> list_all2 (rounded (unat (cs_mem_unit c)))
        (memory_sizes (do_sysinfo (sample_si_env 0x200000))) (compat_sizes c)"
proof -
  have "si_mem_unit (do_sysinfo (sample_si_env 0x200000)) = 1" "\<not> se_uncopied (sample_si_env 0x200000) 7"
    "list_all (\<lambda>n. unat n \<le> unat (si_totalram (do_sysinfo (sample_si_env 0x200000)))
          \<or> unat n \<le> unat (si_totalswap (do_sysinfo (sample_si_env 0x200000))))
      (memory_sizes (do_sysinfo (sample_si_env 0x200000)))"
    "unat (si_totalram (do_sysinfo (sample_si_env 0x200000))) < 2 ^ 44"
    "unat (si_totalswap (do_sysinfo (sample_si_env 0x200000))) < 2 ^ 44"
    unfolding sample_do_sysinfo by (simp_all add: map_sizes_def sample_si push_bit_eq_mult)
  then show ?thesis by (rule compat_sysinfo_rounds)
qed

end
