(* ===== verification/Log_Tail.thy ===== *)
theory Log_Tail
  imports Text_Format
begin

text \<open>
  The three system calls that \<open>Practica1\<close> adds to \<open>kernel/sys.c\<close> (the time, the time since
  boot and the last five lines of the kernel log) and \<open>Practica1/llamadas/llamadas_al_sistema.c\<close>,
  the program that calls them. The clocks, the kernel log, the allocator and user memory
  are parameters. The log is read twice, and each reading is an argument of its own, since
  lines can be added or lost between them.
\<close>

subsection \<open>The system calls\<close>

definition KERNEL_LOG_BUFFER_SIZE :: nat where "KERNEL_LOG_BUFFER_SIZE = 1024"
definition MAX_LOG_ENTRIES :: int where "MAX_LOG_ENTRIES = 5"

datatype log_block = Output_Buffer | Kernel_Log_Buffer
datatype log_event = Allocated log_block | Freed log_block | Copied string

record log_env =
  le_realtime :: "int \<times> int"
  le_boottime :: int
  le_output_alloc :: "u64 \<Rightarrow> bool"
  le_line_alloc :: bool
  le_first_pass :: "string list"
  le_second_pass :: "string list"
  le_unwritable :: "nat \<Rightarrow> bool"

definition get_seconds_time :: "log_env \<Rightarrow> int" where
  "get_seconds_time E = (let (tv_sec, tv_nsec) = le_realtime E in tv_sec)"

definition sys_uptime :: "log_env \<Rightarrow> int" where
  "sys_uptime E = le_boottime E"

text \<open>The second loop: the arguments are the lines left, the lines processed and the output so far.\<close>

fun copy_tail :: "nat \<Rightarrow> nat \<Rightarrow> string list \<Rightarrow> nat \<Rightarrow> string \<Rightarrow> string" where
  "copy_tail total_log_lines buffer_length [] lines_processed output = output"
| "copy_tail total_log_lines buffer_length (line # lines) lines_processed output =
     (if int total_log_lines - int lines_processed \<le> MAX_LOG_ENTRIES then
        (if length output + length line \<ge> buffer_length then output
         else copy_tail total_log_lines buffer_length lines (lines_processed + 1) (output @ line))
      else copy_tail total_log_lines buffer_length lines (lines_processed + 1) output)"

definition log_tail :: "log_env \<Rightarrow> nat \<Rightarrow> string" where
  "log_tail E buffer_length = copy_tail (length (le_first_pass E)) buffer_length (le_second_pass E) 0 []"

definition retrieve_last_five_logs :: "log_env \<Rightarrow> u64 \<Rightarrow> int \<times> log_event list" where
  "retrieve_last_five_logs E buffer_length =
     (if unat buffer_length < KERNEL_LOG_BUFFER_SIZE then (- EINVAL, [])
      else if \<not> le_output_alloc E buffer_length then (- ENOMEM, [])
      else if \<not> le_line_alloc E then (- ENOMEM, [Allocated Output_Buffer, Freed Output_Buffer])
      else
        (let output = log_tail E (unat buffer_length);
             allocated = [Allocated Output_Buffer, Allocated Kernel_Log_Buffer];
             freed = [Freed Output_Buffer, Freed Kernel_Log_Buffer]
         in if le_unwritable E (length output) then (- EFAULT, allocated @ freed)
            else (int (length output), allocated @ [Copied output] @ freed)))"

subsection \<open>The calling program\<close>

text \<open>
  \<open>syscall\<close> of the C library: a result that encodes an errno value becomes -1. What the
  program has printed on its standard output, the message it passed to \<open>perror\<close>, and
  its exit status.
\<close>

definition libc_syscall :: "int \<Rightarrow> int" where
  "libc_syscall r = (if - 4095 \<le> r \<and> r < 0 then - 1 else r)"

definition LOG_BUFFER_SIZE :: u64 where "LOG_BUFFER_SIZE = 1024"

fun copied_text :: "log_event list \<Rightarrow> string" where
  "copied_text [] = []"
| "copied_text (Copied s # es) = s"
| "copied_text (e # es) = copied_text es"

text \<open>\<open>%.*s\<close>: up to the given number of characters, and no further than a null character.\<close>

definition bounded_text :: "int \<Rightarrow> string \<Rightarrow> string" where
  "bounded_text n s = takeWhile (\<lambda>c. c \<noteq> NUL) (take (nat n) s)"

record run =
  run_output :: string
  run_error :: "string option"
  run_status :: int

definition uptime_line :: "int \<Rightarrow> string" where
  "uptime_line n = ''Tiempo desde el '' @ [CHR 0xC3, CHR 0xBA] @ ''ltimo arranque: '' @ dec_int n @ '' segundos'' @ [CHR 10]"

definition time_line :: "int \<Rightarrow> string" where
  "time_line n = ''Tiempo actual en segundos desde el eponch: '' @ dec_int n @ [CHR 10]"

definition log_lines :: "string \<Rightarrow> string" where
  "log_lines s = [CHR 0xC3, CHR 0x9A] @ ''ltimos 5 mensajes del registro:'' @ [CHR 10] @ s @ [CHR 10]"

definition llamadas_main :: "log_env \<Rightarrow> run" where
  "llamadas_main E =
     (let system_uptime = libc_syscall (sys_uptime E) in
      if system_uptime = - 1 then
        \<lparr>run_output = [], run_error = Some ''Error al obtener el tiempo de actividad'', run_status = 1\<rparr>
      else
        (let current_time = libc_syscall (get_seconds_time E) in
         if current_time = - 1 then
           \<lparr>run_output = uptime_line system_uptime,
            run_error = Some ''Error al obtener el tiempo actual'', run_status = 1\<rparr>
         else
           (let (ret, events) = retrieve_last_five_logs E LOG_BUFFER_SIZE;
                log_size = libc_syscall ret;
                printed = uptime_line system_uptime @ time_line current_time
            in if log_size < 0 then
                 \<lparr>run_output = printed,
                  run_error = Some (''Error al recuperar los '' @ [CHR 0xC3, CHR 0xBA] @
                                    ''ltimos cinco mensajes de registro''), run_status = 1\<rparr>
               else
                 \<lparr>run_output = printed @ log_lines (bounded_text log_size (copied_text events)),
                  run_error = None, run_status = 0\<rparr>)))"

subsection \<open>What the copy keeps\<close>

text \<open>
  The reference: of a list of lines, the longest prefix whose text stays below the size of
  the buffer.
\<close>

definition text_size :: "string list \<Rightarrow> nat" where
  "text_size ls = sum_list (map length ls)"

fun fill_lines :: "nat \<Rightarrow> string list \<Rightarrow> string list" where
  "fill_lines n [] = []"
| "fill_lines n (l # ls) = (if length l < n then l # fill_lines (n - length l) ls else [])"

lemma text_size_simps [simp]: "text_size [] = 0" "text_size (l # ls) = length l + text_size ls"
  by (simp_all add: text_size_def)

lemma length_concat_text: "length (concat ls) = text_size ls"
  by (induction ls) simp_all

lemma fill_lines_prefix: "\<exists>k \<le> length ls. fill_lines n ls = take k ls"
proof (induction ls arbitrary: n)
  case (Cons l ls)
  then obtain k where "k \<le> length ls" "fill_lines (n - length l) ls = take k ls" by blast
  then show ?case by (cases "length l < n") (auto intro: exI [of _ "Suc k"] exI [of _ 0])
qed simp

lemma fill_lines_fits: "0 < n \<Longrightarrow> text_size (fill_lines n ls) < n"
proof (induction ls arbitrary: n)
  case (Cons l ls)
  then show ?case using Cons.IH [of "n - length l"] by (auto simp: less_diff_conv)
qed simp

lemma fill_lines_longest:
  "text_size (take k ls) < n \<Longrightarrow> k \<le> length ls \<Longrightarrow> k \<le> length (fill_lines n ls)"
proof (induction ls arbitrary: k n)
  case (Cons l ls)
  show ?case
  proof (cases k)
    case (Suc j)
    then have "length l + text_size (take j ls) < n" using Cons.prems by simp
    then have "length l < n" "text_size (take j ls) < n - length l" by linarith+
    then show ?thesis using Cons.IH [of j "n - length l"] Cons.prems Suc by simp
  qed simp
qed simp

lemma copy_tail_last:
  assumes "int tot - int done \<le> MAX_LOG_ENTRIES"
  shows "copy_tail tot n ls done out = out @ concat (fill_lines (n - length out) ls)"
  using assms
proof (induction ls arbitrary: "done" out)
  case (Cons l ls)
  then show ?case by (simp add: less_diff_conv add.commute not_le)
qed simp

lemma copy_tail_skips:
  assumes "k + done + 5 = tot" and "k \<le> length ls"
  shows "copy_tail tot n ls done out = copy_tail tot n (drop k ls) (done + k) out"
  using assms
proof (induction k arbitrary: ls "done")
  case (Suc k)
  then obtain l ls' where "ls = l # ls'" by (cases ls) auto
  then show ?case using Suc.IH [of "Suc done" ls'] Suc.prems by (simp add: MAX_LOG_ENTRIES_def)
qed simp

lemma log_tail_unchanged:
  assumes "le_second_pass E = le_first_pass E"
  shows "log_tail E n = concat (fill_lines n (drop (length (le_first_pass E) - 5) (le_first_pass E)))"
proof -
  let ?ls = "le_first_pass E"
  have "copy_tail (length ?ls) n ?ls 0 []
      = copy_tail (length ?ls) n (drop (length ?ls - 5) ?ls) (length ?ls - 5) []"
    using copy_tail_skips [of "length ?ls - 5" 0 "length ?ls" ?ls n "[]"] by (cases "5 \<le> length ?ls") auto
  also have "\<dots> = concat (fill_lines n (drop (length ?ls - 5) ?ls))"
    by (subst copy_tail_last) (auto simp: MAX_LOG_ENTRIES_def)
  finally show ?thesis using assms by (simp add: log_tail_def)
qed

lemma copy_tail_bound: "length out < n \<Longrightarrow> length (copy_tail tot n ls done out) < n"
  by (induction tot n ls "done" out rule: copy_tail.induct) auto


lemma copied_text_tail [simp]:
  "copied_text ([Allocated a, Allocated b] @ [Copied s] @ es) = s"
  by simp

text \<open>The last five lines of a log, or all of a shorter one.\<close>

definition last_five :: "string list \<Rightarrow> string list" where
  "last_five ls = drop (length ls - 5) ls"

text \<open>The calls a working machine lets through: memory, a writable buffer, and a quiet log.\<close>

definition log_ready :: "log_env \<Rightarrow> u64 \<Rightarrow> bool" where
  "log_ready E n \<longleftrightarrow> KERNEL_LOG_BUFFER_SIZE \<le> unat n \<and> le_output_alloc E n \<and> le_line_alloc E
     \<and> le_second_pass E = le_first_pass E
     \<and> \<not> le_unwritable E (text_size (fill_lines (unat n) (last_five (le_first_pass E))))"

lemma retrieve_ready:
  assumes "log_ready E n"
  shows "retrieve_last_five_logs E n =
    (int (text_size (fill_lines (unat n) (last_five (le_first_pass E)))),
     [Allocated Output_Buffer, Allocated Kernel_Log_Buffer,
      Copied (concat (fill_lines (unat n) (last_five (le_first_pass E)))),
      Freed Output_Buffer, Freed Kernel_Log_Buffer])"
  using assms
  by (simp add: log_ready_def retrieve_last_five_logs_def log_tail_unchanged last_five_def
      length_concat_text Let_def)

text \<open>C16: with a buffer of at least 1024 bytes, \<open>retrieve_last_five_logs\<close> copies the oldest of the
  last five lines of the log, as many whole lines as stay below the buffer's size, in
  order, and returns the length of that text.\<close>
theorem retrieve_delivers_last_lines:
  assumes "log_ready E n"
  shows "\<exists>k \<le> 5. retrieve_last_five_logs E n =
      (int (text_size (take k (last_five (le_first_pass E)))),
       [Allocated Output_Buffer, Allocated Kernel_Log_Buffer,
        Copied (concat (take k (last_five (le_first_pass E)))),
        Freed Output_Buffer, Freed Kernel_Log_Buffer])
    \<and> text_size (take k (last_five (le_first_pass E))) < unat n
    \<and> (\<forall>j. j \<le> length (last_five (le_first_pass E))
          \<longrightarrow> text_size (take j (last_five (le_first_pass E))) < unat n \<longrightarrow> j \<le> k)"
proof -
  let ?ls = "last_five (le_first_pass E)"
  obtain k where k: "k \<le> length ?ls" "fill_lines (unat n) ?ls = take k ?ls"
    using fill_lines_prefix by blast
  have "0 < unat n" using assms by (simp add: log_ready_def KERNEL_LOG_BUFFER_SIZE_def)
  then have "text_size (take k ?ls) < unat n" using fill_lines_fits k(2) by metis
  moreover have "j \<le> k" if "j \<le> length ?ls" "text_size (take j ?ls) < unat n" for j
    using fill_lines_longest [OF that(2,1)] k by simp
  moreover have "k \<le> 5" using k(1) by (simp add: last_five_def)
  ultimately show ?thesis using retrieve_ready [OF assms] k by (auto simp: k(2))
qed

text \<open>
  The blocks that are live after a list of events: \<open>None\<close> if a live block is allocated
  again, a block that is not live is freed, or text is copied out of a block that is not live.
\<close>

fun live_blocks :: "log_block list \<Rightarrow> log_event list \<Rightarrow> log_block list option" where
  "live_blocks live [] = Some live"
| "live_blocks live (Allocated b # es) = (if b \<in> set live then None else live_blocks (b # live) es)"
| "live_blocks live (Freed b # es) = (if b \<in> set live then live_blocks (remove1 b live) es else None)"
| "live_blocks live (Copied s # es) = (if Output_Buffer \<in> set live then live_blocks live es else None)"

text \<open>C17: whatever the log does between the two readings, the text copied out is shorter than
  the caller's buffer, its length is the result, a failed call copies nothing, and on every
  path each block that was allocated is freed once, after the copy out of it.\<close>
theorem retrieve_fits_and_frees:
  "live_blocks [] (snd (retrieve_last_five_logs E n)) = Some []
   \<and> (if 0 \<le> fst (retrieve_last_five_logs E n)
      then list_ex (\<lambda>e. e = Copied (log_tail E (unat n))) (snd (retrieve_last_five_logs E n))
         \<and> fst (retrieve_last_five_logs E n) = int (length (log_tail E (unat n)))
         \<and> length (log_tail E (unat n)) < unat n
      else list_all (\<lambda>e. e \<notin> range Copied) (snd (retrieve_last_five_logs E n)))"
proof -
  have "length (log_tail E (unat n)) < unat n" if "\<not> unat n < KERNEL_LOG_BUFFER_SIZE"
    using that by (simp add: log_tail_def copy_tail_bound KERNEL_LOG_BUFFER_SIZE_def)
  then show ?thesis
    by (auto simp: retrieve_last_five_logs_def Let_def)
qed

text \<open>The lines a full buffer loses are the newest ones: when each of the last five lines has
  at least 256 characters, the program's buffer of 1024 bytes receives at most the three
  oldest of them.\<close>
theorem newest_lines_lost:
  assumes "log_ready E LOG_BUFFER_SIZE" and "5 \<le> length (le_first_pass E)"
    and "list_all (\<lambda>l. 256 \<le> length l) (last_five (le_first_pass E))"
  shows "\<exists>k \<le> 3. copied_text (snd (retrieve_last_five_logs E LOG_BUFFER_SIZE))
            = concat (take k (last_five (le_first_pass E)))"
proof -
  let ?ls = "last_five (le_first_pass E)"
  have size: "256 * k \<le> text_size (take k ls)" if "k \<le> length ls" "list_all (\<lambda>l. 256 \<le> length l) ls"
    for k and ls :: "string list"
    using that by (induction ls arbitrary: k) (auto simp: take_Cons intro: add_mono split: nat.split)
  obtain k where k: "k \<le> length ?ls" "fill_lines 1024 ?ls = take k ?ls" using fill_lines_prefix by blast
  then have "256 * k < 1024" using size [OF k(1) assms(3)] fill_lines_fits [of 1024 ?ls] by simp
  then have "k \<le> 3" by linarith
  moreover have "unat LOG_BUFFER_SIZE = 1024" by (simp add: LOG_BUFFER_SIZE_def)
  ultimately show ?thesis using retrieve_ready [OF assms(1)] k(2) by auto
qed

lemma bounded_text_all: "list_all (\<lambda>c. c \<noteq> NUL) s \<Longrightarrow> bounded_text (int (length s)) s = s"
  by (simp add: bounded_text_def takeWhile_eq_all_conv list_all_iff)

lemma libc_syscall_ok: "0 \<le> r \<Longrightarrow> libc_syscall r = r"
  by (simp add: libc_syscall_def)


subsection \<open>Examples\<close>

definition sample_log_env :: "string list \<Rightarrow> log_env" where
  "sample_log_env ls = \<lparr>le_realtime = (1700000000, 5), le_boottime = 42, le_output_alloc = (\<lambda>n. True),
     le_line_alloc = True, le_first_pass = ls, le_second_pass = ls, le_unwritable = (\<lambda>n. False)\<rparr>"

definition short_log :: "string list" where
  "short_log = [''a'', ''b'', ''c'', ''d'', ''e'', ''f'', ''g'']"

definition long_log :: "string list" where
  "long_log = map (\<lambda>c. replicate 300 c) ''abcde''"

lemma sample_log_ready: "1024 \<le> unat n \<Longrightarrow> log_ready (sample_log_env ls) n"
  by (simp add: log_ready_def sample_log_env_def KERNEL_LOG_BUFFER_SIZE_def)

theorem retrieve_delivers_last_lines_witness:
  "retrieve_last_five_logs (sample_log_env short_log) 2000 =
     (5, [Allocated Output_Buffer, Allocated Kernel_Log_Buffer, Copied ''cdefg'',
          Freed Output_Buffer, Freed Kernel_Log_Buffer])"
proof -
  have five: "last_five (le_first_pass (sample_log_env short_log)) = [''c'', ''d'', ''e'', ''f'', ''g'']"
    by (simp add: last_five_def sample_log_env_def short_log_def)
  from retrieve_delivers_last_lines [OF sample_log_ready [of 2000 short_log]]
  obtain k where k: "k \<le> 5" "retrieve_last_five_logs (sample_log_env short_log) 2000 =
      (int (text_size (take k [''c'', ''d'', ''e'', ''f'', ''g''])),
       [Allocated Output_Buffer, Allocated Kernel_Log_Buffer,
        Copied (concat (take k [''c'', ''d'', ''e'', ''f'', ''g''])),
        Freed Output_Buffer, Freed Kernel_Log_Buffer])"
    "\<forall>j. j \<le> 5 \<longrightarrow> text_size (take j [''c'', ''d'', ''e'', ''f'', ''g'']) < 2000 \<longrightarrow> j \<le> k"
    unfolding five by auto
  from k(3) [rule_format, of 5] have "k = 5" using k(1) by (simp add: text_size_def)
  with k(2) show ?thesis by (simp add: text_size_def)
qed

theorem newest_lines_lost_witness:
  "length (copied_text (snd (retrieve_last_five_logs (sample_log_env long_log) LOG_BUFFER_SIZE))) \<le> 900
   \<and> length (concat long_log) = 1500"
proof -
  have "1024 \<le> unat LOG_BUFFER_SIZE" by (simp add: LOG_BUFFER_SIZE_def)
  moreover have five: "5 \<le> length (le_first_pass (sample_log_env long_log))"
    "last_five (le_first_pass (sample_log_env long_log)) = long_log"
    "list_all (\<lambda>l. 256 \<le> length l) long_log"
    by (simp_all add: last_five_def sample_log_env_def long_log_def)
  ultimately obtain k where "k \<le> 3"
    "copied_text (snd (retrieve_last_five_logs (sample_log_env long_log) LOG_BUFFER_SIZE))
      = concat (take k long_log)"
    using newest_lines_lost [OF sample_log_ready [of LOG_BUFFER_SIZE long_log]] by auto
  moreover have "text_size (take k long_log) \<le> 900" if "k \<le> 3" for k
    using that by (auto simp: long_log_def take_Cons text_size_def split: nat.split)
  ultimately show ?thesis by (simp add: length_concat_text) (simp add: long_log_def)
qed


end
