(* ===== verification/Crypt_App.thy ===== *)
theory Crypt_App
  imports File_Decrypt Text_Format
begin

text \<open>
  The two user programs \<open>Practica2/Aplicaciones de usario/ecrypt_app.c\<close> and \<open>dencrypt_app.c\<close>:
  the options, the file that holds the number of threads, the call and the messages. The
  files the program reads are an argument, as is the system call, which is then the
  kernel's \<open>my_encrypt\<close> or \<open>my_decrypt\<close>. The program hands the kernel the addresses of its
  strings: \<open>adr\<close> gives the address of each.
\<close>

subsection \<open>\<open>getopt\<close> and \<open>fscanf\<close>\<close>

text \<open>
  \<open>getopt\<close> with the string \<open>p:o:j:k:\<close>: each option takes an argument, the rest of its word or
  the next word; other words are skipped, \<open>--\<close> ends the options, an unknown option or a
  missing argument is reported as \<open>?\<close>.
\<close>

datatype opt_event = Opt char string | Opt_Error

definition takes_argument :: "char \<Rightarrow> bool" where
  "takes_argument c \<longleftrightarrow> c \<in> {CHR ''p'', CHR ''o'', CHR ''j'', CHR ''k''}"

fun getopt :: "string list \<Rightarrow> opt_event list" where
  "getopt [] = []"
| "getopt (w # ws) =
     (if w = ''--'' then []
      else (case w of
              d # c # rest \<Rightarrow>
                if d \<noteq> CHR ''-'' then getopt ws
                else if \<not> takes_argument c then Opt_Error # getopt ws
                else if rest \<noteq> [] then Opt c rest # getopt ws
                else (case ws of [] \<Rightarrow> [Opt_Error] | v # ws' \<Rightarrow> Opt c v # getopt ws')
            | _ \<Rightarrow> getopt ws))"

text \<open>
  \<open>fscanf\<close> with \<open>%d\<close>: white space, an optional sign, digits; the C library reads the number
  as a \<open>long\<close>, limited to its range, and stores its low 32 bits.
\<close>

definition scan_int :: "string \<Rightarrow> int option" where
  "scan_int text =
     (let s = dropWhile is_space text;
          neg = (case s of c # _ \<Rightarrow> c = CHR ''-'' | [] \<Rightarrow> False);
          s' = (case s of c # r \<Rightarrow> if c = CHR ''-'' \<or> c = CHR ''+'' then r else s | [] \<Rightarrow> s);
          ds = takeWhile is_digit s';
          v = int (digits_val ds)
      in if ds = [] then None
         else Some (c_int (if neg then max (- v) (- (2 ^ 63)) else min v (2 ^ 63 - 1))))"

subsection \<open>\<open>ecrypt_app.c\<close>\<close>

text \<open>What a run prints, what it reports on the error output, and its exit status.\<close>

record app_run =
  app_output :: string
  app_errors :: "string list"
  app_status :: int

record app_options =
  input_file :: "string option"
  output_file :: "string option"
  key_file :: "string option"
  num_threads_file :: "string option"

definition no_options :: app_options where
  "no_options = \<lparr>input_file = None, output_file = None, key_file = None, num_threads_file = None\<rparr>"

definition usage_text :: "string \<Rightarrow> string" where
  "usage_text program = ''Usage: '' @ program @
     '' -p <input_file> -o <output_file> -j <num_threads_file> -k <key_file>'' @ [CHR 10]"

definition print_usage :: "string \<Rightarrow> app_run" where
  "print_usage program = \<lparr>app_output = usage_text program, app_errors = [], app_status = 1\<rparr>"

text \<open>The number read, with the message of the \<open>perror\<close> that went with a -1.\<close>

definition read_num_threads_from_file :: "(string \<Rightarrow> string option) \<Rightarrow> string \<Rightarrow> int \<times> string list" where
  "read_num_threads_from_file files filename =
     (case files filename of
        None \<Rightarrow> (- 1, [''Error opening file for reading number of threads''])
      | Some text \<Rightarrow>
          (case scan_int text of
             None \<Rightarrow> (- 1, [''Error reading number of threads from file''])
           | Some num_threads \<Rightarrow> (num_threads, [])))"

text \<open>The loop over the options; \<open>None\<close> is the default case, which leaves the program.\<close>

fun parse_options :: "opt_event list \<Rightarrow> app_options \<Rightarrow> app_options option" where
  "parse_options [] o' = Some o'"
| "parse_options (Opt_Error # es) o' = None"
| "parse_options (Opt c optarg # es) o' =
     (if c = CHR ''p'' then parse_options es (o'\<lparr>input_file := Some optarg\<rparr>)
      else if c = CHR ''o'' then parse_options es (o'\<lparr>output_file := Some optarg\<rparr>)
      else if c = CHR ''j'' then parse_options es (o'\<lparr>num_threads_file := Some optarg\<rparr>)
      else if c = CHR ''k'' then parse_options es (o'\<lparr>key_file := Some optarg\<rparr>)
      else None)"

definition line :: "string \<Rightarrow> string \<Rightarrow> string" where
  "line label value = label @ value @ [CHR 10]"

definition invalid_count :: "int \<Rightarrow> string list \<Rightarrow> app_run" where
  "invalid_count n errors =
     \<lparr>app_output = [], app_errors = errors @ [line ''Invalid number of threads: '' (dec_int n)], app_status = 1\<rparr>"

definition parameter_lines :: "string \<Rightarrow> string \<Rightarrow> string \<Rightarrow> int \<Rightarrow> string" where
  "parameter_lines inp outp key n =
     line ''Input file: '' inp @ line ''Output file: '' outp @ line ''Key file: '' key
     @ line ''Number of threads: '' (dec_int n)"

text \<open>
  \<open>syscall\<close> of the C library turns the results from -4095 to -1 into -1. A system call that
  does not return kills the program: its outcome is \<open>Oops\<close>.
\<close>

definition errno_result :: "int \<Rightarrow> int" where
  "errno_result r = (if - 4095 \<le> r \<and> r < 0 then - 1 else r)"

type_synonym crypt_call = "string \<Rightarrow> string \<Rightarrow> string \<Rightarrow> int \<Rightarrow> int io"

definition ecrypt_main ::
  "(string \<Rightarrow> string option) \<Rightarrow> crypt_call \<Rightarrow> string \<Rightarrow> string list \<Rightarrow> app_run io" where
  "ecrypt_main files sys_my_encrypt program args h =
     (case parse_options (getopt args) no_options of
        None \<Rightarrow> (Done (print_usage program), h)
      | Some opts \<Rightarrow>
          (case (input_file opts, output_file opts, num_threads_file opts, key_file opts) of
             (Some inp, Some outp, Some threads, Some key) \<Rightarrow>
               (let (num_threads, errors) = read_num_threads_from_file files threads in
                if num_threads \<le> 0 then (Done (invalid_count num_threads errors), h)
                else
                  (let printed = parameter_lines inp outp key num_threads in
                   case sys_my_encrypt inp outp key num_threads h of
                     (Oops, h') \<Rightarrow> (Oops, h')
                   | (Done r, h') \<Rightarrow>
                       (Done (if errno_result r = - 1
                              then \<lparr>app_output = printed, app_errors = [''Error executing syscall''], app_status = 1\<rparr>
                              else \<lparr>app_output = printed @ ''File encrypted successfully.'' @ [CHR 10],
                                    app_errors = [], app_status = 0\<rparr>), h')))
           | _ \<Rightarrow> (Done (print_usage program), h)))"

subsection \<open>\<open>dencrypt_app.c\<close>\<close>

fun parse_decrypt_options :: "opt_event list \<Rightarrow> app_options \<Rightarrow> app_options option" where
  "parse_decrypt_options [] o' = Some o'"
| "parse_decrypt_options (Opt_Error # es) o' = None"
| "parse_decrypt_options (Opt c optarg # es) o' =
     (if c = CHR ''p'' then parse_decrypt_options es (o'\<lparr>input_file := Some optarg\<rparr>)
      else if c = CHR ''o'' then parse_decrypt_options es (o'\<lparr>output_file := Some optarg\<rparr>)
      else if c = CHR ''j'' then parse_decrypt_options es (o'\<lparr>num_threads_file := Some optarg\<rparr>)
      else if c = CHR ''k'' then parse_decrypt_options es (o'\<lparr>key_file := Some optarg\<rparr>)
      else None)"

definition dencrypt_main ::
  "(string \<Rightarrow> string option) \<Rightarrow> crypt_call \<Rightarrow> string \<Rightarrow> string list \<Rightarrow> app_run io" where
  "dencrypt_main files sys_my_dencrypt program args h =
     (case parse_decrypt_options (getopt args) no_options of
        None \<Rightarrow> (Done (print_usage program), h)
      | Some opts \<Rightarrow>
          (case (input_file opts, output_file opts, num_threads_file opts, key_file opts) of
             (Some inp, Some outp, Some threads, Some key) \<Rightarrow>
               (let (num_threads, errors) = read_num_threads_from_file files threads in
                if num_threads \<le> 0 then (Done (invalid_count num_threads errors), h)
                else
                  (let printed = parameter_lines inp outp key num_threads in
                   case sys_my_dencrypt inp outp key num_threads h of
                     (Oops, h') \<Rightarrow> (Oops, h')
                   | (Done r, h') \<Rightarrow>
                       (Done (if errno_result r = - 1
                              then \<lparr>app_output = printed, app_errors = [''Error executing syscall''], app_status = 1\<rparr>
                              else \<lparr>app_output = printed @ ''File dencrypted successfully.'' @ [CHR 10],
                                    app_errors = [], app_status = 0\<rparr>), h')))
           | _ \<Rightarrow> (Done (print_usage program), h)))"

lemma parse_decrypt_options_eq: "parse_decrypt_options = parse_options"
proof (intro ext)
  show "parse_decrypt_options es o' = parse_options es o'" for es o'
    by (induction es o' rule: parse_options.induct) simp_all
qed

subsection \<open>The number of threads\<close>

lemma c_int_range: "- (2 ^ 31) \<le> c_int i \<and> c_int i < 2 ^ 31"
  using sint_range_size [of "word_of_int i :: u32"] by (simp add: c_int_def word_size)

lemma scan_int_range: "scan_int text = Some n \<Longrightarrow> - (2 ^ 31) \<le> n \<and> n < 2 ^ 31"
  using c_int_range by (auto simp: scan_int_def Let_def split: if_splits)

lemma scan_int_dec:
  assumes "0 \<le> n" and "n < 2 ^ 31" and "rest = [] \<or> \<not> is_digit (hd rest)"
  shows "scan_int (dec_int n @ rest) = Some n"
proof -
  obtain c cs where d: "dec (nat n) = c # cs" by (cases "dec (nat n)") auto
  have digits: "list_all is_digit (dec (nat n))" using dec_digits by (simp add: list_all_iff)
  then have c: "is_digit c" by (simp add: d)
  then have "\<not> is_space c" "c \<noteq> CHR ''-''" "c \<noteq> CHR ''+''"
    by (auto simp: digit_not_space is_digit_def)
  moreover have "takeWhile is_digit (dec (nat n) @ rest) = dec (nat n)"
    using digits assms(3) by (cases rest) (auto simp: list_all_iff takeWhile_append2)
  moreover have "int (digits_val (dec (nat n))) = n" using assms(1) by simp
  ultimately show ?thesis using assms(1,2) by (simp add: scan_int_def dec_int_def d Let_def)
qed


subsection \<open>The programs and the kernel\<close>

text \<open>
  The two calls as the programs reach them: the kernel copies the strings at the addresses
  it is given.
\<close>

definition encrypt_call :: "kernel_env \<Rightarrow> (string \<Rightarrow> u64) \<Rightarrow> crypt_call" where
  "encrypt_call env adr inp outp key n = my_encrypt env (adr inp) (adr outp) (adr key) n"

definition decrypt_call :: "kernel_env \<Rightarrow> (string \<Rightarrow> u64) \<Rightarrow> crypt_call" where
  "decrypt_call env adr inp outp key n = my_decrypt env (adr inp) (adr outp) (adr key) n"

lemma word_not_le_0: "\<not> (w :: u64) \<le> 0 \<longleftrightarrow> w \<noteq> 0"
  by simp

lemma count_not_zero: "valid_count n \<Longrightarrow> size_of_int n \<noteq> 0"
  using unat_size_of_int [of n] by (auto simp: valid_count_def)

lemma write_no_trap:
  assumes "valid_count n" "key \<noteq> []" "length key < 2 ^ 64" "unat fs = length buf"
    and "\<And>r h. fst (release r h) \<noteq> Oops"
  shows "fst (encrypt_and_write env fo fs key buf n release h) \<noteq> Oops"
  using assms(5) count_not_zero [OF assms(1)] run_threads_xor_all [OF assms(1,3,2,4)]
  by (auto simp: encrypt_and_write_def Let_def split: prod.split option.split)

lemma lists_no_trap:
  assumes "valid_count n" "key \<noteq> []" "length key < 2 ^ 64" "unat fs = length buf"
  shows "fst (alloc_lists_and_encrypt env fi fo fk pk key pb fs buf n h) \<noteq> Oops"
  unfolding alloc_lists_and_encrypt_def Let_def split_beta
  by (auto simp: encrypt_labels split: option.split intro!: write_no_trap [OF assms])

lemma input_no_trap:
  assumes "valid_count n" "key \<noteq> []" "length key < 2 ^ 64"
  shows "fst (read_input_and_encrypt env fi fo fk pk key n h) \<noteq> Oops"
  unfolding read_input_and_encrypt_def Let_def split_beta
  by (auto simp: encrypt_labels split: option.split prod.split
      intro!: lists_no_trap [OF assms])

lemma key_no_trap:
  assumes "valid_count n"
  shows "fst (read_key_and_encrypt env fi fo fk n h) \<noteq> Oops"
proof -
  have "fst (read_input_and_encrypt env fi fo fk pk (read_into bs (fresh_block env p sz)) n h) \<noteq> Oops"
    if "sz \<noteq> 0" for bs p sz pk h
    using that unsigned_less [of sz, where ?'a = nat]
    by (intro input_no_trap [OF assms]) (simp_all add: unat_gt_0 flip: length_greater_0_conv)
  then show ?thesis
    unfolding read_key_and_encrypt_def Let_def split_beta
    by (simp add: encrypt_labels split: option.split)
qed

lemma encryption_no_trap:
  assumes "valid_count n"
  shows "fst (handle_file_encryption env inp outp keyp n h) \<noteq> Oops"
  unfolding handle_file_encryption_def Let_def split_beta
  by (auto simp: encrypt_labels key_no_trap [OF assms] split: sum.split)

lemma my_encrypt_no_trap:
  assumes "valid_count n"
  shows "fst (my_encrypt env a b c n h) \<noteq> Oops"
proof -
  have "\<exists>r h'. handle_file_encryption env i j k n h = (Done r, h')" for i j k h
    using encryption_no_trap [OF assms, of env i j k h]
    by (cases "handle_file_encryption env i j k n h"; cases "fst (handle_file_encryption env i j k n h)") auto
  then show ?thesis
    by (auto simp: my_encrypt_def Let_def split: sum.split prod.split outcome.split)
      (metis outcome.distinct(1) prod.inject)
qed

lemma read_count_valid:
  assumes "read_num_threads_from_file files f = (n, errors)" and "\<not> n \<le> 0"
  shows "valid_count n"
  using assms scan_int_range
  by (auto simp: read_num_threads_from_file_def valid_count_def split: option.splits)


lemma my_decrypt_eq: "my_decrypt = my_encrypt"
  by (intro ext, unfold my_decrypt_def my_encrypt_def decrypt_file_process_eq) (rule refl)

lemma main_no_trap:
  assumes "\<And>i j k n h. valid_count n \<Longrightarrow> fst (call i j k n h) \<noteq> Oops"
  shows "fst (ecrypt_main files call program args h) \<noteq> Oops"
    and "fst (dencrypt_main files call program args h) \<noteq> Oops"
proof -
  have call: "\<exists>r h'. call i j k n h = (Done r, h')" if "valid_count n" for i j k n h
    using assms [OF that, of i j k h]
    by (cases "call i j k n h"; cases "fst (call i j k n h)") auto
  have "\<exists>r h'. (let (n, errors) = read_num_threads_from_file files t in
      if n \<le> 0 then (Done (invalid_count n errors), h)
      else (let printed = parameter_lines i j k n in
            case call i j k n h of (Oops, h') \<Rightarrow> (Oops, h') | (Done r, h') \<Rightarrow> (Done (f r printed), h')))
      = (Done r, h')" for i j k t and f :: "int \<Rightarrow> string \<Rightarrow> app_run"
  proof (cases "read_num_threads_from_file files t")
    case (Pair n errors)
    show ?thesis
    proof (cases "n \<le> 0")
      case False
      with call [OF read_count_valid [OF Pair False], of i j k h] show ?thesis using Pair by auto
    qed (simp add: Pair)
  qed
  note run = this [of _ _ _ _ "\<lambda>r printed. if errno_result r = - 1 then
      \<lparr>app_output = printed, app_errors = [''Error executing syscall''], app_status = 1\<rparr>
      else \<lparr>app_output = printed @ m @ [CHR 10], app_errors = [], app_status = 0\<rparr>" for m]
  show "fst (ecrypt_main files call program args h) \<noteq> Oops"
    using run [of _ _ _ _ "''File encrypted successfully.''"]
    by (auto simp: ecrypt_main_def split: option.split) (metis fst_conv outcome.distinct(1))
  show "fst (dencrypt_main files call program args h) \<noteq> Oops"
    using run [of _ _ _ _ "''File dencrypted successfully.''"]
    by (auto simp: dencrypt_main_def split: option.split) (metis fst_conv outcome.distinct(1))
qed


subsection \<open>Encrypting and decrypting from the command line\<close>

definition command_line :: "string \<Rightarrow> string \<Rightarrow> string \<Rightarrow> string \<Rightarrow> string list" where
  "command_line inp outp threads key = [''-p'', inp, ''-o'', outp, ''-j'', threads, ''-k'', key]"

lemma parse_command_line:
  "parse_options (getopt (command_line inp outp threads key)) no_options =
     Some \<lparr>input_file = Some inp, output_file = Some outp, key_file = Some key, num_threads_file = Some threads\<rparr>"
  by (simp add: command_line_def takes_argument_def no_options_def)

definition success :: "string \<Rightarrow> string \<Rightarrow> string \<Rightarrow> int \<Rightarrow> string \<Rightarrow> app_run" where
  "success inp outp key n message =
     \<lparr>app_output = parameter_lines inp outp key n @ message @ [CHR 10], app_errors = [], app_status = 0\<rparr>"

lemma read_threads:
  assumes "files threads = Some (dec_int n @ [CHR 10])" and "valid_count n"
  shows "read_num_threads_from_file files threads = (n, [])"
  using assms scan_int_dec [of n "[CHR 10]"]
  by (simp add: read_num_threads_from_file_def valid_count_def is_digit_def)

lemma ecrypt_main_run:
  assumes "files threads = Some (dec_int n @ [CHR 10])" and "valid_count n"
    and "call inp outp key n h = (Done (int r), h')"
  shows "ecrypt_main files call program (command_line inp outp threads key) h
      = (Done (success inp outp key n ''File encrypted successfully.''), h')"
    and "dencrypt_main files call program (command_line inp outp threads key) h
      = (Done (success inp outp key n ''File dencrypted successfully.''), h')"
  using assms(2,3) read_threads [of files threads n, OF assms(1,2)]
  by (simp_all add: ecrypt_main_def dencrypt_main_def parse_command_line parse_decrypt_options_eq
      errno_result_def success_def valid_count_def)

text \<open>The kernel finds each of the strings at the address the program gives for it.\<close>

definition strings_at :: "kernel_env \<Rightarrow> (string \<Rightarrow> u64) \<Rightarrow> string list \<Rightarrow> bool" where
  "strings_at env adr ss \<longleftrightarrow> list_all (\<lambda>s. \<forall>h. \<exists>p. strndup_user env h (adr s) = Inr (p, s)) ss"

lemma strings_atD: "strings_at env adr ss \<Longrightarrow> s \<in> set ss \<Longrightarrow> \<exists>p. strndup_user env h (adr s) = Inr (p, s)"
  by (simp add: strings_at_def list_all_iff)

lemma my_encrypt_writes:
  assumes "kernel_fs env disk" and "strings_at env adr [inp, outp, keyp]"
    and "crypt_request env (contents disk h) inp outp keyp n data key"
  shows "\<exists>h'. my_encrypt env (adr inp) (adr outp) (adr keyp) n h = (Done (int (length data)), h')
    \<and> contents disk h' = (contents disk h)(outp \<mapsto> xor_all key data)"
proof -
  obtain p where p: "strndup_user env h (adr inp) = Inr (p, inp)"
    using strings_atD [OF assms(2), of inp] by auto
  obtain q where q: "strndup_user env (h @ [Allocated p]) (adr outp) = Inr (q, outp)"
    using strings_atD [OF assms(2), of outp] by auto
  obtain r where r: "strndup_user env ((h @ [Allocated p]) @ [Allocated q]) (adr keyp) = Inr (r, keyp)"
    using strings_atD [OF assms(2), of keyp] by auto
  let ?h = "((h @ [Allocated p]) @ [Allocated q]) @ [Allocated r]"
  have "crypt_request env (contents disk ?h) inp outp keyp n data key"
    using assms(3) by (simp only: fs_after_neutral)
  from encryption.process_writes [OF assms(1) this] obtain h' where
    h': "handle_file_encryption env inp outp keyp n ?h = (Done (int (length data)), h')"
    "contents disk h' = (contents disk h)(outp \<mapsto> xor_all key data)"
    by (auto simp only: fs_after_neutral)
  then have "my_encrypt env (adr inp) (adr outp) (adr keyp) n h
      = (Done (int (length data)), ((h' @ [Freed p]) @ [Freed q]) @ [Freed r])"
    using p q r by (simp add: my_encrypt_def do_strndup_def kfree_user_def)
  moreover have "contents disk (((h' @ [Freed p]) @ [Freed q]) @ [Freed r]) = contents disk h'"
    by (simp only: fs_after_neutral)
  ultimately show ?thesis using h'(2) by auto
qed

lemma calls_round_trip:
  assumes "kernel_fs env disk" and "strings_at env adr [inp, mid, out, keyp]"
    and "crypt_request env (contents disk h) inp mid keyp n data key"
    and "mid \<noteq> out" "keyp \<noteq> out"
    and "valid_count m" "unat (sizeof_task_params env) * nat m \<le> KMALLOC_MAX_SIZE" "48 * nat m \<le> KMALLOC_MAX_SIZE"
  shows "\<exists>h1 h2. encrypt_call env adr inp mid keyp n h = (Done (int (length data)), h1)
    \<and> decrypt_call env adr mid out keyp m h1 = (Done (int (length data)), h2)
    \<and> contents disk h2 out = Some data"
proof -
  have at: "strings_at env adr [inp, mid, keyp]" "strings_at env adr [mid, out, keyp]"
    using assms(2) by (simp_all add: strings_at_def)
  obtain h1 where 1: "my_encrypt env (adr inp) (adr mid) (adr keyp) n h = (Done (int (length data)), h1)"
    "contents disk h1 = (contents disk h)(mid \<mapsto> xor_all key data)"
    using my_encrypt_writes [OF assms(1) at(1) assms(3)] by blast
  note req = crypt.second_request [OF assms(3) 1(2) assms(4-8)]
  obtain h2 where "my_encrypt env (adr mid) (adr out) (adr keyp) m h1 = (Done (int (length (xor_all key data))), h2)"
    "contents disk h2 = (contents disk h1)(out \<mapsto> xor_all key (xor_all key data))"
    using my_encrypt_writes [OF assms(1) at(2) req] by blast
  with 1 show ?thesis
    by (intro exI [of _ h1] exI [of _ h2])
      (simp add: encrypt_call_def decrypt_call_def my_decrypt_eq xor_all_involution)
qed

text \<open>C5: from the command line to the disk: \<open>ecrypt_app\<close> with one number of threads and then
  \<open>dencrypt_app\<close> with another, under the same key file, both report success and exit with
  0, and the last output file holds the bytes of the first input.\<close>
theorem programs_round_trip:
  assumes "kernel_fs env disk" and "strings_at env adr [inp, mid, out, keyp]"
    and "crypt_request env (contents disk h) inp mid keyp n data key"
    and "mid \<noteq> out" "keyp \<noteq> out"
    and "valid_count m" "unat (sizeof_task_params env) * nat m \<le> KMALLOC_MAX_SIZE" "48 * nat m \<le> KMALLOC_MAX_SIZE"
    and "files t1 = Some (dec_int n @ [CHR 10])" and "files t2 = Some (dec_int m @ [CHR 10])"
  shows "\<exists>h1 h2. ecrypt_main files (encrypt_call env adr) program (command_line inp mid t1 keyp) h
        = (Done (success inp mid keyp n ''File encrypted successfully.''), h1)
    \<and> dencrypt_main files (decrypt_call env adr) program' (command_line mid out t2 keyp) h1
        = (Done (success mid out keyp m ''File dencrypted successfully.''), h2)
    \<and> contents disk h2 out = Some data"
proof -
  have n: "valid_count n" using assms(3) by (simp add: crypt_request_def)
  obtain h1 h2 where h: "encrypt_call env adr inp mid keyp n h = (Done (int (length data)), h1)"
    "decrypt_call env adr mid out keyp m h1 = (Done (int (length data)), h2)"
    "contents disk h2 out = Some data"
    using calls_round_trip [OF assms(1-8)] by blast
  from ecrypt_main_run(1) [of files t1 n "encrypt_call env adr", OF assms(9) n h(1)]
    ecrypt_main_run(2) [of files t2 m "decrypt_call env adr", OF assms(10,6) h(2)] h(3)
  show ?thesis by blast
qed

text \<open>The kernel of the earlier examples, with the three paths in user memory.\<close>

definition app_adr :: "string \<Rightarrow> u64" where
  "app_adr s = (if s = ''in'' then 1 else if s = ''out'' then 2 else 3)"

definition app_env :: kernel_env where
  "app_env = (disk_env sample_disk)\<lparr>strndup_user := (\<lambda>h a. if a = 1 then Inr (length h, ''in'')
     else if a = 2 then Inr (length h, ''out'') else Inr (length h, ''key''))\<rparr>"

definition app_files :: "string \<Rightarrow> string option" where
  "app_files = [''two'' \<mapsto> ''2'' @ [CHR 10], ''five'' \<mapsto> ''5'' @ [CHR 10]]"

lemma app_kernel: "kernel_fs app_env sample_disk"
  using disk_kernel.kernel_fs_axioms [of sample_disk] by (simp add: kernel_fs_def app_env_def)

theorem programs_round_trip_witness:
  "\<exists>h1 h2. ecrypt_main app_files (encrypt_call app_env app_adr) ''e'' (command_line ''in'' ''out'' ''two'' ''key'') []
        = (Done (success ''in'' ''out'' ''key'' 2 ''File encrypted successfully.''), h1)
    \<and> dencrypt_main app_files (decrypt_call app_env app_adr) ''d'' (command_line ''out'' ''in'' ''five'' ''key'') h1
        = (Done (success ''out'' ''in'' ''key'' 5 ''File dencrypted successfully.''), h2)
    \<and> contents sample_disk h2 ''in'' = Some [5, 7, 9]"
proof -
  have at: "strings_at app_env app_adr [''in'', ''out'', ''in'', ''key'']"
    by (simp add: strings_at_def app_env_def app_adr_def)
  have req: "crypt_request app_env (contents sample_disk []) ''in'' ''out'' ''key'' 2 [5, 7, 9] [3, 1]"
    using sample_request by (simp add: crypt_request_def app_env_def)
  have m: "''out'' \<noteq> ''in''" "''key'' \<noteq> ''in''" "valid_count 5"
    "unat (sizeof_task_params app_env) * nat 5 \<le> KMALLOC_MAX_SIZE" "48 * nat 5 \<le> KMALLOC_MAX_SIZE"
    by (simp_all add: valid_count_def app_env_def disk_env_def KMALLOC_MAX_SIZE_def)
  have files: "app_files ''two'' = Some (dec_int 2 @ [CHR 10])" "app_files ''five'' = Some (dec_int 5 @ [CHR 10])"
    by (simp_all add: app_files_def dec_int_def dec.simps digit_char_def char_of_def bit_simps bit_0)
  show ?thesis by (rule programs_round_trip [OF app_kernel at req m files])
qed

end
