(* ===== verification/Boot_Args.thy ===== *)
theory Boot_Args
  imports Text_Format
begin

text \<open>
  The command line options of the kernel in \<open>Practica1/linux-6.6.44/init/main.c\<close>: the setup
  functions of that file, the look-up of an option among them, and the collection of the
  options that belong to the first user process in \<open>argv_init\<close> and \<open>envp_init\<close>. The
  tokeniser, the comparison of option names and the number parsers of \<open>lib/\<close> are
  parameters; other files' setup functions are entries of the table.
\<close>

subsection \<open>State\<close>

text \<open>
  \<open>argv_init\<close> and \<open>envp_init\<close> are arrays of pointers, \<open>None\<close> a null pointer. \<open>bs_panic_later\<close>
  holds \<open>panic_later\<close> and \<open>panic_param\<close>. The constant \<open>M\<close> of the definitions is
  \<open>CONFIG_INIT_ENV_ARG_LIMIT\<close>, the value of \<open>MAX_INIT_ARGS\<close> and \<open>MAX_INIT_ENVS\<close>.
\<close>

record boot_state =
  argv_init :: "string option list"
  envp_init :: "string option list"
  bs_panic_later :: "(string \<times> string) option"
  execute_command :: "string option"
  ramdisk_execute_command :: "string option"
  console_loglevel :: int
  reset_devices :: bool
  rodata_enabled :: bool
  blacklisted_initcalls :: "string list"
  randomize_kstack_offset :: bool

type_synonym setup_func = "string option \<Rightarrow> boot_state \<Rightarrow> int \<times> boot_state"

record obs_kernel_param =
  kp_str :: string
  kp_early :: bool
  kp_setup_func :: "setup_func option"

text \<open>
  \<open>be_parameqn\<close> and \<open>be_parameq\<close> compare option names, \<open>be_sysctl_alias\<close> is
  \<open>sysctl_is_alias\<close>, \<open>be_get_option\<close> the number \<open>get_option\<close> finds, if any, and
  \<open>be_kstrtobool\<close> the truth value or the negative error of \<open>kstrtobool\<close>.
\<close>

record boot_env =
  be_setup :: "obs_kernel_param list"
  be_parameqn :: "string \<Rightarrow> string \<Rightarrow> nat \<Rightarrow> bool"
  be_parameq :: "string \<Rightarrow> string \<Rightarrow> bool"
  be_sysctl_alias :: "string \<Rightarrow> bool"
  be_get_option :: "string option \<Rightarrow> int option"
  be_kstrtobool :: "string option \<Rightarrow> int + bool"

definition initial_arrays :: "nat \<Rightarrow> boot_state \<Rightarrow> boot_state" where
  "initial_arrays M s =
     s\<lparr>argv_init := Some ''init'' # replicate (M + 1) None,
       envp_init := [Some ''HOME=/'', Some ''TERM=linux''] @ replicate M None,
       bs_panic_later := None, execute_command := None, ramdisk_execute_command := Some ''/init''\<rparr>"

subsection \<open>The setup functions of the file\<close>

definition CONSOLE_LOGLEVEL_DEBUG :: int where "CONSOLE_LOGLEVEL_DEBUG = 10"
definition CONSOLE_LOGLEVEL_QUIET :: int where "CONSOLE_LOGLEVEL_QUIET = 4"

definition set_reset_devices :: setup_func where
  "set_reset_devices str s = (1, s\<lparr>reset_devices := True\<rparr>)"

definition debug_kernel :: setup_func where
  "debug_kernel str s = (0, s\<lparr>console_loglevel := CONSOLE_LOGLEVEL_DEBUG\<rparr>)"

definition quiet_kernel :: setup_func where
  "quiet_kernel str s = (0, s\<lparr>console_loglevel := CONSOLE_LOGLEVEL_QUIET\<rparr>)"

definition loglevel :: "boot_env \<Rightarrow> setup_func" where
  "loglevel E str s =
     (case be_get_option E str of
        Some newlevel \<Rightarrow> (0, s\<lparr>console_loglevel := newlevel\<rparr>)
      | None \<Rightarrow> (- EINVAL, s))"

text \<open>The loop that both functions run over \<open>argv_init[1]\<close> up to \<open>argv_init[M - 1]\<close>.\<close>

definition clear_arguments :: "nat \<Rightarrow> boot_state \<Rightarrow> boot_state" where
  "clear_arguments M s = s\<lparr>argv_init := fold (\<lambda>i a. a[i := None]) [1..<M] (argv_init s)\<rparr>"

definition init_setup :: "nat \<Rightarrow> setup_func" where
  "init_setup M str s = (1, clear_arguments M (s\<lparr>execute_command := str\<rparr>))"

definition rdinit_setup :: "nat \<Rightarrow> setup_func" where
  "rdinit_setup M str s = (1, clear_arguments M (s\<lparr>ramdisk_execute_command := str\<rparr>))"

definition set_debug_rodata :: setup_func where
  "set_debug_rodata str s =
     (0, if str = Some ''on'' then s\<lparr>rodata_enabled := True\<rparr>
         else if str = Some ''off'' then s\<lparr>rodata_enabled := False\<rparr> else s)"

text \<open>
  \<open>strsep(&str, ",")\<close> until it returns a null pointer; every part is added at the head of
  the list. The panic when the boot allocator has no memory for an entry is left out.
\<close>

fun split_commas :: "string \<Rightarrow> string \<Rightarrow> string list" where
  "split_commas part [] = [rev part]"
| "split_commas part (c # cs) = (if c = CHR '','' then rev part # split_commas [] cs else split_commas (c # part) cs)"

definition initcall_blacklist :: setup_func where
  "initcall_blacklist str s =
     (case str of
        None \<Rightarrow> (1, s)
      | Some names \<Rightarrow>
          (1, s\<lparr>blacklisted_initcalls := rev (split_commas [] names) @ blacklisted_initcalls s\<rparr>))"

definition early_randomize_kstack_offset :: "boot_env \<Rightarrow> setup_func" where
  "early_randomize_kstack_offset E buf s =
     (case be_kstrtobool E buf of
        Inl ret \<Rightarrow> (ret, s)
      | Inr b \<Rightarrow> (0, s\<lparr>randomize_kstack_offset := b\<rparr>))"

definition warn_bootconfig :: setup_func where
  "warn_bootconfig str s = (0, s)"

definition main_setup :: "boot_env \<Rightarrow> nat \<Rightarrow> obs_kernel_param list" where
  "main_setup E M =
     [\<lparr>kp_str = ''reset_devices'', kp_early = False, kp_setup_func = Some set_reset_devices\<rparr>,
      \<lparr>kp_str = ''debug'', kp_early = True, kp_setup_func = Some debug_kernel\<rparr>,
      \<lparr>kp_str = ''quiet'', kp_early = True, kp_setup_func = Some quiet_kernel\<rparr>,
      \<lparr>kp_str = ''loglevel'', kp_early = True, kp_setup_func = Some (loglevel E)\<rparr>,
      \<lparr>kp_str = ''bootconfig'', kp_early = True, kp_setup_func = Some warn_bootconfig\<rparr>,
      \<lparr>kp_str = ''init='', kp_early = False, kp_setup_func = Some (init_setup M)\<rparr>,
      \<lparr>kp_str = ''rdinit='', kp_early = False, kp_setup_func = Some (rdinit_setup M)\<rparr>,
      \<lparr>kp_str = ''randomize_kstack_offset'', kp_early = True,
       kp_setup_func = Some (early_randomize_kstack_offset E)\<rparr>,
      \<lparr>kp_str = ''initcall_blacklist='', kp_early = False, kp_setup_func = Some initcall_blacklist\<rparr>,
      \<lparr>kp_str = ''rodata'', kp_early = True, kp_setup_func = Some set_debug_rodata\<rparr>]"

subsection \<open>Looking an option up\<close>

text \<open>
  The loop over the table, which is not empty in a kernel; \<open>had\<close> is \<open>had_early_param\<close>. The
  entries of this file are \<open>main_setup\<close>, in the order of the file.
\<close>

fun obsolete_checksetup ::
  "boot_env \<Rightarrow> string \<Rightarrow> obs_kernel_param list \<Rightarrow> bool \<Rightarrow> boot_state \<Rightarrow> bool \<times> boot_state" where
  "obsolete_checksetup E line [] had s = (had, s)"
| "obsolete_checksetup E line (p # ps) had s =
     (let n = length (kp_str p) in
      if be_parameqn E line (kp_str p) n then
        (if kp_early p then
           obsolete_checksetup E line ps
             (had \<or> (line @ [NUL]) ! n = NUL \<or> (line @ [NUL]) ! n = CHR ''='') s
         else (case kp_setup_func p of
                 None \<Rightarrow> (True, s)
               | Some f \<Rightarrow>
                   (let (r, s') = f (Some (drop n line)) s in
                    if r \<noteq> 0 then (True, s') else obsolete_checksetup E line ps had s')))
      else obsolete_checksetup E line ps had s)"

text \<open>An early entry always has a function; the source calls it without a check.\<close>

fun do_early_param ::
  "boot_env \<Rightarrow> string \<Rightarrow> string option \<Rightarrow> obs_kernel_param list \<Rightarrow> boot_state \<Rightarrow> boot_state" where
  "do_early_param E param val [] s = s"
| "do_early_param E param val (p # ps) s =
     (if (kp_early p \<and> be_parameq E param (kp_str p)) \<or> (param = ''console'' \<and> kp_str p = ''earlycon'')
      then (case kp_setup_func p of
              None \<Rightarrow> do_early_param E param val ps s
            | Some f \<Rightarrow> do_early_param E param val ps (snd (f val s)))
      else do_early_param E param val ps s)"

subsection \<open>Options for the first process\<close>

text \<open>
  An option as the tokeniser leaves it: the characters from the name on, and the offset of
  the value in them. The name ends with a null character, which stands where the equals sign
  was; a value in quotes starts one character later.
\<close>

record boot_arg =
  ba_buf :: string
  ba_val :: "nat option"

definition c_string :: "string \<Rightarrow> string" where
  "c_string b = takeWhile (\<lambda>c. c \<noteq> NUL) b"

text \<open>The buffer after the call; \<open>Oops\<close> is the \<open>BUG\<close>.\<close>

definition repair_env_string :: "boot_arg \<Rightarrow> string outcome" where
  "repair_env_string a =
     (let buf = ba_buf a; len = length (c_string buf) in
      case ba_val a of
        None \<Rightarrow> Done buf
      | Some v \<Rightarrow>
          if v = len + 1 then Done (buf[v - 1 := CHR ''=''])
          else if v = len + 2 then
            (let value = c_string (drop v buf) in
             Done (take (v - 2) buf @ ''='' @ value @ [NUL] @ drop (v + length value) buf))
          else Oops)"

text \<open>
  The loop over \<open>argv_init\<close>: the first free place, and whether the loop has passed index
  \<open>M\<close>, where \<open>panic_later\<close> is set.
\<close>

fun arg_slot :: "nat \<Rightarrow> string option list \<Rightarrow> nat \<Rightarrow> bool \<Rightarrow> nat \<times> bool" where
  "arg_slot M [] i full = (i, full)"
| "arg_slot M (None # ps) i full = (i, full)"
| "arg_slot M (Some a # ps) i full = arg_slot M ps (i + 1) (full \<or> i = M)"

text \<open>The loop over \<open>envp_init\<close>, which also stops at a variable of the same name.\<close>

definition strncmp_eq :: "string \<Rightarrow> string \<Rightarrow> nat \<Rightarrow> bool" where
  "strncmp_eq a b n \<longleftrightarrow> take n (a @ [NUL]) = take n (b @ [NUL])"

fun env_slot :: "nat \<Rightarrow> string \<Rightarrow> nat \<Rightarrow> string option list \<Rightarrow> nat \<Rightarrow> bool \<Rightarrow> nat \<times> bool" where
  "env_slot M param n [] i full = (i, full)"
| "env_slot M param n (None # ps) i full = (i, full)"
| "env_slot M param n (Some e # ps) i full =
     (if strncmp_eq param e n then (i, full \<or> i = M)
      else env_slot M param n ps (i + 1) (full \<or> i = M))"

text \<open>A store outside the array is an \<open>Oops\<close>.\<close>

definition store_at :: "nat \<Rightarrow> string \<Rightarrow> string option list \<Rightarrow> string option list outcome" where
  "store_at i a xs = (if i < length xs then Done (xs[i := Some a]) else Oops)"

definition set_init_arg :: "nat \<Rightarrow> boot_arg \<Rightarrow> boot_state \<Rightarrow> boot_state outcome" where
  "set_init_arg M a s =
     (if bs_panic_later s \<noteq> None then Done s
      else (case repair_env_string a of
              Oops \<Rightarrow> Oops
            | Done buf \<Rightarrow>
                (let (i, full) = arg_slot M (argv_init s) 0 False in
                 if full then Done (s\<lparr>bs_panic_later := Some (''init'', c_string buf)\<rparr>)
                 else (case store_at i (c_string buf) (argv_init s) of
                         Oops \<Rightarrow> Oops
                       | Done argv \<Rightarrow> Done (s\<lparr>argv_init := argv\<rparr>)))))"

definition unknown_bootoption :: "boot_env \<Rightarrow> nat \<Rightarrow> boot_arg \<Rightarrow> boot_state \<Rightarrow> boot_state outcome" where
  "unknown_bootoption E M a s =
     (let nm = c_string (ba_buf a); len = length nm in
      if be_sysctl_alias E nm then Done s
      else (case repair_env_string a of
              Oops \<Rightarrow> Oops
            | Done buf \<Rightarrow>
                (let param = c_string buf; (handled, s) = obsolete_checksetup E param (be_setup E) False s in
                 if handled then Done s
                 else if CHR ''.'' \<in> set (take len param) then Done s
                 else if bs_panic_later s \<noteq> None then Done s
                 else if ba_val a \<noteq> None then
                   (let (i, full) = env_slot M param (len + 1) (envp_init s) 0 False;
                        s = (if full then s\<lparr>bs_panic_later := Some (''env'', param)\<rparr> else s)
                    in case store_at i param (envp_init s) of
                         Oops \<Rightarrow> Oops
                       | Done envp \<Rightarrow> Done (s\<lparr>envp_init := envp\<rparr>))
                 else
                   (let (i, full) = arg_slot M (argv_init s) 0 False;
                        s = (if full then s\<lparr>bs_panic_later := Some (''init'', param)\<rparr> else s)
                    in case store_at i param (argv_init s) of
                         Oops \<Rightarrow> Oops
                       | Done argv \<Rightarrow> Done (s\<lparr>argv_init := argv\<rparr>)))))"

text \<open>
  The two passes of \<open>start_kernel\<close>: every option of the command line goes through
  \<open>unknown_bootoption\<close> unless a module parameter takes it, what follows the two dashes
  through \<open>set_init_arg\<close>; then the kernel panics if an array was too small.
\<close>

fun pass :: "(boot_arg \<Rightarrow> boot_state \<Rightarrow> boot_state outcome) \<Rightarrow> boot_arg list \<Rightarrow> boot_state \<Rightarrow> boot_state outcome" where
  "pass f [] s = Done s"
| "pass f (a # as) s = (case f a s of Oops \<Rightarrow> Oops | Done s' \<Rightarrow> pass f as s')"

definition parse_boot_options ::
  "boot_env \<Rightarrow> nat \<Rightarrow> boot_arg list \<Rightarrow> boot_arg list \<Rightarrow> boot_state \<Rightarrow> boot_state outcome" where
  "parse_boot_options E M options after_dashes s =
     (case pass (unknown_bootoption E M) options s of
        Oops \<Rightarrow> Oops
      | Done s' \<Rightarrow> pass (set_init_arg M) after_dashes s')"

definition boot_panics :: "boot_state \<Rightarrow> bool" where
  "boot_panics s \<longleftrightarrow> bs_panic_later s \<noteq> None"


subsection \<open>The arrays stay terminated\<close>

definition boot_inv :: "nat \<Rightarrow> boot_state \<Rightarrow> bool" where
  "boot_inv M s \<longleftrightarrow> length (argv_init s) = M + 2 \<and> length (envp_init s) = M + 2
     \<and> (bs_panic_later s = None \<longrightarrow> argv_init s ! (M + 1) = None \<and> envp_init s ! (M + 1) = None)"

text \<open>
  What the look-up relies on: a setup function of the table keeps the invariant. The
  functions of this file do.
\<close>

locale setup_functions =
  fixes table :: "obs_kernel_param list" and inv :: "boot_state \<Rightarrow> bool"
  assumes setup_keeps: "p \<in> set table \<Longrightarrow> kp_setup_func p = Some f \<Longrightarrow> inv s \<Longrightarrow> inv (snd (f str s))"
begin

lemma checksetup_keeps_sub:
  "set ps \<subseteq> set table \<Longrightarrow> inv s \<Longrightarrow> inv (snd (obsolete_checksetup E line ps had s))"
proof (induction ps arbitrary: had s)
  case (Cons p ps)
  have "inv (snd (f str s))" if "kp_setup_func p = Some f" for f str
    using setup_keeps [of p f s str] that Cons.prems by simp
  then show ?case using Cons by (simp add: Let_def split_beta split: option.split)
qed simp

lemma checksetup_keeps: "inv s \<Longrightarrow> inv (snd (obsolete_checksetup E line table had s))"
  by (rule checksetup_keeps_sub) simp

lemma early_keeps_sub:
  "set ps \<subseteq> set table \<Longrightarrow> inv s \<Longrightarrow> inv (do_early_param E param val ps s)"
proof (induction ps arbitrary: s)
  case (Cons p ps)
  have "inv (snd (f val s))" if "kp_setup_func p = Some f" for f
    using setup_keeps [of p f s val] that Cons.prems by simp
  then show ?case using Cons by (auto split: option.split)
qed simp

end

lemma fold_clear:
  "length (fold (\<lambda>i a. a[i := None]) is a) = length a"
  "a ! k = None \<Longrightarrow> fold (\<lambda>i a. a[i := None]) is a ! k = None"
  "k \<notin> set is \<Longrightarrow> fold (\<lambda>i a. a[i := None]) is a ! k = a ! k"
proof -
  show "length (fold (\<lambda>i a. a[i := None]) is a) = length a"
    by (induction "is" arbitrary: a) simp_all
  show "a ! k = None \<Longrightarrow> fold (\<lambda>i a. a[i := None]) is a ! k = None"
  proof (induction "is" arbitrary: a)
    case (Cons i "is")
    have "a[i := None] ! k = None"
      using Cons.prems by (cases "i = k"; cases "k < length a") (simp_all add: list_update_beyond)
    with Cons.IH show ?case by simp
  qed simp
  show "k \<notin> set is \<Longrightarrow> fold (\<lambda>i a. a[i := None]) is a ! k = a ! k"
    by (induction "is" arbitrary: a) simp_all
qed

lemma clear_keeps: "boot_inv M s \<Longrightarrow> boot_inv M (clear_arguments M s)"
  by (auto simp: boot_inv_def clear_arguments_def fold_clear)

interpretation main_table: setup_functions "main_setup E M" "boot_inv M" for E M
proof unfold_locales
  fix p f s str
  assume p: "p \<in> set (main_setup E M)" "kp_setup_func p = Some f" and inv: "boot_inv M s"
  have "boot_inv M (s\<lparr>execute_command := str\<rparr>)" "boot_inv M (s\<lparr>ramdisk_execute_command := str\<rparr>)"
    using inv by (simp_all add: boot_inv_def)
  with p inv show "boot_inv M (snd (f str s))"
    by (auto simp: main_setup_def set_reset_devices_def debug_kernel_def quiet_kernel_def loglevel_def
        init_setup_def rdinit_setup_def initcall_blacklist_def set_debug_rodata_def clear_keeps
        early_randomize_kstack_offset_def warn_bootconfig_def
        split: option.split sum.split) (auto simp: boot_inv_def)
qed

definition first_free :: "string option list \<Rightarrow> nat" where
  "first_free xs = length (takeWhile (\<lambda>x. x \<noteq> None) xs)"

lemma arg_slot_eq: "arg_slot M xs i full = (i + first_free xs, full \<or> (i \<le> M \<and> M < i + first_free xs))"
  by (induction M xs i full rule: arg_slot.induct) (auto simp: first_free_def)

lemma env_slot_bounds:
  "env_slot M param n xs i full = (j, f) \<Longrightarrow>
     i \<le> j \<and> j \<le> i + first_free xs \<and> (full \<longrightarrow> f) \<and> (i \<le> M \<and> M < j \<longrightarrow> f)"
proof (induction M param n xs i full rule: env_slot.induct)
  case (3 M param n e ps i full)
  then show ?case by (auto simp: first_free_def split: if_splits)
qed (auto simp: first_free_def)

lemma first_free_le: "k < length xs \<Longrightarrow> xs ! k = None \<Longrightarrow> first_free xs \<le> k"
proof -
  assume "k < length xs" "xs ! k = None"
  then have "\<not> k < length (takeWhile (\<lambda>x. x \<noteq> None) xs)"
    using nth_mem [of k "takeWhile (\<lambda>x. x \<noteq> None) xs"] by (auto simp: takeWhile_nth dest: set_takeWhileD)
  then show ?thesis by (simp add: first_free_def)
qed

text \<open>An option as the tokeniser can leave it.\<close>

definition arg_ok :: "boot_arg \<Rightarrow> bool" where
  "arg_ok a \<longleftrightarrow> ba_val a \<in> {None, Some (length (c_string (ba_buf a)) + 1), Some (length (c_string (ba_buf a)) + 2)}"

lemma repair_ok: "arg_ok a \<Longrightarrow> repair_env_string a \<noteq> Oops"
  by (auto simp: arg_ok_def repair_env_string_def Let_def)

lemma store_keeps:
  assumes "boot_inv M s" and "bs_panic_later s = None" and "j \<le> M + 1" and "\<not> full \<longrightarrow> j \<le> M"
  shows "\<exists>argv. store_at j param (argv_init s) = Done argv
      \<and> boot_inv M ((if full then s\<lparr>bs_panic_later := Some p\<rparr> else s)\<lparr>argv_init := argv\<rparr>)"
    and "\<exists>envp. store_at j param (envp_init s) = Done envp
      \<and> boot_inv M ((if full then s\<lparr>bs_panic_later := Some p\<rparr> else s)\<lparr>envp_init := envp\<rparr>)"
  using assms by (auto simp: store_at_def boot_inv_def)

lemma unknown_keeps:
  assumes "setup_functions (be_setup E) (boot_inv M)" and "arg_ok a" and inv: "boot_inv M s"
  shows "\<exists>t. unknown_bootoption E M a s = Done t \<and> boot_inv M t"
proof -
  obtain buf where buf: "repair_env_string a = Done buf"
    using repair_ok [OF assms(2)] by (cases "repair_env_string a") auto
  obtain handled t where t: "obsolete_checksetup E (c_string buf) (be_setup E) False s = (handled, t)"
    by fastforce
  have inv': "boot_inv M t"
    using setup_functions.checksetup_keeps [OF assms(1) inv, of E "c_string buf" False] t by simp
  show ?thesis
  proof (cases "bs_panic_later t = None")
    case False
    then show ?thesis using inv inv' buf t by (auto simp: unknown_bootoption_def Let_def)
  next
    case True
    have free: "first_free (argv_init t) \<le> M + 1" "first_free (envp_init t) \<le> M + 1"
      using inv' True by (auto simp: boot_inv_def intro: first_free_le)
    obtain i f where slot: "env_slot M (c_string buf) (length (c_string (ba_buf a)) + 1) (envp_init t) 0 False = (i, f)"
      by fastforce
    from env_slot_bounds [OF this] free(2) have env: "i \<le> M + 1" "\<not> f \<longrightarrow> i \<le> M" by auto
    have arg: "\<not> (M < first_free (argv_init t)) \<longrightarrow> first_free (argv_init t) \<le> M" by auto
    show ?thesis
      using store_keeps(1) [OF inv' True free(1) arg, of "c_string buf" "(''init'', c_string buf)"]
        store_keeps(2) [OF inv' True env, of "c_string buf" "(''env'', c_string buf)"] inv inv' buf t slot True
      by (auto simp: unknown_bootoption_def Let_def arg_slot_eq split: if_splits)
  qed
qed

lemma init_arg_keeps:
  assumes "arg_ok a" and inv: "boot_inv M s"
  shows "\<exists>t. set_init_arg M a s = Done t \<and> boot_inv M t"
proof -
  obtain buf where buf: "repair_env_string a = Done buf"
    using repair_ok [OF assms(1)] by (cases "repair_env_string a") auto
  show ?thesis
  proof (cases "bs_panic_later s = None \<and> first_free (argv_init s) \<le> M")
    case True
    then show ?thesis
      using store_keeps(1) [OF inv, of "first_free (argv_init s)" False "c_string buf"] buf
      by (auto simp: set_init_arg_def arg_slot_eq)
  next
    case False
    then show ?thesis using inv buf by (auto simp: set_init_arg_def arg_slot_eq boot_inv_def)
  qed
qed

lemma pass_keeps:
  assumes "\<And>a s. arg_ok a \<Longrightarrow> boot_inv M s \<Longrightarrow> \<exists>t. f a s = Done t \<and> boot_inv M t"
  shows "list_all arg_ok as \<Longrightarrow> boot_inv M s \<Longrightarrow> \<exists>t. pass f as s = Done t \<and> boot_inv M t"
proof (induction "as" arbitrary: s)
  case (Cons a "as")
  obtain t where "f a s = Done t" "boot_inv M t" using assms [of a s] Cons.prems by auto
  then show ?case using Cons.IH [of t] Cons.prems by simp
qed simp

lemma initial_inv: "0 < M \<Longrightarrow> boot_inv M (initial_arrays M s)"
  by (cases M) (simp_all add: boot_inv_def initial_arrays_def flip: replicate_Suc)

text \<open>Whatever is on the command line, collecting the options for the first process stores
  inside \<open>argv_init\<close> and \<open>envp_init\<close>; and unless the kernel is about to panic because there
  were too many, both arrays still end in a null pointer. (An option the tokeniser produced
  has its value one or two characters after its name.)\<close>
theorem boot_arrays_terminated:
  assumes "0 < M" and "setup_functions (be_setup E) (boot_inv M)"
    and "list_all arg_ok options" and "list_all arg_ok after_dashes"
  shows "\<exists>t. parse_boot_options E M options after_dashes (initial_arrays M s) = Done t
    \<and> length (argv_init t) = M + 2 \<and> length (envp_init t) = M + 2
    \<and> (boot_panics t \<or> argv_init t ! (M + 1) = None \<and> envp_init t ! (M + 1) = None)"
proof -
  obtain t where t: "pass (unknown_bootoption E M) options (initial_arrays M s) = Done t" "boot_inv M t"
    using pass_keeps [of M "unknown_bootoption E M" options "initial_arrays M s",
        OF unknown_keeps [OF assms(2)] assms(3) initial_inv [OF assms(1)]] by blast
  obtain u where "pass (set_init_arg M) after_dashes t = Done u" "boot_inv M u"
    using pass_keeps [of M "set_init_arg M" after_dashes t, OF init_arg_keeps assms(4) t(2)] by blast
  with t show ?thesis by (auto simp: parse_boot_options_def boot_inv_def boot_panics_def)
qed


subsection \<open>Plain words\<close>

text \<open>A word without a value that no alias, no setup function and no module takes.\<close>

definition word_arg :: "string \<Rightarrow> boot_arg" where
  "word_arg w = \<lparr>ba_buf = w @ [NUL], ba_val = None\<rparr>"

definition plain_word :: "boot_env \<Rightarrow> string \<Rightarrow> bool" where
  "plain_word E w \<longleftrightarrow> NUL \<notin> set w \<and> CHR ''.'' \<notin> set w \<and> \<not> be_sysctl_alias E w
     \<and> list_all (\<lambda>p. \<not> be_parameqn E w (kp_str p) (length (kp_str p))) (be_setup E)"

lemma c_string_word: "NUL \<notin> set w \<Longrightarrow> c_string (w @ [NUL]) = w"
  by (induction w) (auto simp: c_string_def)

lemma first_free_map: "first_free (map Some xs @ None # rest) = length xs"
  by (induction xs) (simp_all add: first_free_def)

lemma checksetup_unmatched:
  "list_all (\<lambda>p. \<not> be_parameqn E w (kp_str p) (length (kp_str p))) ps
   \<Longrightarrow> obsolete_checksetup E w ps had s = (had, s)"
  by (induction ps) simp_all

lemma unknown_word:
  assumes "plain_word E w" and "bs_panic_later s = None" and "argv_init s = map Some xs @ None # rest"
  shows "unknown_bootoption E M (word_arg w) s =
    Done ((if M < length xs then s\<lparr>bs_panic_later := Some (''init'', w)\<rparr> else s)
      \<lparr>argv_init := map Some (xs @ [w]) @ rest\<rparr>)"
proof -
  have "first_free (argv_init s) = length xs"
    by (simp only: assms(3) first_free_map)
  moreover have "(map Some xs @ None # rest)[length xs := Some w] = map Some (xs @ [w]) @ rest"
    by (simp add: list_update_append)
  ultimately show ?thesis
    using assms by (auto simp: unknown_bootoption_def word_arg_def plain_word_def c_string_word repair_env_string_def
        checksetup_unmatched arg_slot_eq store_at_def Let_def split: if_splits)
qed

lemma pass_words:
  assumes "list_all (plain_word E) ws" and "bs_panic_later s = None"
    and "argv_init s = map Some xs @ replicate (length ws) None @ rest" and "length xs + length ws \<le> M + 1"
  shows "pass (unknown_bootoption E M) (map word_arg ws) s = Done (s\<lparr>argv_init := map Some (xs @ ws) @ rest\<rparr>)"
  using assms
proof (induction ws arbitrary: s xs)
  case (Cons w ws)
  let ?t = "s\<lparr>argv_init := map Some (xs @ [w]) @ replicate (length ws) None @ rest\<rparr>"
  have "unknown_bootoption E M (word_arg w) s = Done ?t"
    using unknown_word [of E w s xs "replicate (length ws) None @ rest" M] Cons.prems by simp
  moreover have "pass (unknown_bootoption E M) (map word_arg ws) ?t
      = Done (?t\<lparr>argv_init := map Some ((xs @ [w]) @ ws) @ rest\<rparr>)"
    using Cons.prems by (intro Cons.IH) simp_all
  ultimately show ?case by simp
qed simp

lemma initial_words:
  assumes "list_all (plain_word E) ws" and "length ws \<le> M"
  shows "pass (unknown_bootoption E M) (map word_arg ws) (initial_arrays M s)
      = Done ((initial_arrays M s)\<lparr>argv_init :=
          Some ''init'' # map Some ws @ replicate (M + 1 - length ws) None\<rparr>)"
proof -
  have "replicate (M + 1) None = replicate (length ws) None @ replicate (M + 1 - length ws) (None :: string option)"
    using assms(2) by (simp flip: replicate_add)
  then have "pass (unknown_bootoption E M) (map word_arg ws) (initial_arrays M s)
      = Done ((initial_arrays M s)\<lparr>argv_init := map Some ([''init''] @ ws) @ replicate (M + 1 - length ws) None\<rparr>)"
    using assms by (intro pass_words) (simp_all add: initial_arrays_def)
  then show ?thesis by simp
qed

text \<open>Up to the limit of the configuration, the plain words of the command line become the
  arguments of the first process, all of them, in order and unchanged, and the kernel does
  not panic; one word more than the limit makes it panic with that word.\<close>
theorem plain_words_reach_init:
  assumes "list_all (plain_word E) ws" and "length ws \<le> M" and "plain_word E w"
  shows "pass (unknown_bootoption E M) (map word_arg ws) (initial_arrays M s)
      = Done ((initial_arrays M s)\<lparr>argv_init :=
          Some ''init'' # map Some ws @ replicate (M + 1 - length ws) None\<rparr>)
    \<and> \<not> boot_panics ((initial_arrays M s)\<lparr>argv_init := a\<rparr>)
    \<and> (length ws = M \<longrightarrow> (\<exists>t. pass (unknown_bootoption E M) (map word_arg (ws @ [w])) (initial_arrays M s) = Done t
          \<and> bs_panic_later t = Some (''init'', w)))"
proof -
  note run = initial_words [OF assms(1,2), of s]
  have more: "pass f (as @ [a]) s = (case pass f as s of Oops \<Rightarrow> Oops | Done t \<Rightarrow> f a t)"
    for f as a and s :: boot_state
    by (induction "as" arbitrary: s) (auto split: outcome.split)
  let ?t = "(initial_arrays M s)\<lparr>argv_init := map Some (''init'' # ws) @ [None]\<rparr>"
  have "unknown_bootoption E M (word_arg w) ?t
      = Done ((?t\<lparr>bs_panic_later := Some (''init'', w)\<rparr>)\<lparr>argv_init := map Some ((''init'' # ws) @ [w]) @ []\<rparr>)"
    if "length ws = M"
    using unknown_word [of E w ?t "''init'' # ws" "[]" M] assms(3) that by (simp add: initial_arrays_def)
  then show ?thesis using run by (auto simp: more boot_panics_def initial_arrays_def)
qed

lemma fold_clear_in:
  "k \<in> set is \<Longrightarrow> k < length a \<Longrightarrow> fold (\<lambda>i a. a[i := None]) is a ! k = None"
proof (induction "is" arbitrary: a)
  case (Cons i "is")
  then show ?case by (cases "k = i") (auto simp: fold_clear(2))
qed simp

lemma clear_full_array:
  assumes "ws \<noteq> []"
  shows "fold (\<lambda>i a. a[i := None]) [1..<length ws] (Some f # map Some ws @ [None])
      = Some f # replicate (length ws - 1) None @ [Some (last ws), None]" (is "?l = ?r")
proof (rule nth_equalityI)
  let ?a = "Some f # map Some ws @ [None]"
  show "length ?l = length ?r" using assms by (cases ws) (simp_all add: fold_clear)
  fix k
  assume "k < length ?l"
  then have k: "k < length ws + 2" by (simp add: fold_clear)
  show "?l ! k = ?r ! k"
  proof (cases "k \<in> set [1..<length ws]")
    case True
    then show ?thesis using fold_clear_in [OF True, of ?a] by (auto simp: nth_Cons nth_append split: nat.split)
  next
    case False
    with k have "k = 0 \<or> k = length ws \<or> k = length ws + 1" by auto
    moreover have "map Some ws ! (length ws - 1) = Some (last ws)"
      using assms by (simp add: last_conv_nth)
    moreover obtain n where "length ws = Suc n" using assms by (cases ws) auto
    ultimately show ?thesis
      using False fold_clear(3) [of k "[1..<length ws]" ?a]
      by (auto simp: nth_Cons nth_append split: nat.split)
  qed
qed

text \<open>\<open>init=\<close> does not drop every argument before it: the loop that clears \<open>argv_init\<close> stops
  one entry early. After a full line of arguments, \<open>init=\<close> and new arguments up to the free
  places, the last of the old arguments still follows the new ones.\<close>
theorem init_option_keeps_last_argument:
  assumes "list_all (plain_word E) ws" and "length ws = M" and "0 < M"
    and "list_all (plain_word E) vs" and "length vs + 1 = M"
  shows "\<exists>t. pass (unknown_bootoption E M) (map word_arg ws) (initial_arrays M s) = Done t
    \<and> pass (unknown_bootoption E M) (map word_arg vs) (snd (init_setup M (Some ''/bin/x'') t))
        = Done (t\<lparr>execute_command := Some ''/bin/x'',
            argv_init := Some ''init'' # map Some vs @ [Some (last ws), None]\<rparr>)"
proof -
  let ?t = "(initial_arrays M s)\<lparr>argv_init := Some ''init'' # map Some ws @ [None]\<rparr>"
  have 1: "pass (unknown_bootoption E M) (map word_arg ws) (initial_arrays M s) = Done ?t"
    using pass_words [of E ws "initial_arrays M s" "[''init'']" "[None]" M] assms(1,2)
    by (simp add: initial_arrays_def replicate_append_same)
  let ?u = "snd (init_setup M (Some ''/bin/x'') ?t)"
  have "ws \<noteq> []" "length vs = length ws - 1" using assms(2,3,5) by auto
  then have "argv_init ?u = map Some [''init''] @ replicate (length vs) None @ [Some (last ws), None]"
    using clear_full_array [of ws "''init''"] assms(2) by (simp add: init_setup_def clear_arguments_def)
  moreover have "bs_panic_later ?u = None"
    by (simp add: init_setup_def clear_arguments_def initial_arrays_def)
  ultimately have "pass (unknown_bootoption E M) (map word_arg vs) ?u
      = Done (?u\<lparr>argv_init := map Some ([''init''] @ vs) @ [Some (last ws), None]\<rparr>)"
    using assms(4,5) by (intro pass_words) simp_all
  with 1 show ?thesis by (auto simp: init_setup_def clear_arguments_def)
qed

subsection \<open>Repairing the text of an option\<close>

text \<open>\<open>repair_env_string\<close> undoes the tokeniser: an option with a value, with or without quotes
  around it, becomes the text of the variable \<open>name=value\<close> again.\<close>
theorem repair_restores_option:
  assumes "NUL \<notin> set nm" and "NUL \<notin> set v"
  shows "(\<exists>b. repair_env_string \<lparr>ba_buf = nm @ [NUL] @ v @ [NUL] @ rest, ba_val = Some (length nm + 1)\<rparr> = Done b
      \<and> c_string b = nm @ ''='' @ v)
    \<and> (\<exists>b. repair_env_string \<lparr>ba_buf = nm @ [NUL] @ [CHR 0x22] @ v @ [NUL] @ rest, ba_val = Some (length nm + 2)\<rparr> = Done b
      \<and> c_string b = nm @ ''='' @ v)"
proof -
  have cs: "c_string (t @ NUL # r) = t" if "NUL \<notin> set t" for t r
    using that by (induction t) (auto simp: c_string_def)
  have "(nm @ NUL # v @ NUL # rest)[length nm := CHR ''=''] = (nm @ ''='' @ v) @ NUL # rest"
    by (simp add: list_update_append)
  moreover have "c_string ((nm @ ''='' @ v) @ NUL # r) = nm @ ''='' @ v" for r
    using assms by (intro cs) auto
  ultimately show ?thesis
    using cs [OF assms(1)] cs [OF assms(2)] by (simp add: repair_env_string_def Let_def)
qed

subsection \<open>Examples\<close>

definition sample_boot_env :: boot_env where
  "sample_boot_env = \<lparr>be_setup = main_setup
       \<lparr>be_setup = [], be_parameqn = (\<lambda>a b n. False), be_parameq = (=), be_sysctl_alias = (\<lambda>a. False),
        be_get_option = (\<lambda>s. None), be_kstrtobool = (\<lambda>s. Inl (- EINVAL))\<rparr> 2,
     be_parameqn = (\<lambda>a b n. take n a = take n b), be_parameq = (=), be_sysctl_alias = (\<lambda>a. False),
     be_get_option = (\<lambda>s. None), be_kstrtobool = (\<lambda>s. Inl (- EINVAL))\<rparr>"

definition blank_boot :: boot_state where
  "blank_boot = \<lparr>argv_init = [], envp_init = [], bs_panic_later = None, execute_command = None,
     ramdisk_execute_command = None, console_loglevel = 7, reset_devices = False,
     rodata_enabled = True, blacklisted_initcalls = [], randomize_kstack_offset = False\<rparr>"

lemma sample_table: "setup_functions (be_setup sample_boot_env) (boot_inv 2)"
  using main_table.setup_functions_axioms by (simp add: sample_boot_env_def)

lemma sample_plain: "plain_word sample_boot_env ''single''" "plain_word sample_boot_env ''splash''"
  "plain_word sample_boot_env ''auto''"
  by (simp_all add: plain_word_def sample_boot_env_def main_setup_def)

theorem boot_arrays_terminated_witness:
  "\<exists>t. parse_boot_options sample_boot_env 2 [word_arg ''single'',
        \<lparr>ba_buf = ''TERM'' @ [NUL] @ ''vt'' @ [NUL], ba_val = Some 5\<rparr>] [word_arg ''-b''] (initial_arrays 2 blank_boot) = Done t
    \<and> length (argv_init t) = 4 \<and> length (envp_init t) = 4
    \<and> (boot_panics t \<or> argv_init t ! 3 = None \<and> envp_init t ! 3 = None)"
proof -
  have "list_all arg_ok [word_arg ''single'', \<lparr>ba_buf = ''TERM'' @ [NUL] @ ''vt'' @ [NUL], ba_val = Some 5\<rparr>]"
    "list_all arg_ok [word_arg ''-b'']"
    by (simp_all add: arg_ok_def word_arg_def c_string_def)
  from boot_arrays_terminated [OF _ sample_table this, of blank_boot] show ?thesis by simp
qed

theorem plain_words_reach_init_witness:
  "pass (unknown_bootoption sample_boot_env 2) (map word_arg [''auto'', ''single'']) (initial_arrays 2 blank_boot)
     = Done ((initial_arrays 2 blank_boot)\<lparr>argv_init := [Some ''init'', Some ''auto'', Some ''single'', None]\<rparr>)"
proof -
  have "list_all (plain_word sample_boot_env) [''auto'', ''single'']" "length [''auto'', ''single''] \<le> 2"
    using sample_plain by simp_all
  from plain_words_reach_init [OF this sample_plain(2), of blank_boot] show ?thesis by simp
qed

theorem init_option_keeps_last_argument_witness:
  "\<exists>t. pass (unknown_bootoption sample_boot_env 2) (map word_arg [''auto'', ''single'']) (initial_arrays 2 blank_boot) = Done t
    \<and> pass (unknown_bootoption sample_boot_env 2) (map word_arg [''splash'']) (snd (init_setup 2 (Some ''/bin/x'') t))
        = Done (t\<lparr>execute_command := Some ''/bin/x'',
            argv_init := [Some ''init'', Some ''splash'', Some ''single'', None]\<rparr>)"
proof -
  have "list_all (plain_word sample_boot_env) [''auto'', ''single'']" "length [''auto'', ''single''] = 2"
    "list_all (plain_word sample_boot_env) [''splash'']" "length [''splash''] + 1 = 2"
    using sample_plain by simp_all
  from init_option_keeps_last_argument [OF this(1,2) _ this(3,4), of blank_boot] show ?thesis by simp
qed

theorem repair_restores_option_witness:
  "\<exists>b. repair_env_string \<lparr>ba_buf = ''TERM'' @ [NUL] @ [CHR 0x22] @ ''a b'' @ [NUL] @ [], ba_val = Some (length ''TERM'' + 2)\<rparr> = Done b
    \<and> c_string b = ''TERM=a b''"
  using repair_restores_option [of "''TERM''" "''a b''" "[]"] by simp

end
