(* ===== verification/Boot_Init.thy ===== *)
theory Boot_Init
  imports Boot_Args
begin

text \<open>
  The later part of the boot in \<open>Practica1/linux-6.6.44/init/main.c\<close>: the copies of the
  command line (\<open>setup_command_line\<close>), the initcalls and their blacklist, and the start of
  the first user process by \<open>kernel_init\<close>. The allocator, the initcalls themselves, symbol
  names and \<open>kernel_execve\<close> are parameters.
\<close>

subsection \<open>The copies of the command line\<close>

text \<open>\<open>strcpy\<close> to an offset of a buffer; \<open>Oops\<close> when the text and its null do not fit.\<close>

definition strcpy_at :: "cbuf \<Rightarrow> nat \<Rightarrow> string \<Rightarrow> cbuf outcome" where
  "strcpy_at buf off s =
     (if off + length s + 1 \<le> length buf
      then Done (take off buf @ map Some s @ [Some NUL] @ drop (off + length s + 1) buf) else Oops)"

fun and_then :: "'a outcome \<Rightarrow> ('a \<Rightarrow> 'b outcome) \<Rightarrow> 'b outcome" where
  "and_then Oops f = Oops"
| "and_then (Done x) f = f x"

definition strlen_at :: "cbuf \<Rightarrow> nat outcome" where
  "strlen_at buf = (case cstr buf of None \<Rightarrow> Oops | Some s \<Rightarrow> Done (length s))"

text \<open>\<open>memblock_alloc\<close> clears the memory it returns.\<close>

definition cleared_block :: "nat \<Rightarrow> cbuf" where
  "cleared_block n = replicate n (Some NUL)"

record line_env =
  ln_alloc :: "nat \<Rightarrow> bool"
  ln_extra_command_line :: "string option"
  ln_extra_init_args :: "string option"
  ln_initargs_offs :: nat
  ln_boot_command_line :: string

definition text_of :: "string option \<Rightarrow> string" where
  "text_of s = (case s of None \<Rightarrow> [] | Some t \<Rightarrow> t)"

text \<open>
  The part that appends the extra arguments of the first process; the last copy reads
  \<open>boot_command_line\<close> from one character before the offset.
\<close>

definition append_init_args :: "line_env \<Rightarrow> cbuf \<Rightarrow> cbuf outcome" where
  "append_init_args L saved =
     (let extra = text_of (ln_extra_init_args L); xlen = length (text_of (ln_extra_command_line L)) in
      if ln_extra_init_args L = None then Done saved
      else if ln_initargs_offs L \<noteq> 0 then
        (if length (ln_boot_command_line L) < ln_initargs_offs L - 1 then Oops
         else and_then (strcpy_at saved (xlen + ln_initargs_offs L) extra)
           (\<lambda>saved. strcpy_at saved (xlen + ln_initargs_offs L + length extra)
              (drop (ln_initargs_offs L - 1) (ln_boot_command_line L))))
      else and_then (strlen_at saved)
        (\<lambda>len. and_then (strcpy_at saved len '' -- '') (\<lambda>saved. strcpy_at saved (len + 4) extra)))"

text \<open>\<open>Inl\<close> is the panic; otherwise the two copies and \<open>saved_command_line_len\<close>.\<close>

definition setup_command_line :: "line_env \<Rightarrow> string \<Rightarrow> (string + cbuf \<times> cbuf \<times> nat) outcome" where
  "setup_command_line L command_line =
     (let extra = text_of (ln_extra_command_line L); boot = ln_boot_command_line L;
          xlen = length extra;
          ilen = (case ln_extra_init_args L of None \<Rightarrow> 0 | Some a \<Rightarrow> length a + 4);
          len1 = xlen + length boot + 1; len2 = xlen + length command_line + 1
      in if \<not> ln_alloc L (len1 + ilen) then Done (Inl ''Failed to allocate'')
         else if \<not> ln_alloc L len2 then Done (Inl ''Failed to allocate'')
         else
           and_then (if xlen \<noteq> 0 then strcpy_at (cleared_block (len1 + ilen)) 0 extra
                     else Done (cleared_block (len1 + ilen))) (\<lambda>saved.
           and_then (if xlen \<noteq> 0 then strcpy_at (cleared_block len2) 0 extra
                     else Done (cleared_block len2)) (\<lambda>static.
           and_then (strcpy_at saved xlen boot) (\<lambda>saved.
           and_then (strcpy_at static xlen command_line) (\<lambda>static.
           and_then (append_init_args L saved) (\<lambda>saved.
           and_then (strlen_at saved) (\<lambda>n. Done (Inr (saved, static, n)))))))))"

subsection \<open>Initcalls\<close>

text \<open>
  The processor state an initcall can leave wrong, the calls made with the messages about
  them (\<open>Tracing\<close> before a call and \<open>Traced\<close> with its result and microseconds after it when
  \<open>initcall_debug\<close> is set, \<open>Warned\<close> when it left that state wrong), and the passes over
  the command line.
\<close>

record cpu_state =
  preempt_count :: int
  irqs_disabled :: bool

datatype ic_event = Parsed string | Tracing nat | Called nat | Traced nat int int | Warned nat string

record ic_state =
  ic_cpu :: cpu_state
  ic_log :: "ic_event list"

record ic_env =
  ie_name :: "nat \<Rightarrow> string"
  ie_call :: "nat \<Rightarrow> cpu_state \<Rightarrow> int \<times> cpu_state"
  ie_debug :: bool
  ie_took :: "nat \<Rightarrow> int"
  ie_alloc :: bool
  ie_early :: "nat list"
  ie_levels :: "nat list list"

text \<open>The symbol of an initcall, up to the space before a module name.\<close>

definition initcall_name :: "ic_env \<Rightarrow> nat \<Rightarrow> string" where
  "initcall_name E fn = takeWhile (\<lambda>c. c \<noteq> CHR '' '') (ie_name E fn)"

definition initcall_blacklisted :: "ic_env \<Rightarrow> string list \<Rightarrow> nat \<Rightarrow> bool" where
  "initcall_blacklisted E blacklist fn =
     (if blacklist = [] then False else list_ex (\<lambda>entry. initcall_name E fn = entry) blacklist)"

definition do_trace_initcall_start :: "ic_env \<Rightarrow> nat \<Rightarrow> ic_event list" where
  "do_trace_initcall_start E fn = (if \<not> ie_debug E then [] else [Tracing fn])"

definition do_trace_initcall_finish :: "ic_env \<Rightarrow> nat \<Rightarrow> int \<Rightarrow> ic_event list" where
  "do_trace_initcall_finish E fn ret = (if \<not> ie_debug E then [] else [Traced fn ret (ie_took E fn div 1000)])"

definition do_one_initcall :: "ic_env \<Rightarrow> string list \<Rightarrow> nat \<Rightarrow> ic_state \<Rightarrow> int \<times> ic_state" where
  "do_one_initcall E blacklist fn s =
     (if initcall_blacklisted E blacklist fn then (- EPERM, s)
      else
        (let count = preempt_count (ic_cpu s);
             (ret, cpu) = ie_call E fn (ic_cpu s);
             (msg, cpu) = (if preempt_count cpu \<noteq> count
                           then (''preemption imbalance '', cpu\<lparr>preempt_count := count\<rparr>) else ([], cpu));
             (msg, cpu) = (if irqs_disabled cpu
                           then (msg @ ''disabled interrupts '', cpu\<lparr>irqs_disabled := False\<rparr>) else (msg, cpu))
         in (ret, \<lparr>ic_cpu = cpu, ic_log = ic_log s @ do_trace_initcall_start E fn @ [Called fn]
                    @ do_trace_initcall_finish E fn ret @ (if msg \<noteq> [] then [Warned fn msg] else [])\<rparr>)))"

fun run_initcalls :: "ic_env \<Rightarrow> string list \<Rightarrow> nat list \<Rightarrow> ic_state \<Rightarrow> ic_state" where
  "run_initcalls E blacklist [] s = s"
| "run_initcalls E blacklist (fn # fns) s = run_initcalls E blacklist fns (snd (do_one_initcall E blacklist fn s))"

definition initcall_level_names :: "string list" where
  "initcall_level_names = [''pure'', ''core'', ''postcore'', ''arch'', ''subsys'', ''fs'', ''device'', ''late'']"

definition do_initcall_level :: "ic_env \<Rightarrow> string list \<Rightarrow> nat \<Rightarrow> ic_state \<Rightarrow> ic_state" where
  "do_initcall_level E blacklist level s =
     run_initcalls E blacklist (ie_levels E ! level)
       (s\<lparr>ic_log := ic_log s @ [Parsed (initcall_level_names ! level)]\<rparr>)"

text \<open>\<open>None\<close> is the panic when the copy of the command line cannot be allocated.\<close>

definition do_initcalls :: "ic_env \<Rightarrow> string list \<Rightarrow> ic_state \<Rightarrow> ic_state option" where
  "do_initcalls E blacklist s =
     (if \<not> ie_alloc E then None
      else Some (fold (do_initcall_level E blacklist) [0..<length (ie_levels E)] s))"

definition do_pre_smp_initcalls :: "ic_env \<Rightarrow> string list \<Rightarrow> ic_state \<Rightarrow> ic_state" where
  "do_pre_smp_initcalls E blacklist s = run_initcalls E blacklist (ie_early E) s"

subsection \<open>The first process\<close>

record init_env =
  in_execve :: "string \<Rightarrow> string option list \<Rightarrow> string option list \<Rightarrow> int"
  in_default :: string
  in_eaccess :: "string option \<Rightarrow> int"

datatype init_end = Started string | Panicked string

definition run_init_process :: "init_env \<Rightarrow> string \<Rightarrow> boot_state \<Rightarrow> int \<times> boot_state" where
  "run_init_process E init_filename s =
     (let s = s\<lparr>argv_init := (argv_init s)[0 := Some init_filename]\<rparr>
      in (in_execve E init_filename (argv_init s) (envp_init s), s))"

text \<open>Trying several, \<open>||\<close> of the source: the last part of \<open>kernel_init\<close>.\<close>

fun try_inits :: "init_env \<Rightarrow> string list \<Rightarrow> boot_state \<Rightarrow> init_end \<times> boot_state" where
  "try_inits E [] s = (Panicked ''No working init found.'', s)"
| "try_inits E (f # fs) s =
     (let (ret, s') = run_init_process E f s in
      if ret = 0 then (Started f, s') else try_inits E fs s')"

definition last_resorts :: "string list" where
  "last_resorts = [''/sbin/init'', ''/etc/init'', ''/bin/init'', ''/bin/sh'']"

definition start_default :: "init_env \<Rightarrow> boot_state \<Rightarrow> init_end \<times> boot_state" where
  "start_default E s =
     (if in_default E \<noteq> [] then
        (let (ret, s') = run_init_process E (in_default E) s in
         if ret = 0 then (Started (in_default E), s') else try_inits E last_resorts s')
      else try_inits E last_resorts s)"

definition start_requested :: "init_env \<Rightarrow> boot_state \<Rightarrow> init_end \<times> boot_state" where
  "start_requested E s =
     (case execute_command s of
        None \<Rightarrow> start_default E s
      | Some f \<Rightarrow>
          (let (ret, s') = run_init_process E f s in
           if ret = 0 then (Started f, s') else (Panicked (''Requested init '' @ f @ '' failed''), s')))"

text \<open>
  The end of \<open>kernel_init_freeable\<close>: an early program that cannot be accessed is forgotten.
\<close>

definition kernel_init_freeable :: "init_env \<Rightarrow> boot_state \<Rightarrow> boot_state" where
  "kernel_init_freeable E s =
     (if in_eaccess E (ramdisk_execute_command s) \<noteq> 0 then s\<lparr>ramdisk_execute_command := None\<rparr> else s)"

definition start_first :: "init_env \<Rightarrow> boot_state \<Rightarrow> init_end \<times> boot_state" where
  "start_first E s =
     (case ramdisk_execute_command s of
        None \<Rightarrow> start_requested E s
      | Some f \<Rightarrow>
          (let (ret, s') = run_init_process E f s in
           if ret = 0 then (Started f, s') else start_requested E s'))"

definition kernel_init :: "init_env \<Rightarrow> boot_state \<Rightarrow> init_end \<times> boot_state" where
  "kernel_init E s = start_first E (kernel_init_freeable E s)"


subsection \<open>The copies are complete and fit\<close>

lemma strcpy_at_prefix:
  "length s + 1 \<le> length q \<Longrightarrow>
   strcpy_at (map Some p @ q) (length p) s = Done (map Some (p @ s) @ Some NUL # drop (length s + 1) q)"
  by (simp add: strcpy_at_def)

text \<open>A buffer of \<open>n\<close> characters that holds a text of at most \<open>n - 1\<close> at its start.\<close>

definition holds :: "cbuf \<Rightarrow> string \<Rightarrow> nat \<Rightarrow> bool" where
  "holds buf t n \<longleftrightarrow> length buf = n \<and> (\<exists>rest. buf = map Some t @ Some NUL # rest)"

lemma strcpy_holds:
  assumes "length buf = n" and "\<exists>q. buf = map Some p @ q" and "length p + length s + 1 \<le> n"
  shows "\<exists>buf'. strcpy_at buf (length p) s = Done buf' \<and> holds buf' (p @ s) n"
proof -
  obtain q where q: "buf = map Some p @ q" using assms(2) by blast
  then have "length s + 1 \<le> length q" using assms(1,3) by simp
  from strcpy_at_prefix [OF this, of p] show ?thesis using q assms(1,3) by (auto simp: holds_def)
qed

lemma holds_prefix: "holds buf (p @ r) n \<Longrightarrow> \<exists>q. buf = map Some p @ q"
  by (auto simp: holds_def)

lemma holds_cstr: "holds buf t n \<Longrightarrow> NUL \<notin> set t \<Longrightarrow> cstr buf = Some t"
  by (auto simp: holds_def cstr_text)

lemma append_holds:
  assumes "holds buf p n" and "length p + length s + 1 \<le> n"
  shows "\<exists>buf'. strcpy_at buf (length p) s = Done buf' \<and> holds buf' (p @ s) n"
  using assms strcpy_holds [of buf n p s] by (auto simp: holds_def)

lemma first_copies:
  assumes "length x + length t + 1 \<le> n"
  shows "\<exists>buf. and_then (if length x \<noteq> 0 then strcpy_at (cleared_block n) 0 x else Done (cleared_block n))
      (\<lambda>buf. strcpy_at buf (length x) t) = Done buf \<and> holds buf (x @ t) n"
proof (cases "x = []")
  case True
  then show ?thesis using strcpy_holds [of "cleared_block n" n "[]" t] assms by (simp add: cleared_block_def)
next
  case False
  obtain b where "strcpy_at (cleared_block n) 0 x = Done b" "holds b x n"
    using strcpy_holds [of "cleared_block n" n "[]" x] assms by (auto simp: cleared_block_def)
  then show ?thesis using append_holds [of b x n t] assms False by simp
qed

text \<open>What the saved line should be.\<close>

definition saved_text :: "line_env \<Rightarrow> string" where
  "saved_text L =
     (let extra = text_of (ln_extra_command_line L); boot = ln_boot_command_line L; offs = ln_initargs_offs L in
      case ln_extra_init_args L of
        None \<Rightarrow> extra @ boot
      | Some a \<Rightarrow> if offs = 0 then extra @ boot @ '' -- '' @ a
                  else extra @ take offs boot @ a @ drop (offs - 1) boot)"

lemma append_init_args_holds:
  assumes "holds saved (text_of (ln_extra_command_line L) @ ln_boot_command_line L) n"
    and "n = length (text_of (ln_extra_command_line L)) + length (ln_boot_command_line L) + 1
        + (case ln_extra_init_args L of None \<Rightarrow> 0 | Some a \<Rightarrow> length a + 4)"
    and "ln_initargs_offs L \<le> length (ln_boot_command_line L)"
    and "NUL \<notin> set (text_of (ln_extra_command_line L) @ ln_boot_command_line L)"
  shows "\<exists>buf. append_init_args L saved = Done buf \<and> holds buf (saved_text L) n"
proof (cases "ln_extra_init_args L")
  case None
  then show ?thesis using assms(1) by (simp add: append_init_args_def saved_text_def)
next
  case (Some a)
  let ?x = "text_of (ln_extra_command_line L)" and ?b = "ln_boot_command_line L" and ?o = "ln_initargs_offs L"
  show ?thesis
  proof (cases "?o = 0")
    case True
    have len: "strlen_at saved = Done (length (?x @ ?b))"
      using holds_cstr [OF assms(1,4)] by (simp add: strlen_at_def)
    obtain b1 where 1: "strcpy_at saved (length (?x @ ?b)) '' -- '' = Done b1" "holds b1 ((?x @ ?b) @ '' -- '') n"
      using append_holds [OF assms(1), of "'' -- ''"] assms(2) Some by auto
    have dashes: "length ((?x @ ?b) @ '' -- '') = length (?x @ ?b) + 4" by simp
    obtain b2 where 2: "strcpy_at b1 (length (?x @ ?b) + 4) a = Done b2" "holds b2 (((?x @ ?b) @ '' -- '') @ a) n"
      using append_holds [OF 1(2), of a] assms(2) Some unfolding dashes by auto
    have "append_init_args L saved = Done b2"
      using True Some len 1(1) 2(1) by (simp add: append_init_args_def text_of_def Let_def)
    then show ?thesis using 2(2) True Some by (simp add: saved_text_def Let_def)
  next
    case False
    have lx: "length (?x @ take ?o ?b) = length ?x + ?o" using assms(3) by simp
    have saved: "length saved = n" using assms(1) by (simp add: holds_def)
    have prefix: "\<exists>q. saved = map Some (?x @ take ?o ?b) @ q"
      by (rule holds_prefix [of saved "?x @ take ?o ?b" "drop ?o ?b" n]) (simp add: assms(1))
    have room: "length (?x @ take ?o ?b) + length a + 1 \<le> n" using assms(2,3) Some lx by simp
    obtain b1 where 1: "strcpy_at saved (length (?x @ take ?o ?b)) a = Done b1" "holds b1 ((?x @ take ?o ?b) @ a) n"
      using strcpy_holds [OF saved prefix room] by blast
    obtain b2 where "strcpy_at b1 (length ((?x @ take ?o ?b) @ a)) (drop (?o - 1) ?b) = Done b2"
      "holds b2 (((?x @ take ?o ?b) @ a) @ drop (?o - 1) ?b) n"
      using append_holds [OF 1(2), of "drop (?o - 1) ?b"] assms(2,3) Some False by auto
    then show ?thesis
      using False Some 1(1) assms(3) lx
      by (simp add: append_init_args_def saved_text_def text_of_def Let_def add.assoc)
  qed
qed

text \<open>\<open>setup_command_line\<close> never writes outside the two blocks it allocates, whatever the
  lengths of the lines and of the additions from the boot configuration; the saved line is
  the additions, the boot line and the extra arguments of the first process, set between
  the two dashes and the arguments given there, and its stored length is right.\<close>
theorem command_line_copies_fit:
  assumes "\<And>n. ln_alloc L n" and "ln_initargs_offs L \<le> length (ln_boot_command_line L)"
    and "NUL \<notin> set (saved_text L)" and "NUL \<notin> set (text_of (ln_extra_command_line L) @ ln_boot_command_line L)"
    and "NUL \<notin> set command_line"
  shows "\<exists>saved static. setup_command_line L command_line = Done (Inr (saved, static, length (saved_text L)))
    \<and> cstr saved = Some (saved_text L)
    \<and> cstr static = Some (text_of (ln_extra_command_line L) @ command_line)"
proof -
  let ?x = "text_of (ln_extra_command_line L)" and ?b = "ln_boot_command_line L"
  define n where "n = length ?x + length ?b + 1 + (case ln_extra_init_args L of None \<Rightarrow> 0 | Some a \<Rightarrow> length a + 4)"
  define m where "m = length ?x + length command_line + 1"
  have copies: "\<exists>b0 b. (if length ?x \<noteq> 0 then strcpy_at (cleared_block k) 0 ?x else Done (cleared_block k)) = Done b0
      \<and> strcpy_at b0 (length ?x) t = Done b \<and> holds b (?x @ t) k" if "length ?x + length t + 1 \<le> k" for k t
    using first_copies [OF that]
    by (cases "if length ?x \<noteq> 0 then strcpy_at (cleared_block k) 0 ?x else Done (cleared_block k)") auto
  obtain s0 s1 where s: "(if length ?x \<noteq> 0 then strcpy_at (cleared_block n) 0 ?x else Done (cleared_block n)) = Done s0"
    "strcpy_at s0 (length ?x) ?b = Done s1" "holds s1 (?x @ ?b) n"
    using copies [of ?b n] by (auto simp: n_def)
  obtain t0 t1 where t: "(if length ?x \<noteq> 0 then strcpy_at (cleared_block m) 0 ?x else Done (cleared_block m)) = Done t0"
    "strcpy_at t0 (length ?x) command_line = Done t1" "holds t1 (?x @ command_line) m"
    using copies [of command_line m] by (auto simp: m_def)
  obtain saved where saved: "append_init_args L s1 = Done saved" "holds saved (saved_text L) n"
    using append_init_args_holds [OF s(3) n_def assms(2,4)] by blast
  have "cstr saved = Some (saved_text L)" "cstr t1 = Some (?x @ command_line)"
    using holds_cstr [OF saved(2) assms(3)] holds_cstr [OF t(3)] assms(4,5) by simp_all
  then show ?thesis
    unfolding setup_command_line_def Let_def n_def [symmetric] m_def [symmetric]
    using assms(1) s(1,2) t(1,2) saved(1) by (simp add: strlen_at_def)
qed


subsection \<open>Initcalls and their blacklist\<close>

definition kept_cpu :: "cpu_state \<Rightarrow> cpu_state \<Rightarrow> bool" where
  "kept_cpu c d \<longleftrightarrow> preempt_count d = preempt_count c \<and> (irqs_disabled d \<longrightarrow> irqs_disabled c)"

definition called :: "ic_event list \<Rightarrow> nat list" where
  "called log = concat (map (\<lambda>e. case e of Called fn \<Rightarrow> [fn] | _ \<Rightarrow> []) log)"

definition permitted :: "ic_env \<Rightarrow> string list \<Rightarrow> nat list \<Rightarrow> nat list" where
  "permitted E blacklist fns = filter (\<lambda>fn. initcall_name E fn \<notin> set blacklist) fns"

lemma called_simps [simp]:
  "called [] = []" "called (a @ b) = called a @ called b" "called [Called fn] = [fn]"
  "called [Parsed s] = []" "called [Warned fn m] = []"
  "called (do_trace_initcall_start E fn) = []" "called (do_trace_initcall_finish E fn r) = []"
  by (simp_all add: called_def do_trace_initcall_start_def do_trace_initcall_finish_def)

lemma blacklisted_iff: "initcall_blacklisted E blacklist fn \<longleftrightarrow> initcall_name E fn \<in> set blacklist"
  by (auto simp: initcall_blacklisted_def list_ex_iff)

lemma one_initcall:
  "kept_cpu (ic_cpu s) (ic_cpu (snd (do_one_initcall E bl fn s)))
   \<and> called (ic_log (snd (do_one_initcall E bl fn s))) = called (ic_log s) @ permitted E bl [fn]"
  by (auto simp: do_one_initcall_def kept_cpu_def permitted_def blacklisted_iff Let_def split_beta called_def
      do_trace_initcall_start_def do_trace_initcall_finish_def)

lemma kept_trans: "kept_cpu a b \<Longrightarrow> kept_cpu b c \<Longrightarrow> kept_cpu a c"
  by (simp add: kept_cpu_def)

lemma run_initcalls_all:
  "kept_cpu (ic_cpu s) (ic_cpu (run_initcalls E bl fns s))
   \<and> called (ic_log (run_initcalls E bl fns s)) = called (ic_log s) @ permitted E bl fns"
proof (induction fns arbitrary: s)
  case Nil
  then show ?case by (simp add: kept_cpu_def permitted_def)
next
  case (Cons fn fns)
  then show ?case
    using one_initcall [of s E bl fn] kept_trans by (fastforce simp: permitted_def)
qed

lemma level_all:
  "kept_cpu (ic_cpu s) (ic_cpu (do_initcall_level E bl l s))
   \<and> called (ic_log (do_initcall_level E bl l s)) = called (ic_log s) @ permitted E bl (ie_levels E ! l)"
  using run_initcalls_all [of "s\<lparr>ic_log := ic_log s @ [Parsed (initcall_level_names ! l)]\<rparr>" E bl "ie_levels E ! l"]
  by (simp add: do_initcall_level_def)

lemma levels_all:
  "kept_cpu (ic_cpu s) (ic_cpu (fold (do_initcall_level E bl) ls s))
   \<and> called (ic_log (fold (do_initcall_level E bl) ls s))
      = called (ic_log s) @ permitted E bl (concat (map ((!) (ie_levels E)) ls))"
proof (induction ls arbitrary: s)
  case Nil
  then show ?case by (simp add: kept_cpu_def permitted_def)
next
  case (Cons l ls)
  then show ?case using level_all [of s E bl l] kept_trans by (fastforce simp: permitted_def)
qed

lemma split_commas_join:
  "CHR '','' \<notin> set x \<Longrightarrow> split_commas part (x @ CHR '','' # rest) = (rev part @ x) # split_commas [] rest"
  "CHR '','' \<notin> set x \<Longrightarrow> split_commas part x = [rev part @ x]"
  by (induction x arbitrary: part) auto

fun comma_list :: "string list \<Rightarrow> string" where
  "comma_list [] = []"
| "comma_list [x] = x"
| "comma_list (x # y # xs) = x @ '','' @ comma_list (y # xs)"

lemma split_comma_list:
  "xs \<noteq> [] \<Longrightarrow> list_all (\<lambda>x. CHR '','' \<notin> set x) xs \<Longrightarrow> split_commas [] (comma_list xs) = xs"
  by (induction xs rule: comma_list.induct) (simp_all add: split_commas_join)

text \<open>The initcalls that run are the early ones and then those of the eight levels, in the
  order of the levels and of the table within each, without exactly the ones whose name
  stands in the list given to \<open>initcall_blacklist=\<close>; and whatever an initcall does, the
  preemption count afterwards is what it was and interrupts are not left disabled.\<close>
theorem initcalls_run_in_order:
  assumes "names \<noteq> []" and "list_all (\<lambda>x. CHR '','' \<notin> set x) names"
    and "blacklisted_initcalls b = []" and "ie_alloc E"
  shows "\<exists>t. do_initcalls E (blacklisted_initcalls (snd (initcall_blacklist (Some (comma_list names)) b)))
        (do_pre_smp_initcalls E (blacklisted_initcalls (snd (initcall_blacklist (Some (comma_list names)) b))) s) = Some t
    \<and> called (ic_log t) = called (ic_log s)
        @ filter (\<lambda>fn. initcall_name E fn \<notin> set names) (ie_early E @ concat (ie_levels E))
    \<and> kept_cpu (ic_cpu s) (ic_cpu t)"
proof -
  let ?bl = "blacklisted_initcalls (snd (initcall_blacklist (Some (comma_list names)) b))"
  have bl: "set ?bl = set names"
    using assms(3) split_comma_list [OF assms(1,2)] by (simp add: initcall_blacklist_def)
  let ?s = "do_pre_smp_initcalls E ?bl s"
  have "concat (map ((!) (ie_levels E)) [0..<length (ie_levels E)]) = concat (ie_levels E)"
    by (simp add: map_nth)
  then show ?thesis
    using levels_all [of ?s E ?bl "[0..<length (ie_levels E)]"] run_initcalls_all [of s E ?bl "ie_early E"]
      assms(4) kept_trans
    by (fastforce simp: do_initcalls_def do_pre_smp_initcalls_def permitted_def bl)
qed

subsection \<open>Which process is started\<close>

definition starts :: "init_env \<Rightarrow> boot_state \<Rightarrow> string \<Rightarrow> bool" where
  "starts E s f \<longleftrightarrow> in_execve E f ((argv_init s)[0 := Some f]) (envp_init s) = 0"

text \<open>The programs tried, in order; the early one only when it can be accessed.\<close>

definition candidates :: "init_env \<Rightarrow> boot_state \<Rightarrow> string list" where
  "candidates E s =
     (case ramdisk_execute_command s of
        None \<Rightarrow> []
      | Some f \<Rightarrow> if in_eaccess E (Some f) = 0 then [f] else []) @
     (case execute_command s of
        Some f \<Rightarrow> [f]
      | None \<Rightarrow> (if in_default E = [] then [] else [in_default E]) @ last_resorts)"

lemma run_init_simps [simp]:
  "fst (run_init_process E f s) = 0 \<longleftrightarrow> starts E s f"
  "snd (run_init_process E f s) = s\<lparr>argv_init := (argv_init s)[0 := Some f]\<rparr>"
  by (simp_all add: run_init_process_def starts_def Let_def)

lemma starts_again [simp]: "starts E (s\<lparr>argv_init := (argv_init s)[0 := Some g]\<rparr>) f = starts E s f"
  by (simp add: starts_def)

text \<open>The outcome of trying the programs \<open>fs\<close> in order.\<close>

definition first_start :: "init_env \<Rightarrow> boot_state \<Rightarrow> string list \<Rightarrow> init_end \<times> boot_state \<Rightarrow> bool" where
  "first_start E s fs r \<longleftrightarrow> (case find (starts E s) fs of
       Some f \<Rightarrow> r = (Started f, s\<lparr>argv_init := (argv_init s)[0 := Some f]\<rparr>)
     | None \<Rightarrow> \<exists>msg. fst r = Panicked msg)"

lemma first_start_cons:
  "first_start E s (f # fs) r \<longleftrightarrow>
     (if starts E s f then r = (Started f, s\<lparr>argv_init := (argv_init s)[0 := Some f]\<rparr>) else first_start E s fs r)"
  by (simp add: first_start_def)

lemma first_start_again: "first_start E (s\<lparr>argv_init := (argv_init s)[0 := Some g]\<rparr>) fs r = first_start E s fs r"
proof -
  have "starts E (s\<lparr>argv_init := (argv_init s)[0 := Some g]\<rparr>) = starts E s" by (rule ext) simp
  then show ?thesis by (simp add: first_start_def split: option.split)
qed

lemma try_inits_first: "first_start E s fs (try_inits E fs s)"
proof (induction fs arbitrary: s)
  case (Cons f fs)
  then show ?case
    using Cons.IH [of "s\<lparr>argv_init := (argv_init s)[0 := Some f]\<rparr>"]
    by (simp add: first_start_cons first_start_again split_beta Let_def)
qed (simp add: first_start_def)

lemma start_requested_first:
  "first_start E s (case execute_command s of Some f \<Rightarrow> [f]
      | None \<Rightarrow> (if in_default E = [] then [] else [in_default E]) @ last_resorts) (start_requested E s)"
proof (cases "execute_command s")
  case None
  then show ?thesis
    using try_inits_first [of E s last_resorts] first_start_again [of E s "in_default E" last_resorts]
      try_inits_first [of E "s\<lparr>argv_init := (argv_init s)[0 := Some (in_default E)]\<rparr>" last_resorts]
    by (simp add: start_requested_def start_default_def first_start_cons split_beta Let_def)
next
  case (Some f)
  then show ?thesis by (simp add: start_requested_def first_start_def split_beta Let_def)
qed

lemma freeable_simps [simp]:
  "argv_init (kernel_init_freeable E s) = argv_init s" "envp_init (kernel_init_freeable E s) = envp_init s"
  "execute_command (kernel_init_freeable E s) = execute_command s"
  by (simp_all add: kernel_init_freeable_def)

lemma starts_freeable: "starts E (kernel_init_freeable E s) = starts E s"
  by (rule ext) (simp add: starts_def)

lemma kernel_init_first: "first_start E (kernel_init_freeable E s) (candidates E s) (kernel_init E s)"
proof (cases "ramdisk_execute_command (kernel_init_freeable E s)")
  case None
  then show ?thesis using start_requested_first [of E "kernel_init_freeable E s"]
    by (auto simp: kernel_init_def start_first_def candidates_def kernel_init_freeable_def split: option.splits if_splits)
next
  case (Some f)
  let ?s = "kernel_init_freeable E s"
  let ?t = "?s\<lparr>argv_init := (argv_init ?s)[0 := Some f]\<rparr>"
  have early: "ramdisk_execute_command s = Some f" "in_eaccess E (Some f) = 0"
    using Some by (auto simp: kernel_init_freeable_def split: if_splits)
  have "first_start E ?t (case execute_command s of Some f \<Rightarrow> [f]
    | None \<Rightarrow> (if in_default E = [] then [] else [in_default E]) @ last_resorts) (start_requested E ?t)"
    using start_requested_first [of E ?t] by simp
  then have "first_start E ?s (case execute_command s of Some f \<Rightarrow> [f]
    | None \<Rightarrow> (if in_default E = [] then [] else [in_default E]) @ last_resorts) (start_requested E ?t)"
    unfolding first_start_again .
  then show ?thesis using Some early
    by (simp add: kernel_init_def start_first_def candidates_def first_start_cons split_beta Let_def)
qed

text \<open>The first process is the first of the candidates that \<open>kernel_execve\<close> accepts (the
  early program if it can be accessed, then either the requested one or the default and the
  four last resorts), started with the collected arguments behind its own name; a requested
  program that fails is never replaced by another: the kernel panics, as it does when
  nothing can be started.\<close>
theorem first_process_chosen:
  "case find (starts E s) (candidates E s) of
     Some f \<Rightarrow> kernel_init E s
       = (Started f, (kernel_init_freeable E s)\<lparr>argv_init := (argv_init s)[0 := Some f]\<rparr>)
   | None \<Rightarrow> \<exists>msg. fst (kernel_init E s) = Panicked msg"
  using kernel_init_first [of E s] by (simp add: first_start_def starts_freeable split: option.splits)

text \<open>The options and the start together: plain words on the command line, up to the limit,
  do not make the kernel panic, and whichever candidate it starts was given exactly them, in
  order and unchanged, as the arguments behind its own name, and the two initial variables
  as its environment.\<close>
theorem words_reach_first_process:
  assumes "list_all (plain_word E) ws" and "length ws \<le> M"
  shows "\<exists>t. pass (unknown_bootoption E M) (map word_arg ws) (initial_arrays M s) = Done t
    \<and> \<not> boot_panics t
    \<and> (case find (starts I t) (candidates I t) of
         None \<Rightarrow> \<exists>msg. fst (kernel_init I t) = Panicked msg
       | Some f \<Rightarrow> fst (kernel_init I t) = Started f
           \<and> in_execve I f (Some f # map Some ws @ replicate (M + 1 - length ws) None)
                ([Some ''HOME=/'', Some ''TERM=linux''] @ replicate M None) = 0)"
proof -
  let ?t = "(initial_arrays M s)\<lparr>argv_init := Some ''init'' # map Some ws @ replicate (M + 1 - length ws) None\<rparr>"
  have run: "pass (unknown_bootoption E M) (map word_arg ws) (initial_arrays M s) = Done ?t"
    using assms by (intro initial_words)
  have start: "first_start I (kernel_init_freeable I ?t) (candidates I ?t) (kernel_init I ?t)"
    by (rule kernel_init_first)
  show ?thesis
  proof (cases "find (starts I ?t) (candidates I ?t)")
    case None
    then show ?thesis using run start by (simp add: first_start_def starts_freeable boot_panics_def initial_arrays_def)
  next
    case (Some f)
    then have "starts I ?t f" by (auto simp: find_Some_iff)
    then show ?thesis
      using Some run start
      by (simp add: first_start_def starts_freeable starts_def boot_panics_def initial_arrays_def)
  qed
qed

text \<open>Applications of the theorems.\<close>

definition sample_line_env :: line_env where
  "sample_line_env = \<lparr>ln_alloc = (\<lambda>n. True), ln_extra_command_line = Some ''quiet '',
     ln_extra_init_args = Some ''auto '', ln_initargs_offs = 6, ln_boot_command_line = ''ro -- s''\<rparr>"

lemma command_line_copies_fit_witness:
  "saved_text sample_line_env = ''quiet ro -- auto  s''
   \<and> (\<exists>saved static. setup_command_line sample_line_env ''ro'' = Done (Inr (saved, static, 19))
     \<and> cstr saved = Some ''quiet ro -- auto  s'' \<and> cstr static = Some ''quiet ro'')"
proof -
  have saved: "saved_text sample_line_env = ''quiet ro -- auto  s''"
    by (simp add: saved_text_def sample_line_env_def text_of_def Let_def eval_nat_numeral)
  have "\<exists>saved static. setup_command_line sample_line_env ''ro''
      = Done (Inr (saved, static, length (saved_text sample_line_env)))
    \<and> cstr saved = Some (saved_text sample_line_env)
    \<and> cstr static = Some (text_of (ln_extra_command_line sample_line_env) @ ''ro'')"
    by (rule command_line_copies_fit, simp_all add: saved)
      (simp_all add: sample_line_env_def text_of_def)
  then show ?thesis using saved by (simp add: sample_line_env_def text_of_def eval_nat_numeral)
qed

text \<open>Three initcalls; the second is forbidden and the third returns with interrupts disabled.\<close>

definition sample_ic_env :: ic_env where
  "sample_ic_env = \<lparr>ie_name = (\<lambda>n. if n = 1 then ''init_a [mod]'' else if n = 2 then ''init_b'' else ''init_c''),
     ie_call = (\<lambda>n c. (0, c\<lparr>irqs_disabled := (n = 3)\<rparr>)), ie_debug = True, ie_took = (\<lambda>n. 1500), ie_alloc = True, ie_early = [1],
     ie_levels = [[2], [3]]\<rparr>"

lemma initcalls_run_in_order_witness:
  "\<exists>t. do_initcalls sample_ic_env [''init_b'']
        (do_pre_smp_initcalls sample_ic_env [''init_b''] \<lparr>ic_cpu = \<lparr>preempt_count = 0, irqs_disabled = False\<rparr>, ic_log = []\<rparr>)
        = Some t
    \<and> called (ic_log t) = [1, 3] \<and> \<not> irqs_disabled (ic_cpu t)"
  using initcalls_run_in_order [of "[''init_b'']" blank_boot sample_ic_env
      "\<lparr>ic_cpu = \<lparr>preempt_count = 0, irqs_disabled = False\<rparr>, ic_log = []\<rparr>"]
  by (auto simp add: sample_ic_env_def blank_boot_def initcall_name_def initcall_blacklist_def kept_cpu_def)

definition sample_init_env :: init_env where
  "sample_init_env = \<lparr>in_execve = (\<lambda>f a e. if f = ''/bin/sh'' \<and> length a = 4 then 0 else - ENOENT),
     in_default = [], in_eaccess = (\<lambda>f. - ENOENT)\<rparr>"

lemma words_reach_first_process_witness:
  "\<exists>t. pass (unknown_bootoption sample_boot_env 2) (map word_arg [''auto'', ''single'']) (initial_arrays 2 blank_boot) = Done t
    \<and> \<not> boot_panics t
    \<and> (case find (starts sample_init_env t) (candidates sample_init_env t) of
         None \<Rightarrow> \<exists>msg. fst (kernel_init sample_init_env t) = Panicked msg
       | Some f \<Rightarrow> fst (kernel_init sample_init_env t) = Started f
           \<and> in_execve sample_init_env f [Some f, Some ''auto'', Some ''single'', None]
                [Some ''HOME=/'', Some ''TERM=linux'', None, None] = 0)"
proof -
  have words: "list_all (plain_word sample_boot_env) [''auto'', ''single'']" "length [''auto'', ''single''] \<le> 2"
    using sample_plain by simp_all
  have arrays: "map Some [''auto'', ''single''] @ replicate (2 + 1 - length [''auto'', ''single'']) None
      = [Some ''auto'', Some ''single'', None]"
    "[Some ''HOME=/'', Some ''TERM=linux''] @ replicate 2 None = [Some ''HOME=/'', Some ''TERM=linux'', None, None]"
    by (simp_all add: numeral_2_eq_2)
  show ?thesis using words_reach_first_process [OF words, of blank_boot sample_init_env] unfolding arrays .
qed

end
