(* ===== verification/Boot_Config.thy ===== *)
theory Boot_Config
  imports Boot_Init
begin

text \<open>
  The boot configuration in \<open>Practica1/linux-6.6.44/init/main.c\<close>: cutting it out of the end of
  the initial ramdisk, turning its keys into command line options, handing them to
  \<open>setup_command_line\<close>; and the list of unknown options \<open>start_kernel\<close> prints. The parser of
  the configuration, its checksum, the tokeniser and the boot allocator are parameters.
\<close>

subsection \<open>The end of the initial ramdisk\<close>

text \<open>Memory is a map from addresses to bytes; \<open>ird_end\<close> is the address after the last byte.\<close>

type_synonym addr = "64 word"
type_synonym byte = "8 word"

record initrd =
  ird_mem :: "addr \<Rightarrow> byte"
  ird_start :: addr
  ird_end :: addr

text \<open>The twelve bytes \<open>#BOOTCONFIG\<close> and a line feed, as the documentation of the format gives them.\<close>

definition BOOTCONFIG_MAGIC :: "byte list" where
  "BOOTCONFIG_MAGIC = [35, 66, 79, 79, 84, 67, 79, 78, 70, 73, 71, 10]"

definition bytes_at :: "(addr \<Rightarrow> byte) \<Rightarrow> addr \<Rightarrow> nat \<Rightarrow> byte list" where
  "bytes_at m a n = map (\<lambda>i. m (a + of_nat i)) [0..<n]"

definition le32 :: "byte list \<Rightarrow> 32 word" where
  "le32 bs = of_nat (foldr (\<lambda>b n. unat b + 256 * n) bs 0)"

definition le32_bytes :: "32 word \<Rightarrow> byte list" where
  "le32_bytes w = map (\<lambda>k. ucast (drop_bit (8 * k) w)) [0, 1, 2, 3]"

text \<open>The loop over four positions, from the last one down.\<close>

fun find_magic :: "(addr \<Rightarrow> byte) \<Rightarrow> nat \<Rightarrow> addr \<Rightarrow> addr option" where
  "find_magic m 0 data = None"
| "find_magic m (Suc n) data =
     (if bytes_at m data 12 = BOOTCONFIG_MAGIC then Some data else find_magic m n (data - 1))"

text \<open>The result is the address and the size, with the end of the ramdisk moved before them.\<close>

definition get_boot_config_from_initrd ::
  "(byte list \<Rightarrow> 32 word) \<Rightarrow> initrd \<Rightarrow> (addr \<times> 32 word) option \<times> initrd" where
  "get_boot_config_from_initrd checksum s =
     (if ird_end s = 0 then (None, s)
      else (case find_magic (ird_mem s) 4 (ird_end s - 12) of
              None \<Rightarrow> (None, s)
            | Some magic \<Rightarrow>
                (let hdr = magic - 8;
                     sz = le32 (bytes_at (ird_mem s) hdr 4);
                     csum = le32 (bytes_at (ird_mem s) (hdr + 4) 4);
                     data = hdr - ucast sz
                 in if data < ird_start s then (None, s)
                    else if checksum (bytes_at (ird_mem s) data (unat sz)) \<noteq> csum then (None, s)
                    else (Some (data, sz), s\<lparr>ird_end := data\<rparr>))))"

subsection \<open>Keys as options\<close>

text \<open>
  The visit of \<open>xbc_node_for_each_key_value\<close>: for each key what \<open>xbc_node_compose_key_after\<close>
  gives, a negative error or the full name, and the values of the key, none when the node has
  no child. The lengths stay far below the range of \<open>int\<close>, since a configuration has at
  most 32 KiB.
\<close>

type_synonym xbc_keys = "((int + string) \<times> string list) list"

text \<open>\<open>snprintf\<close> of the text \<open>s\<close> with \<open>n\<close> characters left; a full buffer is not touched.\<close>

definition snprint_rest :: "cbuf \<Rightarrow> nat \<Rightarrow> nat \<Rightarrow> string \<Rightarrow> cbuf outcome" where
  "snprint_rest buf pos n s = (if n = 0 then Done buf else strcpy_at buf pos (take (n - 1) s))"

definition value_text :: "string \<Rightarrow> string \<Rightarrow> string" where
  "value_text nm v = nm @ [CHR ''='', CHR 0x22] @ v @ [CHR 0x22, CHR '' '']"

fun xbc_values :: "nat \<Rightarrow> string \<Rightarrow> string list \<Rightarrow> cbuf \<Rightarrow> nat \<Rightarrow> (cbuf \<times> nat) outcome" where
  "xbc_values n nm [] buf pos = Done (buf, pos)"
| "xbc_values n nm (v # vs) buf pos =
     and_then (snprint_rest buf pos (n - pos) (value_text nm v))
       (\<lambda>buf. xbc_values n nm vs buf (pos + length (value_text nm v)))"

fun xbc_snprint_cmdline :: "nat \<Rightarrow> xbc_keys \<Rightarrow> cbuf \<Rightarrow> nat \<Rightarrow> (int \<times> cbuf) outcome" where
  "xbc_snprint_cmdline n [] buf pos = Done (int pos, buf)"
| "xbc_snprint_cmdline n ((Inl e, vs) # ks) buf pos = Done (e, buf)"
| "xbc_snprint_cmdline n ((Inr nm, []) # ks) buf pos =
     and_then (snprint_rest buf pos (n - pos) (nm @ '' ''))
       (\<lambda>buf. xbc_snprint_cmdline n ks buf (pos + length (nm @ '' '')))"
| "xbc_snprint_cmdline n ((Inr nm, v # vs) # ks) buf pos =
     and_then (xbc_values n nm (v # vs) buf pos) (\<lambda>(buf, pos). xbc_snprint_cmdline n ks buf pos)"

text \<open>First a pass that only counts, then the one that prints. \<open>None\<close> is the null pointer.\<close>

definition xbc_make_cmdline :: "(nat \<Rightarrow> bool) \<Rightarrow> xbc_keys option \<Rightarrow> cbuf option outcome" where
  "xbc_make_cmdline alloc root =
     (case root of
        None \<Rightarrow> Done None
      | Some ks \<Rightarrow>
          and_then (xbc_snprint_cmdline 0 ks [] 0) (\<lambda>(len, _).
            if len \<le> 0 then Done None
            else if \<not> alloc (nat len + 1) then Done None
            else and_then (xbc_snprint_cmdline (nat len + 1) ks (cleared_block (nat len + 1)) 0) (\<lambda>(ret, buf).
              if ret < 0 \<or> len < ret then Done None else Done (Some buf))))"

subsection \<open>Using the configuration\<close>

text \<open>
  How the tokeniser ends: with an error, at the end of the line, or at the offset behind two
  dashes. \<open>cf_parse\<close> gives the names it handed over before that; \<open>cf_find\<close> looks a key up in
  a configuration that \<open>xbc_init\<close> accepted.
\<close>

datatype parse_end = Parse_error | Line_end | After_dashes nat

record config_env =
  cf_checksum :: "byte list \<Rightarrow> 32 word"
  cf_embedded :: "byte list option"
  cf_line_size :: nat
  cf_parse :: "string \<Rightarrow> string list \<times> parse_end"
  cf_force :: bool
  cf_data_max :: nat
  cf_init :: "byte list \<Rightarrow> bool"
  cf_find :: "byte list \<Rightarrow> string \<Rightarrow> xbc_keys option"
  cf_alloc :: "nat \<Rightarrow> bool"

record config_state =
  bootconfig_found :: bool
  initargs_offs :: nat
  extra_command_line :: "cbuf option"
  extra_init_args :: "cbuf option"

definition bootconfig_params :: "string \<Rightarrow> config_state \<Rightarrow> config_state" where
  "bootconfig_params param s = (if param = ''bootconfig'' then s\<lparr>bootconfig_found := True\<rparr> else s)"

text \<open>The data of the ramdisk, which is cut, else the embedded ones.\<close>

definition config_data :: "config_env \<Rightarrow> initrd \<Rightarrow> byte list option \<times> initrd" where
  "config_data C ird =
     (case get_boot_config_from_initrd (cf_checksum C) ird of
        (Some (a, sz), ird') \<Rightarrow> (Some (bytes_at (ird_mem ird') a (unat sz)), ird')
      | (None, ird') \<Rightarrow> (cf_embedded C, ird'))"

definition setup_boot_config ::
  "config_env \<Rightarrow> string \<Rightarrow> initrd \<Rightarrow> config_state \<Rightarrow> (config_state \<times> initrd) outcome" where
  "setup_boot_config C boot_line ird0 s =
     (let (data, ird) = config_data C ird0;
          (params, err) = cf_parse C (take (cf_line_size C - 1) boot_line);
          s = fold bootconfig_params params s
      in if err = Parse_error \<or> \<not> (bootconfig_found s \<or> cf_force C) then Done (s, ird)
         else
           (let s = (case err of After_dashes off \<Rightarrow> s\<lparr>initargs_offs := off\<rparr> | _ \<Rightarrow> s) in
            case data of
              None \<Rightarrow> Done (s, ird)
            | Some d \<Rightarrow>
                if cf_data_max C \<le> length d then Done (s, ird)
                else if \<not> cf_init C d then Done (s, ird)
                else
                  and_then (xbc_make_cmdline (cf_alloc C) (cf_find C d ''kernel'')) (\<lambda>line.
                  and_then (xbc_make_cmdline (cf_alloc C) (cf_find C d ''init'')) (\<lambda>args.
                    Done (s\<lparr>extra_command_line := line, extra_init_args := args\<rparr>, ird)))))"

text \<open>Without \<open>CONFIG_BOOT_CONFIG\<close> the configuration is only taken off the ramdisk.\<close>

definition setup_boot_config_off :: "config_env \<Rightarrow> initrd \<Rightarrow> initrd" where
  "setup_boot_config_off C ird = snd (get_boot_config_from_initrd (cf_checksum C) ird)"

text \<open>What \<open>setup_command_line\<close> then reads.\<close>

definition config_lines :: "(nat \<Rightarrow> bool) \<Rightarrow> string \<Rightarrow> config_state \<Rightarrow> line_env" where
  "config_lines alloc boot_line s =
     \<lparr>ln_alloc = alloc,
      ln_extra_command_line = Option.bind (extra_command_line s) cstr,
      ln_extra_init_args = Option.bind (extra_init_args s) cstr,
      ln_initargs_offs = initargs_offs s, ln_boot_command_line = boot_line\<rparr>"

subsection \<open>Reporting unknown options\<close>

text \<open>A loop up to the null pointer; an array without one is read past its end.\<close>

fun listed :: "string option list \<Rightarrow> string list outcome" where
  "listed [] = Oops"
| "listed (None # ps) = Done []"
| "listed (Some a # ps) = and_then (listed ps) (\<lambda>as. Done (a # as))"

fun print_words :: "string list \<Rightarrow> cbuf \<Rightarrow> nat \<Rightarrow> (cbuf \<times> nat) outcome" where
  "print_words [] buf pos = Done (buf, pos)"
| "print_words (w # ws) buf pos =
     and_then (strcpy_at buf pos ('' '' @ w)) (\<lambda>buf. print_words ws buf (pos + 1 + length w))"

text \<open>The block whose text, from its second character on, is printed; \<open>None\<close> without a message.\<close>

definition print_unknown_bootoptions :: "(nat \<Rightarrow> bool) \<Rightarrow> boot_state \<Rightarrow> cbuf option outcome" where
  "print_unknown_bootoptions alloc s =
     (if bs_panic_later s \<noteq> None \<or> (argv_init s ! 1 = None \<and> envp_init s ! 2 = None) then Done None
      else and_then (listed (drop 1 (argv_init s))) (\<lambda>args.
           and_then (listed (drop 2 (envp_init s))) (\<lambda>envs.
             let len = 1 + sum_list (map (\<lambda>w. 1 + length w) args) + sum_list (map (\<lambda>w. 1 + length w) envs) in
             if \<not> alloc len then Done None
             else and_then (print_words args (cleared_block len) 0) (\<lambda>(buf, pos).
                  and_then (print_words envs buf pos) (\<lambda>(buf, pos). Done (Some buf))))))"


subsection \<open>The configuration is found and cut off\<close>

lemma bytes_at_sub:
  assumes "bytes_at m a (length xs) = xs" and "k + n \<le> length xs"
  shows "bytes_at m (a + of_nat k) n = take n (drop k xs)"
proof (rule nth_equalityI)
  show "length (bytes_at m (a + of_nat k) n) = length (take n (drop k xs))"
    using assms(2) by (simp add: bytes_at_def)
  fix i assume i: "i < length (bytes_at m (a + of_nat k) n)"
  then have "bytes_at m a (length xs) ! (k + i) = m (a + of_nat (k + i))"
    using assms(2) by (simp add: bytes_at_def)
  then show "bytes_at m (a + of_nat k) n ! i = take n (drop k xs) ! i"
    using i assms by (simp add: bytes_at_def add.assoc)
qed

lemma le32_round: "le32 (le32_bytes w) = w"
proof -
  let ?x = "unat w"
  have "unat (ucast v :: byte) = unat v mod 256" for v :: "32 word"
    by (simp add: unsigned_ucast_eq take_bit_eq_mod)
  moreover have "unat (drop_bit k w) = ?x div 2 ^ k" for k
    unfolding unsigned_drop_bit_eq by (simp only: drop_bit_eq_div take_bit_nat_eq_self unsigned_less)
  ultimately have byte: "unat (ucast (drop_bit k w) :: byte) = ?x div 2 ^ k mod 256" for k by simp
  define y where "y = ?x div 256"
  define z where "z = y div 256"
  define v where "v = z div 256"
  have "?x < 4294967296" using unsigned_less [of w] by simp
  then have "v < 256" by (simp add: v_def z_def y_def less_mult_imp_div_less)
  moreover have "?x div 65536 = z" "?x div 16777216 = v"
    by (simp_all add: v_def z_def y_def flip: div_mult2_eq)
  moreover have "?x = 256 * y + ?x mod 256" "y = 256 * z + y mod 256" "z = 256 * v + z mod 256"
    by (simp_all add: v_def z_def y_def)
  ultimately have "?x div 16777216 mod 256 = ?x div 16777216"
    "?x mod 256 + 256 * (y mod 256 + 256 * (?x div 65536 mod 256 + 256 * (?x div 16777216))) = ?x"
    by simp_all
  then have "foldr (\<lambda>b n. unat b + 256 * n) (le32_bytes w) 0 = ?x"
    unfolding le32_bytes_def list.map foldr.simps o_apply byte by (simp add: y_def)
  then show ?thesis by (simp add: le32_def)
qed

lemma find_magic_at:
  assumes "bytes_at m a 12 = BOOTCONFIG_MAGIC"
    and "\<And>j. 0 < j \<Longrightarrow> j \<le> p \<Longrightarrow> bytes_at m (a + of_nat j) 12 \<noteq> BOOTCONFIG_MAGIC"
    and "p < n"
  shows "find_magic m n (a + of_nat p) = Some a"
  using assms(2,3)
proof (induction p arbitrary: n)
  case 0
  then show ?case using assms(1) by (cases n) simp_all
next
  case (Suc p)
  then obtain n' where n: "n = Suc n'" "p < n'" by (cases n) simp_all
  have down: "a + of_nat (Suc p) - 1 = a + of_nat p" by simp
  have "bytes_at m (a + of_nat (Suc p)) 12 \<noteq> BOOTCONFIG_MAGIC" by (rule Suc.prems(1)) simp_all
  moreover have "find_magic m n' (a + of_nat p) = Some a"
    by (rule Suc.IH) (simp_all add: Suc.prems(1) n)
  ultimately show ?case unfolding n(1) find_magic.simps down by simp
qed

text \<open>The magic text cannot overlap itself with a shift of one to three bytes.\<close>

lemma magic_no_overlap:
  assumes "0 < j" and "j \<le> 3"
  shows "take 12 (drop (length pre + j) (pre @ BOOTCONFIG_MAGIC @ pad)) \<noteq> BOOTCONFIG_MAGIC"
proof -
  have "j = 1 \<or> j = 2 \<or> j = 3" using assms by auto
  then have first: "take 12 (drop (length pre + j) (pre @ BOOTCONFIG_MAGIC @ pad)) ! 0 \<noteq> BOOTCONFIG_MAGIC ! 0"
    by (auto simp: BOOTCONFIG_MAGIC_def)
  show ?thesis
  proof
    assume "take 12 (drop (length pre + j) (pre @ BOOTCONFIG_MAGIC @ pad)) = BOOTCONFIG_MAGIC"
    with first show False by (simp only:)
  qed
qed

lemma ucast_of_nat_u32: "n < 2 ^ 32 \<Longrightarrow> (ucast (of_nat n :: 32 word) :: addr) = of_nat n"
  by (simp add: word_unat_eq_iff unsigned_ucast_eq unsigned_of_nat take_bit_nat_eq_self)

text \<open>A ramdisk with a configuration, as the tool that appends it lays it out.\<close>

definition config_image ::
  "(byte list \<Rightarrow> 32 word) \<Rightarrow> byte list \<Rightarrow> byte list \<Rightarrow> byte list \<Rightarrow> byte list" where
  "config_image checksum body data pad =
     body @ data @ le32_bytes (of_nat (length data)) @ le32_bytes (checksum data) @ BOOTCONFIG_MAGIC @ pad"

lemma length_magic [simp]: "length BOOTCONFIG_MAGIC = 12" "length (le32_bytes w) = 4"
  by (simp_all add: BOOTCONFIG_MAGIC_def le32_bytes_def)

lemma find_magic_image:
  assumes "bytes_at m a (length (pre @ BOOTCONFIG_MAGIC @ pad)) = pre @ BOOTCONFIG_MAGIC @ pad"
    and "length pad \<le> 3"
  shows "find_magic m 4 (a + of_nat (length pre) + of_nat (length pad)) = Some (a + of_nat (length pre))"
proof (rule find_magic_at)
  show "bytes_at m (a + of_nat (length pre)) 12 = BOOTCONFIG_MAGIC"
    using bytes_at_sub [OF assms(1), of "length pre" 12] by simp
next
  fix j assume j: "0 < j" "j \<le> length pad"
  have "bytes_at m (a + of_nat (length pre + j)) 12 = take 12 (drop (length pre + j) (pre @ BOOTCONFIG_MAGIC @ pad))"
    by (rule bytes_at_sub [OF assms(1)]) (use j in simp)
  then show "bytes_at m (a + of_nat (length pre) + of_nat j) 12 \<noteq> BOOTCONFIG_MAGIC"
    using magic_no_overlap [of j pre pad] j assms(2) by (simp add: add.assoc)
qed (use assms(2) in simp)

text \<open>C35: a configuration appended to the ramdisk, with its size and checksum in little endian
  order, the magic text and up to three bytes of padding, is found whatever these bytes are:
  its address and size are returned and the ramdisk then ends where it did without it.\<close>
theorem config_cut_from_image:
  assumes "bytes_at (ird_mem s) (ird_start s) (length img) = img"
    and "img = config_image checksum body data pad" and "length pad \<le> 3"
    and "ird_end s = ird_start s + of_nat (length img)"
    and "unat (ird_start s) + length img < 2 ^ 64" and "length data < 2 ^ 32"
  shows "get_boot_config_from_initrd checksum s
      = (Some (ird_start s + of_nat (length body), of_nat (length data)),
         s\<lparr>ird_end := ird_start s + of_nat (length body)\<rparr>)
    \<and> bytes_at (ird_mem s) (ird_start s + of_nat (length body)) (length data) = data"
proof -
  let ?m = "ird_mem s" and ?a = "ird_start s"
  let ?pre = "body @ data @ le32_bytes (of_nat (length data)) @ le32_bytes (checksum data)"
  let ?magic = "?a + of_nat (length ?pre)"
  let ?b = "?a + of_nat (length body)"
  have img: "img = ?pre @ BOOTCONFIG_MAGIC @ pad" by (simp add: assms(2) config_image_def)
  have last: "ird_end s - 12 = ?magic + of_nat (length pad)" by (simp add: assms(4) img)
  have found: "find_magic ?m 4 (ird_end s - 12) = Some ?magic"
    unfolding last by (rule find_magic_image) (use assms(1,3) img in simp_all)
  have part: "bytes_at ?m (?a + of_nat k) n = take n (drop k img)" if "k + n \<le> length img" for k n
    by (rule bytes_at_sub [OF assms(1) that])
  have hdr: "?magic - 8 = ?a + of_nat (length body + length data)"
    "?magic - 8 + 4 = ?a + of_nat (length body + length data + 4)" by simp_all
  have fields: "le32 (bytes_at ?m (?magic - 8) 4) = of_nat (length data)"
    "le32 (bytes_at ?m (?magic - 8 + 4) 4) = checksum data"
    unfolding hdr using part [of "length body + length data" 4] part [of "length body + length data + 4" 4]
    by (simp_all add: img le32_round add.assoc)
  have data: "?magic - 8 - ucast (of_nat (length data) :: 32 word) = ?b"
    using ucast_of_nat_u32 [OF assms(6)] by simp
  have bytes: "bytes_at ?m ?b (length data) = data" using part [of "length body" "length data"] by (simp add: img)
  have len: "unat (of_nat (length data) :: 32 word) = length data"
    using assms(6) by (simp add: unsigned_of_nat take_bit_nat_eq_self)
  have small: "unat (of_nat k :: addr) = k" if "k \<le> length img" for k
    using that assms(5) by (simp add: unsigned_of_nat take_bit_nat_eq_self)
  have "unat ?b = unat ?a + length body"
    using unat_add_small [of ?a "of_nat (length body)"] small [of "length body"] assms(5) by (simp add: img)
  then have above: "\<not> ?b < ?a" by (simp add: word_less_nat_alt)
  have "unat (ird_end s) = unat ?a + length img"
    using unat_add_small [of ?a "of_nat (length img)"] small [of "length img"] assms(4,5) by simp
  then have "ird_end s \<noteq> 0" by (auto simp: img)
  then show ?thesis
    by (simp only: get_boot_config_from_initrd_def found fields data bytes len above Let_def option.case if_False
        not_True_eq_False refl simp_thms)
qed

subsection \<open>Keys become complete options\<close>

text \<open>
  The text of the keys, all of them when every name could be composed; what may be asked of
  the visit: an error is negative, and names and values hold no null character.
\<close>

definition keys_text :: "xbc_keys \<Rightarrow> string" where
  "keys_text ks = concat (map (\<lambda>(r, vs). case r of
       Inl e \<Rightarrow> []
     | Inr nm \<Rightarrow> if vs = [] then nm @ '' '' else concat (map (value_text nm) vs)) ks)"

definition all_composed :: "xbc_keys \<Rightarrow> bool" where
  "all_composed ks = list_all (\<lambda>(r, vs). case r of Inl e \<Rightarrow> False | Inr nm \<Rightarrow> True) ks"

definition keys_ok :: "xbc_keys \<Rightarrow> bool" where
  "keys_ok ks = list_all (\<lambda>(r, vs). case r of
       Inl e \<Rightarrow> e < 0
     | Inr nm \<Rightarrow> NUL \<notin> set nm \<and> list_all (\<lambda>v. NUL \<notin> set v) vs) ks"

lemma keys_simps [simp]:
  "keys_text [] = []" "all_composed []" "keys_ok []"
  "keys_text ((Inr nm, vs) # ks)
     = (if vs = [] then nm @ '' '' else concat (map (value_text nm) vs)) @ keys_text ks"
  "all_composed ((Inl e, vs) # ks) = False" "all_composed ((Inr nm, vs) # ks) = all_composed ks"
  "keys_ok ((Inl e, vs) # ks) \<longleftrightarrow> e < 0 \<and> keys_ok ks"
  "keys_ok ((Inr nm, vs) # ks) \<longleftrightarrow> NUL \<notin> set nm \<and> list_all (\<lambda>v. NUL \<notin> set v) vs \<and> keys_ok ks"
  by (simp_all add: keys_text_def all_composed_def keys_ok_def)

lemma keys_text_no_nul: "keys_ok ks \<Longrightarrow> NUL \<notin> set (keys_text ks)"
  by (auto simp: keys_text_def keys_ok_def value_text_def list_all_iff split: sum.splits if_splits)

lemma snprint_none [simp]: "snprint_rest buf pos 0 s = Done buf"
  by (simp add: snprint_rest_def)

lemma snprint_holds:
  assumes "holds buf p n" and "length p + length s + 1 \<le> n"
  shows "\<exists>b. snprint_rest buf (length p) (n - length p) s = Done b \<and> holds b (p @ s) n"
  using append_holds [OF assms] assms(2) by (simp add: snprint_rest_def)

lemma values_counted: "xbc_values 0 nm vs buf pos = Done (buf, pos + length (concat (map (value_text nm) vs)))"
  by (induction "0::nat" nm vs buf pos rule: xbc_values.induct) (simp_all add: add.assoc)

lemma values_printed:
  assumes "holds buf p n" and "length p + length (concat (map (value_text nm) vs)) + 1 \<le> n"
  shows "\<exists>b. xbc_values n nm vs buf (length p) = Done (b, length p + length (concat (map (value_text nm) vs)))
    \<and> holds b (p @ concat (map (value_text nm) vs)) n"
  using assms
proof (induction vs arbitrary: buf p)
  case (Cons v vs)
  obtain b where "snprint_rest buf (length p) (n - length p) (value_text nm v) = Done b" "holds b (p @ value_text nm v) n"
    using snprint_holds [OF Cons.prems(1), of "value_text nm v"] Cons.prems(2) by auto
  then show ?case using Cons.IH [of b "p @ value_text nm v"] Cons.prems(2) by (simp add: add.assoc)
qed simp

lemma keys_counted:
  "all_composed ks \<Longrightarrow> xbc_snprint_cmdline 0 ks buf pos = Done (int (pos + length (keys_text ks)), buf)"
  by (induction "0::nat" ks buf pos rule: xbc_snprint_cmdline.induct)
    (simp_all add: values_counted add.assoc del: xbc_values.simps)

lemma keys_failed:
  "\<not> all_composed ks \<Longrightarrow> keys_ok ks \<Longrightarrow> \<exists>e. xbc_snprint_cmdline 0 ks buf pos = Done (e, buf) \<and> e < 0"
  by (induction "0::nat" ks buf pos rule: xbc_snprint_cmdline.induct)
    (simp_all add: values_counted del: xbc_values.simps)

lemma keys_printed:
  assumes "all_composed ks" and "holds buf p n" and "length p + length (keys_text ks) + 1 \<le> n"
  shows "\<exists>b. xbc_snprint_cmdline n ks buf (length p) = Done (int (length p + length (keys_text ks)), b)
    \<and> holds b (p @ keys_text ks) n"
  using assms
proof (induction ks arbitrary: buf p)
  case (Cons k ks)
  obtain nm vs where k: "k = (Inr nm, vs)"
    using Cons.prems(1) by (cases k; cases "fst k") auto
  show ?case
  proof (cases vs)
    case Nil
    obtain b where "snprint_rest buf (length p) (n - length p) (nm @ '' '') = Done b" "holds b (p @ nm @ '' '') n"
      using snprint_holds [OF Cons.prems(2), of "nm @ '' ''"] Cons.prems(3) k Nil by auto
    then show ?thesis
      using Cons.IH [of b "p @ nm @ '' ''"] Cons.prems k Nil by (simp add: add.assoc)
  next
    case (Cons v ws)
    let ?t = "concat (map (value_text nm) vs)"
    obtain b where b: "xbc_values n nm vs buf (length p) = Done (b, length (p @ ?t))" "holds b (p @ ?t) n"
      using values_printed [OF Cons.prems(2), of nm vs] Cons.prems(3) k Cons by auto
    show ?thesis
      using Cons.IH [of b "p @ ?t"] b Cons.prems k Cons by (simp add: add.assoc del: xbc_values.simps)
  qed
qed simp

text \<open>The line a key should give; none when a name fails, nothing is set or memory is short.\<close>

definition wanted_line :: "(nat \<Rightarrow> bool) \<Rightarrow> xbc_keys option \<Rightarrow> string option" where
  "wanted_line alloc root =
     (case root of
        None \<Rightarrow> None
      | Some ks \<Rightarrow> if all_composed ks \<and> keys_text ks \<noteq> [] \<and> alloc (length (keys_text ks) + 1)
                  then Some (keys_text ks) else None)"

definition root_ok :: "xbc_keys option \<Rightarrow> bool" where
  "root_ok root = (case root of None \<Rightarrow> True | Some ks \<Rightarrow> keys_ok ks)"

lemma wanted_no_nul: "root_ok root \<Longrightarrow> NUL \<notin> set (text_of (wanted_line alloc root))"
  by (auto simp: root_ok_def wanted_line_def text_of_def keys_text_no_nul split: option.splits if_splits)

lemma make_cmdline_complete:
  assumes "root_ok root"
  shows "\<exists>r. xbc_make_cmdline alloc root = Done r \<and> Option.bind r cstr = wanted_line alloc root"
proof (cases root)
  case None
  then show ?thesis by (simp add: xbc_make_cmdline_def wanted_line_def)
next
  case (Some ks)
  let ?n = "length (keys_text ks)"
  have ok: "keys_ok ks" using assms Some by (simp add: root_ok_def)
  show ?thesis
  proof (cases "all_composed ks")
    case False
    then show ?thesis
      using Some keys_failed [OF False ok, of "[]" 0] by (auto simp: xbc_make_cmdline_def wanted_line_def)
  next
    case True
    have "holds (cleared_block (?n + 1)) [] (?n + 1)" by (simp add: holds_def cleared_block_def)
    from keys_printed [OF True this] obtain b
      where b: "xbc_snprint_cmdline (?n + 1) ks (cleared_block (?n + 1)) 0 = Done (int ?n, b)" "holds b (keys_text ks) (?n + 1)"
      by auto
    have "cstr b = Some (keys_text ks)" by (rule holds_cstr [OF b(2) keys_text_no_nul [OF ok]])
    then show ?thesis
      using Some True b(1) keys_counted [OF True, of "[]" 0] by (simp add: xbc_make_cmdline_def wanted_line_def)
  qed
qed

text \<open>What the two parts of the boot rely on for the configuration and the line.\<close>

definition boot_lines_ok :: "config_env \<Rightarrow> string \<Rightarrow> bool" where
  "boot_lines_ok C boot_line \<longleftrightarrow> NUL \<notin> set boot_line
     \<and> (case snd (cf_parse C (take (cf_line_size C - 1) boot_line)) of
          After_dashes off \<Rightarrow> off \<le> length boot_line | _ \<Rightarrow> True)"

definition blank_config :: config_state where
  "blank_config = \<lparr>bootconfig_found = False, initargs_offs = 0, extra_command_line = None, extra_init_args = None\<rparr>"

text \<open>Whether the configuration is used, ignored or not supported, the ramdisk is cut the same.\<close>

lemma ramdisk_cut_alike:
  assumes "setup_boot_config C line ird s = Done (t, ird')"
  shows "ird' = setup_boot_config_off C ird"
proof -
  have data: "setup_boot_config_off C ird = snd (config_data C ird)"
    by (simp add: setup_boot_config_off_def config_data_def split: prod.split option.split)
  have keeps: "and_then x (\<lambda>line. and_then y (\<lambda>args. Done (f line args, r))) = Done (t, ird') \<Longrightarrow> ird' = r" for x y f r
    by (cases x; cases y) auto
  show ?thesis using assms unfolding data
    by (auto simp: setup_boot_config_def Let_def split: prod.splits if_splits option.splits parse_end.splits dest!: keeps)
qed

definition dashes_offset :: "config_env \<Rightarrow> string \<Rightarrow> nat" where
  "dashes_offset C boot_line =
     (case snd (cf_parse C (take (cf_line_size C - 1) boot_line)) of After_dashes off \<Rightarrow> off | _ \<Rightarrow> 0)"

lemma params_found:
  "fold bootconfig_params params s = s\<lparr>bootconfig_found := bootconfig_found s \<or> ''bootconfig'' \<in> set params\<rparr>"
  by (induction params arbitrary: s) (simp_all add: bootconfig_params_def)

lemma offset_update:
  "(case err of After_dashes off \<Rightarrow> blank_config\<lparr>bootconfig_found := f, initargs_offs := off\<rparr>
      | _ \<Rightarrow> blank_config\<lparr>bootconfig_found := f\<rparr>)
   = blank_config\<lparr>bootconfig_found := f, initargs_offs := (case err of After_dashes off \<Rightarrow> off | _ \<Rightarrow> 0)\<rparr>"
  by (simp add: blank_config_def split: parse_end.split)

lemma saved_text_no_nul:
  assumes "NUL \<notin> set (text_of (ln_extra_command_line L))" and "NUL \<notin> set (text_of (ln_extra_init_args L))"
    and "NUL \<notin> set (ln_boot_command_line L)"
  shows "NUL \<notin> set (saved_text L)"
  using assms by (auto simp: saved_text_def text_of_def Let_def dest: in_set_takeD in_set_dropD split: option.splits)

definition wanted_lines :: "config_env \<Rightarrow> string \<Rightarrow> byte list \<Rightarrow> line_env" where
  "wanted_lines C boot_line d =
     \<lparr>ln_alloc = cf_alloc C,
      ln_extra_command_line = wanted_line (cf_alloc C) (cf_find C d ''kernel''),
      ln_extra_init_args = wanted_line (cf_alloc C) (cf_find C d ''init''),
      ln_initargs_offs = dashes_offset C boot_line, ln_boot_command_line = boot_line\<rparr>"

text \<open>C34: with \<open>bootconfig\<close> on the command line and an accepted configuration, the two parts of
  the boot together put every key below \<open>kernel\<close>, complete and in order, before the command
  line, and every key below \<open>init\<close> behind the two dashes; no copy leaves its block, whatever
  the lengths.\<close>
theorem config_reaches_command_line:
  assumes "fst (config_data C ird) = Some d" and "length d < cf_data_max C" and "cf_init C d"
    and "''bootconfig'' \<in> set (fst (cf_parse C (take (cf_line_size C - 1) boot_line)))"
    and "snd (cf_parse C (take (cf_line_size C - 1) boot_line)) \<noteq> Parse_error"
    and "root_ok (cf_find C d ''kernel'')" and "root_ok (cf_find C d ''init'')"
    and "boot_lines_ok C boot_line" and "\<And>n. cf_alloc C n" and "NUL \<notin> set command_line"
  shows "\<exists>t saved static. setup_boot_config C boot_line ird blank_config = Done (t, snd (config_data C ird))
    \<and> setup_command_line (config_lines (cf_alloc C) boot_line t) command_line
        = Done (Inr (saved, static, length (saved_text (wanted_lines C boot_line d))))
    \<and> cstr saved = Some (saved_text (wanted_lines C boot_line d))
    \<and> cstr static = Some (text_of (wanted_line (cf_alloc C) (cf_find C d ''kernel'')) @ command_line)"
proof -
  obtain line where line: "xbc_make_cmdline (cf_alloc C) (cf_find C d ''kernel'') = Done line"
    "Option.bind line cstr = wanted_line (cf_alloc C) (cf_find C d ''kernel'')"
    using make_cmdline_complete [OF assms(6)] by blast
  obtain args where args: "xbc_make_cmdline (cf_alloc C) (cf_find C d ''init'') = Done args"
    "Option.bind args cstr = wanted_line (cf_alloc C) (cf_find C d ''init'')"
    using make_cmdline_complete [OF assms(7)] by blast
  let ?t = "blank_config\<lparr>bootconfig_found := True, initargs_offs := dashes_offset C boot_line,
    extra_command_line := line, extra_init_args := args\<rparr>"
  obtain ird' params err where data: "config_data C ird = (Some d, ird')"
    and parse: "cf_parse C (take (cf_line_size C - 1) boot_line) = (params, err)"
    using assms(1) by (metis prod.collapse)
  have config: "setup_boot_config C boot_line ird blank_config = Done (?t, ird')"
    using assms(2-5) line(1) args(1) offset_update [of True err]
    by (cases err) (simp_all add: setup_boot_config_def data parse params_found Let_def
        dashes_offset_def blank_config_def del: One_nat_def)
  have lines: "config_lines (cf_alloc C) boot_line ?t = wanted_lines C boot_line d"
    using line(2) args(2) by (simp add: config_lines_def wanted_lines_def)
  have "NUL \<notin> set boot_line" "dashes_offset C boot_line \<le> length boot_line"
    using assms(8) by (auto simp: boot_lines_ok_def dashes_offset_def split: parse_end.splits)
  then have "\<exists>saved static. setup_command_line (wanted_lines C boot_line d) command_line
        = Done (Inr (saved, static, length (saved_text (wanted_lines C boot_line d))))
    \<and> cstr saved = Some (saved_text (wanted_lines C boot_line d))
    \<and> cstr static = Some (text_of (ln_extra_command_line (wanted_lines C boot_line d)) @ command_line)"
    using wanted_no_nul [OF assms(6)] wanted_no_nul [OF assms(7)] assms(9,10)
    by (intro command_line_copies_fit saved_text_no_nul) (simp_all add: wanted_lines_def)
  then show ?thesis using config lines data by (auto simp: wanted_lines_def)
qed


subsection \<open>The unknown options\<close>

lemma listed_takeWhile:
  "k < length xs \<Longrightarrow> xs ! k = None \<Longrightarrow> listed xs = Done (map the (takeWhile (\<lambda>x. x \<noteq> None) xs))"
proof (induction xs arbitrary: k)
  case (Cons x xs)
  then show ?case by (cases x; cases k) auto
qed simp

lemma words_printed:
  assumes "holds buf p n" and "length p + length (concat (map ((@) '' '') ws)) + 1 \<le> n"
  shows "\<exists>b. print_words ws buf (length p) = Done (b, length p + length (concat (map ((@) '' '') ws)))
    \<and> holds b (p @ concat (map ((@) '' '') ws)) n"
  using assms
proof (induction ws arbitrary: buf p)
  case (Cons w ws)
  obtain b where "strcpy_at buf (length p) ('' '' @ w) = Done b" "holds b (p @ '' '' @ w) n"
    using append_holds [OF Cons.prems(1), of "'' '' @ w"] Cons.prems(2) by auto
  then show ?case
    using Cons.IH [of b "p @ '' '' @ w"] Cons.prems(2) by (auto simp: add.assoc)
qed auto

text \<open>The options that wait for the first process.\<close>

definition pending :: "boot_state \<Rightarrow> string list" where
  "pending s = map the (takeWhile (\<lambda>x. x \<noteq> None) (drop 1 (argv_init s)))
     @ map the (takeWhile (\<lambda>x. x \<noteq> None) (drop 2 (envp_init s)))"

definition pending_text :: "boot_state \<Rightarrow> string" where
  "pending_text s = concat (map ((@) '' '') (pending s))"

text \<open>With terminated arrays the block is exactly long enough.\<close>

lemma print_unknown_exact:
  assumes "boot_inv M s" and "0 < M"
  shows "print_unknown_bootoptions alloc s = Done
     (if bs_panic_later s \<noteq> None \<or> (argv_init s ! 1 = None \<and> envp_init s ! 2 = None)
        \<or> \<not> alloc (length (pending_text s) + 1)
      then None else Some (map Some (pending_text s) @ [Some NUL]))"
proof (cases "bs_panic_later s \<noteq> None \<or> (argv_init s ! 1 = None \<and> envp_init s ! 2 = None)")
  case True
  then show ?thesis by (auto simp add: print_unknown_bootoptions_def)
next
  case False
  define as where "as = map the (takeWhile (\<lambda>x. x \<noteq> None) (drop 1 (argv_init s)))"
  define es where "es = map the (takeWhile (\<lambda>x. x \<noteq> None) (drop 2 (envp_init s)))"
  have arrays: "length (argv_init s) = M + 2" "length (envp_init s) = M + 2"
    "argv_init s ! (M + 1) = None" "envp_init s ! (M + 1) = None"
    using assms(1) False by (auto simp: boot_inv_def)
  have lists: "listed (drop 1 (argv_init s)) = Done as" "listed (drop 2 (envp_init s)) = Done es"
    using arrays assms(2) listed_takeWhile [of M "drop 1 (argv_init s)"]
      listed_takeWhile [of "M - 1" "drop 2 (envp_init s)"] by (simp_all add: as_def es_def)
  let ?ta = "concat (map ((@) '' '') as)" and ?te = "concat (map ((@) '' '') es)"
  have joined: "pending_text s = ?ta @ ?te"
    by (simp add: pending_text_def pending_def as_def es_def)
  define n where "n = length ?ta + length ?te + 1"
  have len: "1 + sum_list (map (\<lambda>w. 1 + length w) as) + sum_list (map (\<lambda>w. 1 + length w) es) = n"
    unfolding n_def by (simp add: length_concat o_def)
  have "holds (cleared_block n) [] n" by (simp add: holds_def cleared_block_def n_def)
  from words_printed [OF this, of as] obtain b
    where b: "print_words as (cleared_block n) 0 = Done (b, length ?ta)" "holds b ?ta n"
    by (auto simp: n_def)
  from words_printed [OF b(2), of es] obtain c
    where c: "print_words es b (length ?ta) = Done (c, length ?ta + length ?te)" "holds c (?ta @ ?te) n"
    by (auto simp: n_def)
  have block: "c = map Some (pending_text s) @ [Some NUL]" using c(2) by (auto simp: holds_def n_def joined)
  have pending: "length (pending_text s) + 1 = n" by (simp add: joined n_def)
  have "print_unknown_bootoptions alloc s = Done (if \<not> alloc n then None else Some (map Some (pending_text s) @ [Some NUL]))"
    unfolding print_unknown_bootoptions_def if_not_P [OF False] lists and_then.simps Let_def len
    by (simp add: b(1) c(1) block)
  then show ?thesis using False by (simp only: pending) auto
qed

text \<open>After any command line, the report of unknown options reads and writes inside its
  arrays and its block: the block is filled exactly with a space and the option for every
  argument and every variable that waits for the first process, and a null character; there
  is no report only when nothing waits, memory is short or the kernel is about to panic.\<close>
theorem unknown_options_listed:
  assumes "0 < M" and "setup_functions (be_setup E) (boot_inv M)" and "list_all arg_ok options"
  shows "\<exists>t. pass (unknown_bootoption E M) options (initial_arrays M s) = Done t
    \<and> print_unknown_bootoptions alloc t = Done
        (if boot_panics t \<or> (argv_init t ! 1 = None \<and> envp_init t ! 2 = None) \<or> \<not> alloc (length (pending_text t) + 1)
         then None else Some (map Some (pending_text t) @ [Some NUL]))"
proof -
  obtain t where "pass (unknown_bootoption E M) options (initial_arrays M s) = Done t" "boot_inv M t"
    using pass_keeps [of M "unknown_bootoption E M" options "initial_arrays M s",
        OF unknown_keeps [OF assms(2)] assms(3) initial_inv [OF assms(1)]] by blast
  then show ?thesis using print_unknown_exact [of M t alloc] assms(1) by (auto simp: boot_panics_def)
qed

subsection \<open>Applications of the theorems\<close>

definition image_memory :: "addr \<Rightarrow> byte list \<Rightarrow> addr \<Rightarrow> byte" where
  "image_memory a img p = img ! unat (p - a)"

lemma image_bytes: "length img < 2 ^ 64 \<Longrightarrow> bytes_at (image_memory a img) a (length img) = img"
  by (rule nth_equalityI) (simp_all add: bytes_at_def image_memory_def unsigned_of_nat take_bit_nat_eq_self)

definition sample_image :: "byte list" where
  "sample_image = config_image (\<lambda>d. 7) [1, 2, 3, 4] [107, 10] [0, 0]"

lemma config_cut_from_image_witness:
  "get_boot_config_from_initrd (\<lambda>d. 7)
      \<lparr>ird_mem = image_memory 4096 sample_image, ird_start = 4096, ird_end = 4124\<rparr>
    = (Some (4100, 2), \<lparr>ird_mem = image_memory 4096 sample_image, ird_start = 4096, ird_end = 4100\<rparr>)
   \<and> bytes_at (image_memory 4096 sample_image) 4100 2 = [107, 10]"
proof -
  have len: "length sample_image = 28" by (simp add: sample_image_def config_image_def)
  have mem: "bytes_at (image_memory 4096 sample_image) 4096 28 = sample_image"
    using image_bytes [of sample_image 4096] len by simp
  let ?s = "\<lparr>ird_mem = image_memory 4096 sample_image, ird_start = 4096, ird_end = 4124\<rparr>"
  have "get_boot_config_from_initrd (\<lambda>d. 7) ?s
      = (Some (ird_start ?s + of_nat (length [1, 2, 3, 4 :: byte]), of_nat (length [107, 10 :: byte])),
         ?s\<lparr>ird_end := ird_start ?s + of_nat (length [1, 2, 3, 4 :: byte])\<rparr>)
    \<and> bytes_at (ird_mem ?s) (ird_start ?s + of_nat (length [1, 2, 3, 4 :: byte])) (length [107, 10 :: byte]) = [107, 10]"
    by (rule config_cut_from_image [OF _ sample_image_def]) (simp_all add: len mem)
  then show ?thesis by (simp add: numeral_2_eq_2)
qed

definition sample_config :: config_env where
  "sample_config = \<lparr>cf_checksum = (\<lambda>d. 7), cf_embedded = Some [107], cf_line_size = 256,
     cf_parse = (\<lambda>l. ([''bootconfig'', ''ro''], After_dashes 17)), cf_force = False, cf_data_max = 32767,
     cf_init = (\<lambda>d. True),
     cf_find = (\<lambda>d key. if key = ''kernel'' then Some [(Inr ''quiet'', []), (Inr ''tz'', [''a'', ''b''])]
                        else Some [(Inr ''x'', [])]),
     cf_alloc = (\<lambda>n. True)\<rparr>"

lemma config_reaches_command_line_witness:
  "\<exists>t saved static n. setup_boot_config sample_config ''bootconfig ro -- s'' \<lparr>ird_mem = (\<lambda>a. 0), ird_start = 0, ird_end = 0\<rparr> blank_config
      = Done (t, \<lparr>ird_mem = (\<lambda>a. 0), ird_start = 0, ird_end = 0\<rparr>)
    \<and> setup_command_line (config_lines (\<lambda>n. True) ''bootconfig ro -- s'' t) ''ro'' = Done (Inr (saved, static, n))
    \<and> cstr static = Some (''quiet '' @ value_text ''tz'' ''a'' @ value_text ''tz'' ''b'' @ ''ro'')"
proof -
  let ?ird = "\<lparr>ird_mem = (\<lambda>a. 0), ird_start = 0, ird_end = 0\<rparr>"
  have data: "config_data sample_config ?ird = (Some [107], ?ird)"
    by (simp add: config_data_def get_boot_config_from_initrd_def sample_config_def)
  have kernel: "text_of (wanted_line (cf_alloc sample_config) (cf_find sample_config [107] ''kernel''))
      = ''quiet '' @ value_text ''tz'' ''a'' @ value_text ''tz'' ''b''"
    by (simp add: wanted_line_def sample_config_def text_of_def)
  have roots: "root_ok (cf_find sample_config [107] ''kernel'')" "root_ok (cf_find sample_config [107] ''init'')"
    by (simp_all add: root_ok_def sample_config_def)
  have line: "boot_lines_ok sample_config ''bootconfig ro -- s''"
    by (simp add: boot_lines_ok_def sample_config_def)
  show ?thesis
    using config_reaches_command_line [of sample_config ?ird "[107]" "''bootconfig ro -- s''" "''ro''", OF _ _ _ _ _ roots line]
    by (simp add: data kernel) (simp add: sample_config_def, blast)
qed

lemma unknown_options_listed_witness:
  "\<exists>t. pass (unknown_bootoption sample_boot_env 2) [word_arg ''single''] (initial_arrays 2 blank_boot) = Done t
    \<and> print_unknown_bootoptions (\<lambda>n. True) t = Done
        (if boot_panics t \<or> (argv_init t ! 1 = None \<and> envp_init t ! 2 = None)
         then None else Some (map Some (pending_text t) @ [Some NUL]))"
  using unknown_options_listed [OF _ sample_table, of "[word_arg ''single'']" blank_boot "\<lambda>n. True"]
  by (simp add: arg_ok_def word_arg_def c_string_def)

end
