(* ===== verification/Boot_Machine.thy ===== *)
theory Boot_Machine
  imports Boot_Config
begin

text \<open>
  The calls of \<open>start_kernel\<close> in \<open>Practica1/linux-6.6.44/init/main.c\<close> that set up the other parts of the
  kernel, in the order of the code, with the interrupt flag of the boot processor,
  \<open>early_boot_irqs_disabled\<close>, the warnings and the messages. What an initialiser does to the
  interrupt flag is a parameter. The path of the command line between these calls is in \<open>Boot_Start\<close>.
\<close>

subsection \<open>The machine\<close>

text \<open>
  \<open>mc_trace\<close> holds each call with the two flags it was made with, \<open>mc_warnings\<close> what \<open>WARN\<close>
  printed, \<open>mc_log\<close> the messages of \<open>start_kernel\<close> itself.
\<close>

record boot_machine =
  irqs_off :: bool
  early_boot_irqs_disabled :: bool
  mc_trace :: "(string \<times> bool \<times> bool) list"
  mc_warnings :: "string list"
  mc_log :: "string list"

text \<open>
  \<open>me_irqs f\<close> is what the call \<open>f\<close> makes of the interrupt flag, \<open>me_register\<close> the result of
  registering a trace point, \<open>me_debug\<close> the option \<open>initcall_debug\<close>.
\<close>

record machine_env =
  me_irqs :: "string \<Rightarrow> bool \<Rightarrow> bool"
  me_banner :: string
  me_debug :: bool
  me_tracepoints :: bool
  me_register :: "string \<Rightarrow> int"
  me_late_time_init :: bool
  me_x86 :: bool
  me_efi_runtime :: bool

definition initialise :: "machine_env \<Rightarrow> string \<Rightarrow> boot_machine \<Rightarrow> boot_machine" where
  "initialise E f m =
     m\<lparr>mc_trace := mc_trace m @ [(f, irqs_off m, early_boot_irqs_disabled m)], irqs_off := me_irqs E f (irqs_off m)\<rparr>"

definition initialise_all :: "machine_env \<Rightarrow> string list \<Rightarrow> boot_machine \<Rightarrow> boot_machine" where
  "initialise_all E fs m = fold (initialise E) fs m"

definition say :: "string \<Rightarrow> boot_machine \<Rightarrow> boot_machine" where
  "say msg m = m\<lparr>mc_log := mc_log m @ [msg]\<rparr>"

definition warn_if :: "bool \<Rightarrow> string \<Rightarrow> boot_machine \<Rightarrow> boot_machine" where
  "warn_if cond msg m = (if cond then m\<lparr>mc_warnings := mc_warnings m @ [msg]\<rparr> else m)"

text \<open>Eight hexadecimal digits at least, as \<open>%08lx\<close>.\<close>

fun hex_text :: "nat \<Rightarrow> string" where
  "hex_text n = (let d = ''0123456789abcdef'' ! (n mod 16) in if n < 16 then [d] else hex_text (n div 16) @ [d])"

declare hex_text.simps [simp del]

definition padded_hex :: "nat \<Rightarrow> string" where
  "padded_hex n = replicate (8 - length (hex_text n)) CHR ''0'' @ hex_text n"

subsection \<open>The calls\<close>

definition first_calls :: "string list" where
  "first_calls =
     [''set_task_stack_end_magic'', ''smp_setup_processor_id'', ''debug_objects_early_init'', ''init_vmlinux_build_id'',
      ''cgroup_init_early'']"

text \<open>The source ends the message with a backslash and the letter n, not with a line end.\<close>

definition start_message :: "string" where
  "start_message = ''Bienvenido - Genesis Nahomi Aparicio Acan - Carnet: 202113293 '' @ [CHR 0x5C, CHR ''n'']"

definition start_first_calls :: "machine_env \<Rightarrow> boot_machine \<Rightarrow> boot_machine" where
  "start_first_calls E m =
     (let m = initialise_all E first_calls m;
          m = m\<lparr>irqs_off := True\<rparr>;
          m = m\<lparr>early_boot_irqs_disabled := True\<rparr>;
          m = initialise_all E [''boot_cpu_init'', ''page_address_init''] m
      in say start_message (say (me_banner E) m))"

definition processor_calls :: "string list" where
  "processor_calls =
     [''setup_nr_cpu_ids'', ''setup_per_cpu_areas'', ''smp_prepare_boot_cpu'', ''boot_cpu_hotplug_init'']"

definition memory_calls :: "string list" where
  "memory_calls =
     [''random_init_early'', ''setup_log_buf'', ''vfs_caches_init_early'', ''sort_main_extable'', ''trap_init'',
      ''mm_core_init'', ''poking_init'', ''ftrace_init'', ''early_trace_init'', ''sched_init'']"

text \<open>The scheduler is set up; interrupts that an initialiser has enabled are disabled again.\<close>

definition start_memory :: "machine_env \<Rightarrow> boot_machine \<Rightarrow> boot_machine" where
  "start_memory E m =
     (let m = initialise_all E memory_calls m
      in (warn_if (\<not> irqs_off m) ''Interrupts were enabled *very* early, fixing it'' m)\<lparr>irqs_off := True\<rparr>)"

text \<open>
  Without trace points the function is empty. The results are joined bitwise, so they are zero
  only if both are.
\<close>

definition initcall_debug_enable :: "machine_env \<Rightarrow> boot_machine \<Rightarrow> boot_machine" where
  "initcall_debug_enable E m =
     (if \<not> me_tracepoints E then m
      else
        (let m = initialise_all E [''register_trace_initcall_start'', ''register_trace_initcall_finish''] m;
             ret = or (me_register E ''initcall_start'') (me_register E ''initcall_finish'')
         in warn_if (ret \<noteq> 0) ''Failed to register initcall tracepoints'' m))"

definition early_scheduler_calls :: "string list" where
  "early_scheduler_calls =
     [''radix_tree_init'', ''maple_tree_init'', ''housekeeping_init'', ''workqueue_init_early'', ''rcu_init'', ''trace_init'']"

definition timer_calls :: "string list" where
  "timer_calls =
     [''context_tracking_init'', ''early_irq_init'', ''init_IRQ'', ''tick_init'', ''rcu_init_nohz'', ''init_timers'',
      ''srcu_init'', ''hrtimers_init'', ''softirq_init'', ''timekeeping_init'', ''time_init'', ''random_init'',
      ''kfence_init'', ''boot_init_stack_canary'', ''perf_event_init'', ''profile_init'', ''call_function_init'']"

definition start_interrupts :: "machine_env \<Rightarrow> boot_machine \<Rightarrow> boot_machine" where
  "start_interrupts E m =
     (let m = initialise_all E early_scheduler_calls m;
          m = (if me_debug E then initcall_debug_enable E m else m);
          m = initialise_all E timer_calls m;
          m = warn_if (\<not> irqs_off m) ''Interrupts were enabled early'' m
      in m\<lparr>early_boot_irqs_disabled := False, irqs_off := False\<rparr>)"

definition console_calls :: "string list" where
  "console_calls = [''kmem_cache_init_late'', ''console_init'']"

definition self_test_calls :: "string list" where
  "self_test_calls = [''lockdep_init'', ''locking_selftest'']"

definition late_calls :: "machine_env \<Rightarrow> string list" where
  "late_calls E =
     [''setup_per_cpu_pageset'', ''numa_policy_init'', ''acpi_early_init'']
     @ (if me_late_time_init E then [''late_time_init''] else [])
     @ [''sched_clock_init'', ''calibrate_delay'', ''arch_cpu_finalize_init'', ''pid_idr_init'', ''anon_vma_init'']
     @ (if me_x86 E \<and> me_efi_runtime E then [''efi_enter_virtual_mode''] else [])
     @ [''thread_stack_cache_init'', ''cred_init'', ''fork_init'', ''proc_caches_init'', ''uts_ns_init'', ''key_init'',
        ''security_init'', ''dbg_late_init'', ''net_ns_init'', ''vfs_caches_init'', ''pagecache_init'', ''signals_init'',
        ''seq_file_init'', ''proc_root_init'', ''nsfs_init'', ''cpuset_init'', ''cgroup_init'', ''taskstats_init_early'',
        ''delayacct_init'', ''acpi_subsystem_init'', ''arch_post_acpi_subsys_init'', ''kcsan_init'', ''arch_call_rest_init'']"

subsection \<open>The order of the calls\<close>

text \<open>The calls made while \<open>early_boot_irqs_disabled\<close> is set, and all calls of a start that succeeds.\<close>

definition command_line_calls :: "string list" where
  "command_line_calls =
     [''boot_cpu_init'', ''page_address_init'', ''early_security_init'', ''setup_arch'', ''setup_boot_config'',
      ''setup_command_line'']"

definition before_scheduler :: "string list" where
  "before_scheduler =
     command_line_calls @ processor_calls @ [''jump_label_init'', ''parse_early_param'', ''parse_args''] @ memory_calls"

definition after_scheduler :: "machine_env \<Rightarrow> string list" where
  "after_scheduler E =
     early_scheduler_calls
     @ (if me_debug E \<and> me_tracepoints E then [''register_trace_initcall_start'', ''register_trace_initcall_finish''] else [])
     @ timer_calls"

definition start_order :: "machine_env \<Rightarrow> string list" where
  "start_order E =
     first_calls @ before_scheduler @ after_scheduler E @ console_calls @ self_test_calls @ late_calls E"

fun entries :: "machine_env \<Rightarrow> string list \<Rightarrow> bool \<Rightarrow> bool \<Rightarrow> (string \<times> bool \<times> bool) list" where
  "entries E [] off early = []"
| "entries E (f # fs) off early = (f, off, early) # entries E fs (me_irqs E f off) early"

definition irqs_after :: "machine_env \<Rightarrow> string list \<Rightarrow> bool \<Rightarrow> bool" where
  "irqs_after E fs off = fold (me_irqs E) fs off"

lemma initialise_all_simps [simp]:
  "mc_trace (initialise_all E fs m) = mc_trace m @ entries E fs (irqs_off m) (early_boot_irqs_disabled m)"
  "early_boot_irqs_disabled (initialise_all E fs m) = early_boot_irqs_disabled m"
  "mc_warnings (initialise_all E fs m) = mc_warnings m" "mc_log (initialise_all E fs m) = mc_log m"
  "irqs_off (initialise_all E fs m) = irqs_after E fs (irqs_off m)"
  unfolding initialise_all_def irqs_after_def
  by (induction fs arbitrary: m) (simp_all add: initialise_def)

lemma say_simps [simp]:
  "mc_trace (say msg m) = mc_trace m" "irqs_off (say msg m) = irqs_off m" "mc_warnings (say msg m) = mc_warnings m"
  "early_boot_irqs_disabled (say msg m) = early_boot_irqs_disabled m" "mc_log (say msg m) = mc_log m @ [msg]"
  by (simp_all add: say_def)

lemma warn_simps [simp]:
  "mc_trace (warn_if c msg m) = mc_trace m" "irqs_off (warn_if c msg m) = irqs_off m"
  "mc_warnings (warn_if c msg m) = mc_warnings m @ (if c then [msg] else [])"
  "early_boot_irqs_disabled (warn_if c msg m) = early_boot_irqs_disabled m" "mc_log (warn_if c msg m) = mc_log m"
  by (simp_all add: warn_if_def)

lemma entries_names [simp]: "map fst (entries E fs off early) = fs"
  by (induction fs arbitrary: off) simp_all

lemma entries_append [simp]: "entries E (fs @ gs) off early = entries E fs off early @ entries E gs (irqs_after E fs off) early"
  by (induction fs arbitrary: off) (simp_all add: irqs_after_def)

text \<open>The initialisers that run with interrupts disabled leave them so.\<close>

definition keeps_off :: "machine_env \<Rightarrow> bool" where
  "keeps_off E \<longleftrightarrow> (\<forall>f. me_irqs E f True)"

lemma irqs_stay_off: "keeps_off E \<Longrightarrow> irqs_after E fs True"
  unfolding irqs_after_def by (induction fs) (simp_all add: keeps_off_def)

lemma entries_off: "keeps_off E \<Longrightarrow> (f, off, early) \<in> set (entries E fs True e) \<Longrightarrow> off"
  by (induction fs) (auto simp: keeps_off_def)

lemma entries_flag: "(f, off, early) \<in> set (entries E fs off' e) \<Longrightarrow> f \<in> set fs \<and> early = e"
  by (induction fs arbitrary: off') auto

lemma entries_first:
  "f \<notin> set fs \<Longrightarrow> (f, off, early) \<in> set (entries E (f # fs) off' e) \<Longrightarrow> off = off'"
  by (auto dest: entries_flag)

subsection \<open>The two parts around the command line\<close>

text \<open>What is called before the copies of the command line are made, and from there to the console.\<close>

definition until_command_line :: "machine_env \<Rightarrow> boot_machine \<Rightarrow> boot_machine" where
  "until_command_line E m =
     initialise_all E [''early_security_init'', ''setup_arch'', ''setup_boot_config'', ''setup_command_line'']
       (start_first_calls E m)"

definition until_console :: "machine_env \<Rightarrow> string \<Rightarrow> boot_machine \<Rightarrow> boot_machine" where
  "until_console E shown m =
     (let m = say (''Kernel command line: '' @ shown) (initialise_all E processor_calls m);
          m = initialise_all E [''jump_label_init'', ''parse_early_param'', ''parse_args''] m
      in initialise_all E console_calls (start_interrupts E (start_memory E m)))"

lemma debug_enable_simps [simp]:
  "early_boot_irqs_disabled (initcall_debug_enable E m) = early_boot_irqs_disabled m"
  "mc_log (initcall_debug_enable E m) = mc_log m"
  "irqs_off (initcall_debug_enable E m) = (if me_tracepoints E
     then irqs_after E [''register_trace_initcall_start'', ''register_trace_initcall_finish''] (irqs_off m) else irqs_off m)"
  "mc_trace (initcall_debug_enable E m) = mc_trace m @ (if me_tracepoints E
     then entries E [''register_trace_initcall_start'', ''register_trace_initcall_finish''] (irqs_off m)
            (early_boot_irqs_disabled m) else [])"
  "mc_warnings (initcall_debug_enable E m) = mc_warnings m @ (if me_tracepoints E
       \<and> or (me_register E ''initcall_start'') (me_register E ''initcall_finish'') \<noteq> 0
     then [''Failed to register initcall tracepoints''] else [])"
  by (simp_all add: initcall_debug_enable_def Let_def)

lemma irqs_after_append [simp]: "irqs_after E (fs @ gs) off = irqs_after E gs (irqs_after E fs off)"
  by (simp add: irqs_after_def)

lemma irqs_after_simps [simp]:
  "irqs_after E [] off = off" "irqs_after E (f # fs) off = irqs_after E fs (me_irqs E f off)"
  by (simp_all add: irqs_after_def)

lemma command_line_trace:
  "mc_trace (until_command_line E m) = mc_trace m @ entries E first_calls (irqs_off m) (early_boot_irqs_disabled m)
     @ entries E (command_line_calls) True True"
  "irqs_off (until_command_line E m) = irqs_after E (command_line_calls) True"
  "early_boot_irqs_disabled (until_command_line E m)"
  "mc_warnings (until_command_line E m) = mc_warnings m"
  "mc_log (until_command_line E m) = mc_log m @ [me_banner E, start_message]"
  by (simp_all add: until_command_line_def start_first_calls_def command_line_calls_def Let_def)

lemma console_trace:
  assumes "\<not> early_boot_irqs_disabled m"
  shows "mc_trace (until_console E shown (until_command_line E m)) =
    mc_trace m @ entries E first_calls (irqs_off m) False @ entries E before_scheduler True True
      @ entries E (after_scheduler E) True True @ entries E console_calls False False"
    and "\<not> early_boot_irqs_disabled (until_console E shown (until_command_line E m))"
    and "mc_log (until_console E shown (until_command_line E m)) =
      mc_log m @ [me_banner E, start_message, ''Kernel command line: '' @ shown]"
    and "mc_warnings (until_console E shown (until_command_line E m)) = mc_warnings m
      @ (if irqs_after E before_scheduler True then [] else [''Interrupts were enabled *very* early, fixing it''])
      @ (if me_debug E \<and> me_tracepoints E \<and> or (me_register E ''initcall_start'') (me_register E ''initcall_finish'') \<noteq> 0
         then [''Failed to register initcall tracepoints''] else [])
      @ (if irqs_after E (after_scheduler E) True then [] else [''Interrupts were enabled early''])"
  using assms
  by (simp_all add: until_console_def start_memory_def start_interrupts_def after_scheduler_def before_scheduler_def
      command_line_trace Let_def)

end
