(* ===== verification/Boot_Start.thy ===== *)
theory Boot_Start
  imports Boot_Machine
begin

text \<open>
  \<open>start_kernel\<close> in \<open>Practica1/linux-6.6.44/init/main.c\<close>: the initialisers of \<open>Boot_Machine\<close> and between
  them the command line (boot configuration, copies, early options, options, report, arguments of
  the first process, the panic the options have asked for). The tokeniser, the architecture's \<open>setup_arch\<close>
  and the page number of the ramdisk are parameters.
\<close>

subsection \<open>Early options\<close>

text \<open>The name and the value of an option as the tokeniser hands them over.\<close>

definition option_value :: "boot_arg \<Rightarrow> string option" where
  "option_value a = map_option (\<lambda>v. c_string (drop v (ba_buf a))) (ba_val a)"

definition parse_early_options :: "boot_env \<Rightarrow> boot_arg list \<Rightarrow> boot_state \<Rightarrow> boot_state" where
  "parse_early_options E args s =
     fold (\<lambda>a. do_early_param E (c_string (ba_buf a)) (option_value a) (be_setup E)) args s"

text \<open>
  What the boot depends on. \<open>st_parse\<close> splits a line into the options no kernel parameter
  takes and what follows two dashes (nothing after an error), \<open>st_early\<close> into all options;
  \<open>st_arch_line\<close> is the line \<open>setup_arch\<close> leaves, \<open>st_arch_early\<close> whether it has
  called \<open>parse_early_param\<close> already.
\<close>

record start_env =
  st_boot :: boot_env
  st_limit :: nat
  st_config :: config_env
  st_boot_line :: string
  st_arch_line :: string
  st_arch_early :: bool
  st_early :: "string \<Rightarrow> boot_arg list"
  st_parse :: "string \<Rightarrow> boot_arg list \<times> boot_arg list"
  st_extra :: "string \<Rightarrow> boot_arg list"
  st_below_ok :: bool
  st_pfn :: "addr \<Rightarrow> nat"
  st_min_low_pfn :: nat
  st_machine :: machine_env

text \<open>The static flag \<open>done\<close> is part of the state.\<close>

definition parse_early_param :: "start_env \<Rightarrow> bool \<times> boot_state \<Rightarrow> bool \<times> boot_state" where
  "parse_early_param B = (\<lambda>(fin, s).
     if fin then (fin, s)
     else (True, parse_early_options (st_boot B)
            (st_early B (take (cf_line_size (st_config B) - 1) (st_boot_line B))) s))"

subsection \<open>The start\<close>

text \<open>A ramdisk that lies below the memory the kernel manages is given up.\<close>

definition check_initrd :: "start_env \<Rightarrow> initrd \<Rightarrow> boot_machine \<Rightarrow> initrd \<times> boot_machine" where
  "check_initrd B ird m =
     (let pfn = st_pfn B (ird_start ird) in
      if ird_start ird \<noteq> 0 \<and> \<not> st_below_ok B \<and> pfn < st_min_low_pfn B
      then (ird\<lparr>ird_start := 0\<rparr>,
            say (''initrd overwritten (0x'' @ padded_hex pfn @ '' < 0x'' @ padded_hex (st_min_low_pfn B)
                   @ '') - disabling it.'') m)
      else (ird, m))"

text \<open>What the kernel keeps: the boot state, the saved line, the report and the ramdisk.\<close>

record started =
  sd_state :: boot_state
  sd_saved :: cbuf
  sd_report :: "cbuf option"
  sd_initrd :: initrd

text \<open>\<open>Inl\<close> is a panic.\<close>

definition collect_options :: "start_env \<Rightarrow> config_state \<Rightarrow> string \<Rightarrow> boot_state \<Rightarrow> (boot_state \<times> cbuf option) outcome" where
  "collect_options B cfg line s =
     (let E = st_boot B; M = st_limit B; (options, after_dashes) = st_parse B line;
          extra = (case Option.bind (extra_init_args cfg) cstr of None \<Rightarrow> [] | Some t \<Rightarrow> st_extra B t)
      in and_then (pass (unknown_bootoption E M) options s) (\<lambda>s.
         and_then (print_unknown_bootoptions (cf_alloc (st_config B)) s) (\<lambda>report.
         and_then (pass (set_init_arg M) after_dashes s) (\<lambda>s.
         and_then (pass (set_init_arg M) extra s) (\<lambda>s. Done (s, report))))))"

definition too_many_vars :: "string \<times> string \<Rightarrow> string" where
  "too_many_vars = (\<lambda>(panic_later, panic_param). ''Too many boot '' @ panic_later @ '' vars at `'' @ panic_param @ [CHR 0x27])"

definition start_kernel ::
  "start_env \<Rightarrow> initrd \<Rightarrow> boot_state \<Rightarrow> boot_machine \<Rightarrow> ((string + started) \<times> boot_machine) outcome" where
  "start_kernel B ird0 s0 m =
     (let C = st_config B; E = st_machine B;
          m = until_command_line E m;
          (fin, s) = (if st_arch_early B then parse_early_param B (False, initial_arrays (st_limit B) s0)
                      else (False, initial_arrays (st_limit B) s0))
      in and_then (setup_boot_config C (st_boot_line B) ird0 blank_config) (\<lambda>(cfg, ird).
         and_then (setup_command_line (config_lines (cf_alloc C) (st_boot_line B) cfg) (st_arch_line B)) (\<lambda>lines.
         case lines of
           Inl msg \<Rightarrow> Done (Inl msg, m)
         | Inr (saved, static, len) \<Rightarrow>
             (let (fin, s) = parse_early_param B (fin, s) in
              case (cstr saved, cstr static) of
                (Some shown, Some line) \<Rightarrow>
                  and_then (collect_options B cfg line s) (\<lambda>(s, report).
                  let m = until_console E shown m in
                  case bs_panic_later s of
                    Some later \<Rightarrow> Done (Inl (too_many_vars later), m)
                  | None \<Rightarrow>
                      (let (ird, m) = check_initrd B ird (initialise_all E self_test_calls m);
                           m = initialise_all E (late_calls E) m
                       in Done (Inr \<lparr>sd_state = s, sd_saved = saved, sd_report = report, sd_initrd = ird\<rparr>, m)))
              | _ \<Rightarrow> Oops))))"

subsection \<open>Early options take effect once\<close>

lemma early_idempotent: "parse_early_param B (parse_early_param B p) = parse_early_param B p"
  by (cases p) (simp add: parse_early_param_def)

text \<open>C38: the early options take effect exactly once: whether or not the architecture has handled
  them before, and whatever they are, the boot goes on with the same state.\<close>
theorem early_options_once:
  "start_kernel (B\<lparr>st_arch_early := True\<rparr>) ird s m = start_kernel (B\<lparr>st_arch_early := False\<rparr>) ird s m"
proof -
  have [simp]: "parse_early_param (B\<lparr>st_arch_early := b\<rparr>) = parse_early_param B"
    "collect_options (B\<lparr>st_arch_early := b\<rparr>) = collect_options B"
    "check_initrd (B\<lparr>st_arch_early := b\<rparr>) = check_initrd B" for b
    by (simp_all add: parse_early_param_def collect_options_def check_initrd_def fun_eq_iff split_beta Let_def
        cong: option.case_cong)
  obtain fin t where t: "parse_early_param B (False, initial_arrays (st_limit B) s) = (fin, t)" by fastforce
  then have "parse_early_param B (fin, t) = (fin, t)"
    using early_idempotent [of B "(False, initial_arrays (st_limit B) s)"] by simp
  then show ?thesis
    by (simp add: start_kernel_def t Let_def split_beta cong: sum.case_cong option.case_cong prod.case_cong if_cong)
qed

subsection \<open>The start never oopses\<close>

text \<open>With any answers of the allocator: a panic or complete copies.\<close>

lemma setup_command_line_total:
  assumes "ln_initargs_offs L \<le> length (ln_boot_command_line L)"
    and "NUL \<notin> set (text_of (ln_extra_command_line L))" and "NUL \<notin> set (text_of (ln_extra_init_args L))"
    and "NUL \<notin> set (ln_boot_command_line L)" and "NUL \<notin> set command_line"
  shows "(\<exists>msg. setup_command_line L command_line = Done (Inl msg)) \<or>
    (\<exists>saved static n. setup_command_line L command_line = Done (Inr (saved, static, n))
      \<and> cstr saved = Some (saved_text L) \<and> cstr static = Some (text_of (ln_extra_command_line L) @ command_line))"
proof -
  let ?L = "L\<lparr>ln_alloc := \<lambda>n. True\<rparr>"
  have same: "append_init_args ?L = append_init_args L"
    by (rule ext, cases "ln_extra_init_args L") (simp_all add: append_init_args_def Let_def)
  have "\<exists>saved static. setup_command_line ?L command_line = Done (Inr (saved, static, length (saved_text ?L)))
    \<and> cstr saved = Some (saved_text ?L)
    \<and> cstr static = Some (text_of (ln_extra_command_line ?L) @ command_line)"
    using assms by (intro command_line_copies_fit saved_text_no_nul) simp_all
  moreover have "(\<exists>msg. setup_command_line L command_line = Done (Inl msg))
      \<or> setup_command_line L command_line = setup_command_line ?L command_line"
    by (simp add: setup_command_line_def Let_def same)
  moreover have "saved_text ?L = saved_text L"
    by (cases "ln_extra_init_args L") (simp_all add: saved_text_def Let_def)
  ultimately show ?thesis by auto
qed

text \<open>
  What the boot relies on: the tokeniser puts a value one or two characters behind its name
  and the dashes inside the line, the configuration reports errors as negative numbers, and no line
  holds a null character.
\<close>

definition sound_start :: "start_env \<Rightarrow> bool" where
  "sound_start B \<longleftrightarrow> 0 < st_limit B \<and> setup_functions (be_setup (st_boot B)) (boot_inv (st_limit B))
     \<and> (\<forall>l. list_all arg_ok (fst (st_parse B l)) \<and> list_all arg_ok (snd (st_parse B l)) \<and> list_all arg_ok (st_extra B l))
     \<and> (\<forall>d key. root_ok (cf_find (st_config B) d key))
     \<and> boot_lines_ok (st_config B) (st_boot_line B) \<and> NUL \<notin> set (st_arch_line B)"

lemma setup_boot_config_total:
  assumes "\<And>d key. root_ok (cf_find C d key)" and "boot_lines_ok C line"
  shows "\<exists>cfg ird'. setup_boot_config C line ird blank_config = Done (cfg, ird')
    \<and> initargs_offs cfg \<le> length line
    \<and> NUL \<notin> set (text_of (Option.bind (extra_command_line cfg) cstr))
    \<and> NUL \<notin> set (text_of (Option.bind (extra_init_args cfg) cstr))"
proof -
  obtain data ird' where data: "config_data C ird = (data, ird')" by fastforce
  obtain params err where parse: "cf_parse C (take (cf_line_size C - 1) line) = (params, err)" by fastforce
  have make: "\<exists>r. xbc_make_cmdline (cf_alloc C) (cf_find C d key) = Done r \<and> NUL \<notin> set (text_of (Option.bind r cstr))"
    for d key
    using make_cmdline_complete [OF assms(1), of "cf_alloc C" d key] wanted_no_nul [OF assms(1)] by fastforce
  have offs: "err = After_dashes off \<Longrightarrow> off \<le> length line" for off
    using assms(2) by (simp add: boot_lines_ok_def parse del: One_nat_def)
  show ?thesis
  proof (cases "data")
    case None
    then show ?thesis using offs
      by (cases err) (auto simp: setup_boot_config_def data parse params_found blank_config_def text_of_def Let_def
          simp del: One_nat_def)
  next
    case (Some d)
    obtain l where l: "xbc_make_cmdline (cf_alloc C) (cf_find C d ''kernel'') = Done l" "NUL \<notin> set (text_of (Option.bind l cstr))"
      using make by blast
    obtain a where a: "xbc_make_cmdline (cf_alloc C) (cf_find C d ''init'') = Done a" "NUL \<notin> set (text_of (Option.bind a cstr))"
      using make by blast
    have "text_of (Option.bind None cstr) = []" by (simp add: text_of_def)
    then show ?thesis using offs Some l a
      by (cases err) (auto simp: setup_boot_config_def data parse params_found blank_config_def Let_def
          simp del: One_nat_def)
  qed
qed

lemma early_options_keep:
  fixes K :: "boot_state \<Rightarrow> bool"
  assumes "setup_functions (be_setup E) K" and "K s"
  shows "K (parse_early_options E args s)"
  unfolding parse_early_options_def
  using assms(2) by (induction args arbitrary: s) (simp_all add: setup_functions.early_keeps_sub [OF assms(1)])

lemma early_param_keeps:
  fixes K :: "boot_state \<Rightarrow> bool"
  assumes "setup_functions (be_setup (st_boot B)) K" and "K s" and "parse_early_param B (b, s) = (b', t)"
  shows "K t"
  using assms early_options_keep [OF assms(1)] by (auto simp: parse_early_param_def split: if_splits)

lemma collect_options_total:
  assumes "sound_start B" and "boot_inv (st_limit B) s"
  shows "\<exists>t report. collect_options B cfg line s = Done (t, report) \<and> boot_inv (st_limit B) t"
proof -
  let ?E = "st_boot B" and ?M = "st_limit B"
  have ok: "0 < ?M" "setup_functions (be_setup ?E) (boot_inv ?M)"
    "list_all arg_ok (fst (st_parse B l))" "list_all arg_ok (snd (st_parse B l))" "list_all arg_ok (st_extra B l)" for l
    using assms(1) by (simp_all add: sound_start_def)
  let ?extra = "case Option.bind (extra_init_args cfg) cstr of None \<Rightarrow> [] | Some t \<Rightarrow> st_extra B t"
  have extra: "list_all arg_ok ?extra" using ok(5) by (simp split: option.split)
  obtain t where t: "pass (unknown_bootoption ?E ?M) (fst (st_parse B line)) s = Done t" "boot_inv ?M t"
    using pass_keeps [of ?M "unknown_bootoption ?E ?M" _ s, OF unknown_keeps [OF ok(2)] ok(3) assms(2)] by blast
  obtain u where u: "pass (set_init_arg ?M) (snd (st_parse B line)) t = Done u" "boot_inv ?M u"
    using pass_keeps [of ?M "set_init_arg ?M" _ t, OF init_arg_keeps ok(4) t(2)] by blast
  obtain v where v: "pass (set_init_arg ?M) ?extra u = Done v" "boot_inv ?M v"
    using pass_keeps [of ?M "set_init_arg ?M" _ u, OF init_arg_keeps extra u(2)] by blast
  obtain report where "print_unknown_bootoptions (cf_alloc (st_config B)) t = Done report"
    using print_unknown_exact [OF t(2) ok(1)] by blast
  then show ?thesis using t(1) u(1) v
    by (simp add: collect_options_def split_beta Let_def)
qed

text \<open>What \<open>kernel_execve\<close> relies on.\<close>

definition arrays_terminated :: "nat \<Rightarrow> boot_state \<Rightarrow> bool" where
  "arrays_terminated M s \<longleftrightarrow> length (argv_init s) = M + 2 \<and> length (envp_init s) = M + 2
     \<and> argv_init s ! (M + 1) = None \<and> envp_init s ! (M + 1) = None"

lemma start_kernel_total:
  assumes "sound_start B"
  shows "\<exists>r m'. start_kernel B ird s m = Done (r, m')
    \<and> (case r of Inl msg \<Rightarrow> True | Inr k \<Rightarrow> arrays_terminated (st_limit B) (sd_state k) \<and> \<not> boot_panics (sd_state k))"
proof -
  let ?M = "st_limit B" and ?C = "st_config B"
  have ok: "setup_functions (be_setup (st_boot B)) (boot_inv ?M)" "boot_lines_ok ?C (st_boot_line B)"
    "NUL \<notin> set (st_arch_line B)" "0 < ?M" "root_ok (cf_find ?C d key)" for d key
    using assms by (simp_all add: sound_start_def)
  obtain b t where t: "(if st_arch_early B then parse_early_param B (False, initial_arrays ?M s)
      else (False, initial_arrays ?M s)) = (b, t)" by fastforce
  then have t_inv: "boot_inv ?M t"
    using early_param_keeps [OF ok(1) initial_inv [OF ok(4)]] initial_inv [OF ok(4), of s] by (auto split: if_splits)
  obtain cfg ird' where cfg: "setup_boot_config ?C (st_boot_line B) ird blank_config = Done (cfg, ird')"
    "initargs_offs cfg \<le> length (st_boot_line B)"
    "NUL \<notin> set (text_of (Option.bind (extra_command_line cfg) cstr))"
    "NUL \<notin> set (text_of (Option.bind (extra_init_args cfg) cstr))"
    using setup_boot_config_total [OF ok(5,2)] by blast
  let ?L = "config_lines (cf_alloc ?C) (st_boot_line B) cfg"
  have lines: "(\<exists>msg. setup_command_line ?L (st_arch_line B) = Done (Inl msg)) \<or>
    (\<exists>saved static n. setup_command_line ?L (st_arch_line B) = Done (Inr (saved, static, n))
      \<and> cstr saved = Some (saved_text ?L) \<and> cstr static = Some (text_of (ln_extra_command_line ?L) @ st_arch_line B))"
    using cfg(2-4) ok(2,3) by (intro setup_command_line_total) (simp_all add: config_lines_def boot_lines_ok_def)
  obtain b' u where u: "parse_early_param B (b, t) = (b', u)" by fastforce
  have u_inv: "boot_inv ?M u" by (rule early_param_keeps [OF ok(1) t_inv u])
  from lines show ?thesis
  proof (elim disjE exE conjE)
    fix msg assume "setup_command_line ?L (st_arch_line B) = Done (Inl msg)"
    then show ?thesis by (simp add: start_kernel_def t cfg(1) Let_def)
  next
    fix saved static n
    assume copy: "setup_command_line ?L (st_arch_line B) = Done (Inr (saved, static, n))" "cstr saved = Some (saved_text ?L)"
      "cstr static = Some (text_of (ln_extra_command_line ?L) @ st_arch_line B)"
    obtain v report where v: "collect_options B cfg (text_of (ln_extra_command_line ?L) @ st_arch_line B) u = Done (v, report)"
      "boot_inv ?M v"
      using collect_options_total [OF assms u_inv] by blast
    have "bs_panic_later v = None \<Longrightarrow> arrays_terminated ?M v \<and> \<not> boot_panics v"
      using v(2) by (simp add: boot_inv_def boot_panics_def arrays_terminated_def)
    then show ?thesis
      by (cases "bs_panic_later v") (simp_all add: start_kernel_def t cfg(1) copy u v(1) Let_def split_beta)
  qed
qed

subsection \<open>The order of the start\<close>

lemma and_then_Done: "and_then x f = Done y \<longleftrightarrow> (\<exists>z. x = Done z \<and> f z = Done y)"
  by (cases x) simp_all

text \<open>The machine a start leaves, by the way it ended.\<close>

lemma start_kernel_machine:
  assumes "start_kernel B ird s m = Done (r, m')"
  obtains (Copies) msg where "r = Inl msg" and "m' = until_command_line (st_machine B) m"
  | (Options) shown later where "r = Inl (too_many_vars later)"
      and "m' = until_console (st_machine B) shown (until_command_line (st_machine B) m)"
  | (Started) k shown ird' where "r = Inr k" and "cstr (sd_saved k) = Some shown"
      and "m' = initialise_all (st_machine B) (late_calls (st_machine B)) (snd (check_initrd B ird'
             (initialise_all (st_machine B) self_test_calls
               (until_console (st_machine B) shown (until_command_line (st_machine B) m)))))"
proof -
  from assms show thesis
    unfolding start_kernel_def Let_def split_beta and_then_Done
    by (elim exE conjE) (auto split: sum.split_asm option.split_asm simp: and_then_Done Let_def intro: that)
qed

lemma check_initrd_machine [simp]:
  "mc_trace (snd (check_initrd B ird m)) = mc_trace m" "irqs_off (snd (check_initrd B ird m)) = irqs_off m"
  "early_boot_irqs_disabled (snd (check_initrd B ird m)) = early_boot_irqs_disabled m"
  "mc_warnings (snd (check_initrd B ird m)) = mc_warnings m"
  by (simp_all add: check_initrd_def Let_def)

text \<open>Before the start; the interrupt flag is what the loader left.\<close>

definition power_on :: "bool \<Rightarrow> boot_machine" where
  "power_on off =
     \<lparr>irqs_off = off, early_boot_irqs_disabled = False, mc_trace = [], mc_warnings = [], mc_log = []\<rparr>"

text \<open>The calls made while \<open>early_boot_irqs_disabled\<close> was set.\<close>

definition early_part :: "boot_machine \<Rightarrow> string list" where
  "early_part m = map fst (filter (\<lambda>(f, off, early). early) (mc_trace m))"

lemma early_entries [simp]:
  "filter (\<lambda>(f, off, early). early) (entries E fs off True) = entries E fs off True"
  "filter (\<lambda>(f, off, early). early) (entries E fs off False) = []"
  by (induction fs arbitrary: off) simp_all

text \<open>The interrupt flag at some of the calls: it is known where the code has just set it.\<close>

definition irqs_as_set :: "machine_env \<Rightarrow> string \<times> bool \<times> bool \<Rightarrow> bool" where
  "irqs_as_set E = (\<lambda>(f, off, early).
     (f = ''boot_cpu_init'' \<longrightarrow> off) \<and> (f = ''radix_tree_init'' \<longrightarrow> off) \<and> (f = ''kmem_cache_init_late'' \<longrightarrow> \<not> off)
     \<and> (keeps_off E \<and> early \<longrightarrow> off))"

lemma other_calls:
  assumes "\<not> list_ex (\<lambda>f. f \<in> {''boot_cpu_init'', ''radix_tree_init'', ''kmem_cache_init_late''}) fs"
    and "e \<Longrightarrow> keeps_off E \<Longrightarrow> off"
  shows "list_all (irqs_as_set E) (entries E fs off e)"
  unfolding list_all_iff
proof
  fix x assume x: "x \<in> set (entries E fs off e)"
  obtain f o' e' where f: "x = (f, o', e')" by (cases x) auto
  have "f \<in> set fs" "e' = e" using entries_flag x f by auto
  moreover have "e \<Longrightarrow> keeps_off E \<Longrightarrow> o'" using entries_off [of E f o' e' fs e] assms(2) x f by simp
  ultimately show "irqs_as_set E x" using assms(1) f by (auto simp: irqs_as_set_def list_ex_iff)
qed

lemma initrd_log: "\<exists>more. mc_log (snd (check_initrd B ird m)) = mc_log m @ more"
  by (simp add: check_initrd_def Let_def)

lemma known_calls:
  "list_all (irqs_as_set E) (entries E first_calls off False)"
  "list_all (irqs_as_set E) (entries E command_line_calls True True)"
  "list_all (irqs_as_set E) (entries E before_scheduler True True)"
  "list_all (irqs_as_set E) (entries E (after_scheduler E) True True)"
  "list_all (irqs_as_set E) (entries E console_calls False False)"
  "list_all (irqs_as_set E) (entries E (self_test_calls @ late_calls E) off False)"
proof -
  show "list_all (irqs_as_set E) (entries E first_calls off False)"
    by (rule other_calls) (simp_all add: first_calls_def)
  show "list_all (irqs_as_set E) (entries E (self_test_calls @ late_calls E) off False)"
    by (rule other_calls) (simp_all add: self_test_calls_def late_calls_def)
  have head: "irqs_as_set E (f, True, True)" if "f \<noteq> ''kmem_cache_init_late''" for f
    using that by (simp add: irqs_as_set_def)
  have tail: "list_all (irqs_as_set E) (entries E fs (me_irqs E f True) True)"
    if "\<not> list_ex (\<lambda>f. f \<in> {''boot_cpu_init'', ''radix_tree_init'', ''kmem_cache_init_late''}) fs" for f fs
    using that by (rule other_calls) (simp add: keeps_off_def)
  show before: "list_all (irqs_as_set E) (entries E before_scheduler True True)"
    using head [of "''boot_cpu_init''"] tail [of "tl before_scheduler" "''boot_cpu_init''"]
    by (simp add: before_scheduler_def command_line_calls_def processor_calls_def memory_calls_def del: entries_append)
  then show "list_all (irqs_as_set E) (entries E command_line_calls True True)"
    by (simp add: before_scheduler_def)
  show "list_all (irqs_as_set E) (entries E (after_scheduler E) True True)"
    using head [of "''radix_tree_init''"] tail [of "tl (after_scheduler E)" "''radix_tree_init''"]
    by (simp add: after_scheduler_def early_scheduler_calls_def timer_calls_def del: entries_append)
  show "list_all (irqs_as_set E) (entries E console_calls False False)"
    using other_calls [of "tl console_calls" False E "me_irqs E ''kmem_cache_init_late'' False"]
    by (simp add: console_calls_def irqs_as_set_def)
qed


text \<open>Application of the theorems.\<close>

definition sample_machine :: machine_env where
  "sample_machine = \<lparr>me_irqs = (\<lambda>f off. off \<and> f \<noteq> ''early_irq_init''), me_banner = ''Linux'', me_debug = True,
     me_tracepoints = True, me_register = (\<lambda>f. 0), me_late_time_init = True, me_x86 = True, me_efi_runtime = False\<rparr>"

definition sample_start :: start_env where
  "sample_start = \<lparr>st_boot = sample_boot_env, st_limit = 2, st_config = sample_config,
     st_boot_line = ''bootconfig ro -- s'', st_arch_line = ''ro'', st_arch_early = True,
     st_early = (\<lambda>l. [word_arg ''quiet'']), st_parse = (\<lambda>l. ([word_arg ''single''], [word_arg ''-b''])),
     st_extra = (\<lambda>l. [word_arg ''splash'']), st_below_ok = False, st_pfn = (\<lambda>a. 0), st_min_low_pfn = 1,
     st_machine = sample_machine\<rparr>"

definition no_initrd :: initrd where
  "no_initrd = \<lparr>ird_mem = (\<lambda>a. 0), ird_start = 0, ird_end = 0\<rparr>"

lemma sample_start_sound: "sound_start sample_start"
  using sample_table
  by (simp add: sound_start_def sample_start_def arg_ok_def word_arg_def c_string_def root_ok_def sample_config_def
      boot_lines_ok_def)


end
