(* ===== verification/Boot_Sequence.thy ===== *)
theory Boot_Sequence
  imports Boot_Start
begin

text \<open>
  The end of the boot in \<open>Practica1/linux-6.6.44/init/main.c\<close> as the threads it consists of: the
  boot thread in \<open>rest_init\<close>, the first process in \<open>kernel_init\<close> and the asynchronous
  functions the initcalls schedule. Each thread is a function from its program counter to the
  next state; the scheduler is arbitrary, so the boot is a relation. The creation of threads, the
  constructors, the initcalls and \<open>kernel_execve\<close> are parameters. A step that uses
  initialisation code or data after it was freed, and one that creates a kernel thread before
  \<open>kthreadd\<close> is known, is recorded as an oops.
\<close>

subsection \<open>States\<close>

datatype system_states = SYSTEM_BOOTING | SYSTEM_SCHEDULING | SYSTEM_FREEING_INITMEM | SYSTEM_RUNNING

text \<open>
  The first state and those the file sets, numbered in the order in which the boot is to go
  through them.
\<close>

fun state_rank :: "system_states \<Rightarrow> nat" where
  "state_rank SYSTEM_BOOTING = 0"
| "state_rank SYSTEM_SCHEDULING = 1"
| "state_rank SYSTEM_FREEING_INITMEM = 2"
| "state_rank SYSTEM_RUNNING = 3"

lemma state_rank_inj: "state_rank a = state_rank b \<Longrightarrow> a = b"
  by (cases a; cases b) simp_all

instantiation system_states :: linorder
begin

definition less_eq_system_states :: "system_states \<Rightarrow> system_states \<Rightarrow> bool" where
  "less_eq_system_states a b \<longleftrightarrow> state_rank a \<le> state_rank b"

definition less_system_states :: "system_states \<Rightarrow> system_states \<Rightarrow> bool" where
  "less_system_states a b \<longleftrightarrow> state_rank a < state_rank b"

instance
  by intro_classes (auto simp: less_eq_system_states_def less_system_states_def intro: state_rank_inj)

end

datatype rest_pc = Spawn_init | Pin_init | Spawn_kthreadd | Find_kthreadd | Set_scheduling | Complete_done | Idle

text \<open>What a step asks of the rest of the kernel, and what it prints.\<close>

datatype boot_event = Call_to string | Prints string

text \<open>The configurations \<open>mark_readonly\<close> distinguishes.\<close>

datatype rwx_config = Strict_rwx | Selectable_rwx | Without_rwx

text \<open>\<open>Failed_alloc\<close> is the panic of \<open>do_initcalls\<close>, \<open>Ended\<close> the end of \<open>kernel_init\<close>.\<close>

datatype init_pc =
    Unborn | Wait_kthreadd | Workqueues | Pre_smp "nat list" | Basic_setup
  | Next_level nat | In_level nat "nat list" | Failed_alloc | Console | Early_program | Async_sync
  | Set_freeing | Free_initmem | Mark_readonly | Set_running | Run_init | Ended init_end

record boot_seq =
  bq_rest :: rest_pc
  bq_pid :: int
  bq_init :: init_pc
  bq_pinned :: bool
  kthreadd_task :: "int option"
  system_state :: system_states
  kthreadd_done :: nat
  bq_initmem :: bool
  bq_rodata :: bool
  bq_async :: "nat list"
  bq_ctors :: "nat list"
  bq_fds :: "string list"
  bq_ic :: ic_state
  bq_boot :: boot_state
  bq_oops :: bool
  bq_blocking :: bool
  cad_pid :: "int option"
  bq_events :: "boot_event list"

record seq_env =
  sq_init_pid :: int
  sq_kthreadd_pid :: int
  sq_ic :: ic_env
  sq_init :: init_env
  sq_async :: "nat \<Rightarrow> nat list"
  sq_ctors :: "nat list"
  sq_console :: bool
  sq_rwx :: rwx_config

subsection \<open>The boot thread\<close>

text \<open>A creation that failed returned a negative number, which names no task.\<close>

definition find_task_by_pid_ns :: "int \<Rightarrow> int option" where
  "find_task_by_pid_ns pid = (if 0 < pid then Some pid else None)"

definition touch_initmem :: "boot_seq \<Rightarrow> boot_seq" where
  "touch_initmem s = s\<lparr>bq_oops := bq_oops s \<or> \<not> bq_initmem s\<rparr>"

definition events :: "boot_event list \<Rightarrow> boot_seq \<Rightarrow> boot_seq" where
  "events es s = s\<lparr>bq_events := bq_events s @ es\<rparr>"

definition calls :: "string list \<Rightarrow> boot_seq \<Rightarrow> boot_seq" where
  "calls fs = events (map Call_to fs)"

text \<open>\<open>None\<close>: the thread cannot move. The completion \<open>kthreadd_done\<close> is initialisation data.\<close>

definition rest_init :: "seq_env \<Rightarrow> boot_seq \<Rightarrow> boot_seq option" where
  "rest_init E s =
     (case bq_rest s of
        Spawn_init \<Rightarrow>
          Some ((calls [''rcu_scheduler_starting''] s)\<lparr>bq_pid := sq_init_pid E, bq_rest := Pin_init,
                  bq_init := (if 0 < sq_init_pid E then Wait_kthreadd else Unborn)\<rparr>)
      | Pin_init \<Rightarrow>
          (case find_task_by_pid_ns (bq_pid s) of
             None \<Rightarrow> Some (s\<lparr>bq_oops := True\<rparr>)
           | Some tsk \<Rightarrow> Some (s\<lparr>bq_pinned := True, bq_rest := Spawn_kthreadd\<rparr>))
      | Spawn_kthreadd \<Rightarrow>
          Some ((calls [''numa_default_policy''] s)\<lparr>bq_pid := sq_kthreadd_pid E, bq_rest := Find_kthreadd\<rparr>)
      | Find_kthreadd \<Rightarrow> Some (s\<lparr>kthreadd_task := find_task_by_pid_ns (bq_pid s), bq_rest := Set_scheduling\<rparr>)
      | Set_scheduling \<Rightarrow> Some (s\<lparr>system_state := SYSTEM_SCHEDULING, bq_rest := Complete_done\<rparr>)
      | Complete_done \<Rightarrow> Some (touch_initmem (s\<lparr>kthreadd_done := Suc (kthreadd_done s), bq_rest := Idle\<rparr>))
      | Idle \<Rightarrow> None)"

subsection \<open>The first process\<close>

definition do_ctors :: "seq_env \<Rightarrow> boot_seq \<Rightarrow> boot_seq" where
  "do_ctors E s = s\<lparr>bq_ctors := bq_ctors s @ sq_ctors E\<rparr>"

definition console_on_rootfs :: "seq_env \<Rightarrow> boot_seq \<Rightarrow> boot_seq" where
  "console_on_rootfs E s =
     (if \<not> sq_console E then events [Prints ''Warning: unable to open an initial console.''] s
      else s\<lparr>bq_fds := bq_fds s @ [''/dev/console'', ''/dev/console'', ''/dev/console'']\<rparr>)"

definition mark_readonly :: "seq_env \<Rightarrow> boot_seq \<Rightarrow> boot_seq" where
  "mark_readonly E s =
     (case sq_rwx E of
        Strict_rwx \<Rightarrow>
          if rodata_enabled (bq_boot s)
          then (calls [''flush_module_init_free_work'', ''mark_rodata_ro'', ''rodata_test''] s)\<lparr>bq_rodata := True\<rparr>
          else events [Prints ''Kernel memory protection disabled.''] s
      | Selectable_rwx \<Rightarrow> events [Prints ''Kernel memory protection not selected by kernel config.''] s
      | Without_rwx \<Rightarrow> events [Prints ''This architecture does not have kernel memory protection.''] s)"

definition free_initmem :: "boot_seq \<Rightarrow> boot_seq" where
  "free_initmem s = (calls [''free_initmem_default''] s)\<lparr>bq_initmem := False\<rparr>"

text \<open>One initcall; those that run leave their asynchronous functions behind.\<close>

definition seq_initcall :: "seq_env \<Rightarrow> nat \<Rightarrow> boot_seq \<Rightarrow> boot_seq" where
  "seq_initcall E fn s =
     (let bl = blacklisted_initcalls (bq_boot s);
          later = (if initcall_blacklisted (sq_ic E) bl fn then [] else sq_async E fn)
      in (touch_initmem s)\<lparr>bq_ic := snd (do_one_initcall (sq_ic E) bl fn (bq_ic s)), bq_async := bq_async s @ later\<rparr>)"

text \<open>
  \<open>do_basic_setup\<close> up to the copy of the command line, and the start of a level. The thread
  cannot move while it waits for the completion or for asynchronous functions.
\<close>

definition do_basic_setup :: "seq_env \<Rightarrow> boot_seq \<Rightarrow> boot_seq" where
  "do_basic_setup E s =
     (let s = do_ctors E (calls [''cpuset_init_smp'', ''driver_init'', ''init_irq_proc''] (touch_initmem s))
      in if \<not> ie_alloc (sq_ic E) then s\<lparr>bq_init := Failed_alloc\<rparr> else s\<lparr>bq_init := Next_level 0\<rparr>)"

definition next_level :: "seq_env \<Rightarrow> nat \<Rightarrow> boot_seq \<Rightarrow> boot_seq" where
  "next_level E l s =
     (if l < length (ie_levels (sq_ic E))
      then (touch_initmem s)\<lparr>bq_ic := (bq_ic s)\<lparr>ic_log := ic_log (bq_ic s) @ [Parsed (initcall_level_names ! l)]\<rparr>,
              bq_init := In_level l (ie_levels (sq_ic E) ! l)\<rparr>
      else s\<lparr>bq_init := Console\<rparr>)"

text \<open>The calls of \<open>kernel_init_freeable\<close> and \<open>kernel_init\<close> between these, in the order of the code.\<close>

definition before_early_initcalls :: "string list" where
  "before_early_initcalls =
     [''set_mems_allowed'', ''get_pid'', ''smp_prepare_cpus'', ''workqueue_init'', ''init_mm_internals'', ''rcu_init_tasks_generic'']"

definition after_early_initcalls :: "string list" where
  "after_early_initcalls =
     [''lockup_detector_init'', ''smp_init'', ''sched_init_smp'', ''workqueue_init_topology'', ''padata_init'',
      ''page_alloc_init_late'']"

definition prepare_root :: "init_env \<Rightarrow> boot_state \<Rightarrow> string list" where
  "prepare_root I b = (if in_eaccess I (ramdisk_execute_command b) \<noteq> 0 then [''prepare_namespace''] else [])"

definition before_free_initmem :: "string list" where
  "before_free_initmem = [''kprobe_free_init_mem'', ''ftrace_free_init_mem'', ''kgdb_free_init_mem'', ''exit_boot_config'']"

definition before_init :: "string list" where
  "before_init = [''numa_default_policy'', ''rcu_end_inkernel_boot'', ''do_sysctl_args'']"

definition init_thread :: "seq_env \<Rightarrow> boot_seq \<Rightarrow> boot_seq option" where
  "init_thread E s =
     (case bq_init s of
        Unborn \<Rightarrow> None
      | Wait_kthreadd \<Rightarrow>
          if kthreadd_done s = 0 then None
          else Some (s\<lparr>kthreadd_done := kthreadd_done s - 1, bq_init := Workqueues\<rparr>)
      | Workqueues \<Rightarrow>
          Some ((calls before_early_initcalls (touch_initmem s))
                  \<lparr>bq_blocking := True, cad_pid := Some (sq_init_pid E),
                   bq_oops := bq_oops (touch_initmem s) \<or> kthreadd_task s = None,
                   bq_init := Pre_smp (ie_early (sq_ic E))\<rparr>)
      | Pre_smp [] \<Rightarrow> Some ((calls after_early_initcalls s)\<lparr>bq_init := Basic_setup\<rparr>)
      | Pre_smp (fn # fns) \<Rightarrow> Some ((seq_initcall E fn s)\<lparr>bq_init := Pre_smp fns\<rparr>)
      | Basic_setup \<Rightarrow> Some (do_basic_setup E s)
      | Next_level l \<Rightarrow> Some (next_level E l s)
      | In_level l [] \<Rightarrow> Some (s\<lparr>bq_init := Next_level (Suc l)\<rparr>)
      | In_level l (fn # fns) \<Rightarrow> Some ((seq_initcall E fn s)\<lparr>bq_init := In_level l fns\<rparr>)
      | Failed_alloc \<Rightarrow> None
      | Console \<Rightarrow>
          Some ((console_on_rootfs E (calls [''kunit_run_all_tests'', ''wait_for_initramfs''] (touch_initmem s)))
                  \<lparr>bq_init := Early_program\<rparr>)
      | Early_program \<Rightarrow>
          Some ((calls (prepare_root (sq_init E) (bq_boot s) @ [''integrity_load_keys'']) (touch_initmem s))
                  \<lparr>bq_boot := kernel_init_freeable (sq_init E) (bq_boot s), bq_init := Async_sync\<rparr>)
      | Async_sync \<Rightarrow> if bq_async s \<noteq> [] then None else Some (s\<lparr>bq_init := Set_freeing\<rparr>)
      | Set_freeing \<Rightarrow> Some (s\<lparr>system_state := SYSTEM_FREEING_INITMEM, bq_init := Free_initmem\<rparr>)
      | Free_initmem \<Rightarrow> Some ((free_initmem (calls before_free_initmem s))\<lparr>bq_init := Mark_readonly\<rparr>)
      | Mark_readonly \<Rightarrow> Some ((calls [''pti_finalize''] (mark_readonly E s))\<lparr>bq_init := Set_running\<rparr>)
      | Set_running \<Rightarrow> Some ((calls before_init s)\<lparr>system_state := SYSTEM_RUNNING, bq_init := Run_init\<rparr>)
      | Run_init \<Rightarrow>
          (let (end', boot) = start_first (sq_init E) (bq_boot s)
           in Some (s\<lparr>bq_boot := boot, bq_init := Ended end'\<rparr>))
      | Ended e \<Rightarrow> None)"

text \<open>An asynchronous function, the one at place \<open>k\<close> of those scheduled, runs.\<close>

definition async_thread :: "nat \<Rightarrow> boot_seq \<Rightarrow> boot_seq option" where
  "async_thread k s =
     (if k < length (bq_async s)
      then Some ((touch_initmem s)\<lparr>bq_async := take k (bq_async s) @ drop (Suc k) (bq_async s)\<rparr>) else None)"

subsection \<open>The boot\<close>

text \<open>Nothing moves after an oops or a panic.\<close>

definition halted :: "boot_seq \<Rightarrow> bool" where
  "halted s \<longleftrightarrow> bq_oops s
     \<or> (case bq_init s of Failed_alloc \<Rightarrow> True | Ended (Panicked msg) \<Rightarrow> True | _ \<Rightarrow> False)"

inductive boot_step :: "seq_env \<Rightarrow> boot_seq \<Rightarrow> boot_seq \<Rightarrow> bool" for E :: seq_env where
  boot_moves: "\<not> halted s \<Longrightarrow> rest_init E s = Some t \<Longrightarrow> boot_step E s t"
| init_moves: "\<not> halted s \<Longrightarrow> init_thread E s = Some t \<Longrightarrow> boot_step E s t"
| async_moves: "\<not> halted s \<Longrightarrow> async_thread k s = Some t \<Longrightarrow> boot_step E s t"

definition rest_start :: "boot_state \<Rightarrow> ic_state \<Rightarrow> boot_seq" where
  "rest_start b ic =
     \<lparr>bq_rest = Spawn_init, bq_pid = 0, bq_init = Unborn, bq_pinned = False, kthreadd_task = None,
      system_state = SYSTEM_BOOTING, kthreadd_done = 0, bq_initmem = True, bq_rodata = False, bq_async = [],
      bq_ctors = [], bq_fds = [], bq_ic = ic, bq_boot = b, bq_oops = False, bq_blocking = False,
      cad_pid = None, bq_events = []\<rparr>"

subsection \<open>The order of the threads\<close>

definition threads_created :: "seq_env \<Rightarrow> bool" where
  "threads_created E \<longleftrightarrow> 0 < sq_init_pid E \<and> 0 < sq_kthreadd_pid E"

fun stage :: "init_pc \<Rightarrow> nat" where
  "stage Unborn = 0"
| "stage Wait_kthreadd = 1"
| "stage Workqueues = 2"
| "stage (Pre_smp fns) = 3"
| "stage Basic_setup = 4"
| "stage (Next_level l) = 5"
| "stage (In_level l fns) = 5"
| "stage Failed_alloc = 5"
| "stage Console = 6"
| "stage Early_program = 7"
| "stage Async_sync = 8"
| "stage Set_freeing = 9"
| "stage Free_initmem = 10"
| "stage Mark_readonly = 11"
| "stage Set_running = 12"
| "stage Run_init = 13"
| "stage (Ended e) = 14"

fun rest_stage :: "rest_pc \<Rightarrow> nat" where
  "rest_stage Spawn_init = 0"
| "rest_stage Pin_init = 1"
| "rest_stage Spawn_kthreadd = 2"
| "rest_stage Find_kthreadd = 3"
| "rest_stage Set_scheduling = 4"
| "rest_stage Complete_done = 5"
| "rest_stage Idle = 6"

lemma rest_stage_less: "rest_stage r \<le> 6" "rest_stage r < 6 \<longleftrightarrow> r \<noteq> Idle" "rest_stage r = 6 \<longleftrightarrow> r = Idle"
  by (cases r; simp)+

text \<open>What the two program counters say about the shared data.\<close>

definition order_inv :: "seq_env \<Rightarrow> boot_seq \<Rightarrow> bool" where
  "order_inv E s \<longleftrightarrow>
     (stage (bq_init s) = 0 \<longleftrightarrow> rest_stage (bq_rest s) = 0)
     \<and> (2 \<le> stage (bq_init s) \<longrightarrow> rest_stage (bq_rest s) = 6)
     \<and> (rest_stage (bq_rest s) = 1 \<longrightarrow> bq_pid s = sq_init_pid E)
     \<and> (rest_stage (bq_rest s) = 3 \<longrightarrow> bq_pid s = sq_kthreadd_pid E)
     \<and> kthreadd_task s = (if 4 \<le> rest_stage (bq_rest s) then Some (sq_kthreadd_pid E) else None)
     \<and> kthreadd_done s = (if rest_stage (bq_rest s) = 6 \<and> stage (bq_init s) = 1 then 1 else 0)
     \<and> state_rank (system_state s) =
         (if 13 \<le> stage (bq_init s) then 3 else if 10 \<le> stage (bq_init s) then 2
          else if 5 \<le> rest_stage (bq_rest s) then 1 else 0)"

text \<open>The initialisation memory, and who may still use it.\<close>

definition memory_inv :: "seq_env \<Rightarrow> boot_seq \<Rightarrow> bool" where
  "memory_inv E s \<longleftrightarrow>
     (bq_initmem s \<longleftrightarrow> stage (bq_init s) \<le> 10)
     \<and> (9 \<le> stage (bq_init s) \<longrightarrow> bq_async s = [])
     \<and> (bq_rodata s \<longleftrightarrow> 12 \<le> stage (bq_init s) \<and> sq_rwx E = Strict_rwx \<and> rodata_enabled (bq_boot s))"

lemma start_first_rodata: "rodata_enabled (snd (start_first I s)) = rodata_enabled s"
proof -
  have tries: "rodata_enabled (snd (try_inits I fs s)) = rodata_enabled s" for fs s
    by (induction fs arbitrary: s) (simp_all add: run_init_process_def Let_def)
  show ?thesis
    by (simp add: start_first_def start_requested_def start_default_def run_init_process_def tries Let_def
        split: option.splits)
qed

lemma freeable_rodata [simp]: "rodata_enabled (kernel_init_freeable I s) = rodata_enabled s"
  by (simp add: kernel_init_freeable_def)

lemma touch_simps [simp]:
  "bq_init (touch_initmem s) = bq_init s" "bq_rest (touch_initmem s) = bq_rest s" "bq_pid (touch_initmem s) = bq_pid s"
  "kthreadd_task (touch_initmem s) = kthreadd_task s" "kthreadd_done (touch_initmem s) = kthreadd_done s"
  "system_state (touch_initmem s) = system_state s" "bq_initmem (touch_initmem s) = bq_initmem s"
  "bq_rodata (touch_initmem s) = bq_rodata s" "bq_async (touch_initmem s) = bq_async s"
  "bq_ic (touch_initmem s) = bq_ic s" "bq_boot (touch_initmem s) = bq_boot s"
  "bq_oops (touch_initmem s) \<longleftrightarrow> bq_oops s \<or> \<not> bq_initmem s"
  by (simp_all add: touch_initmem_def)

lemma events_simps [simp]:
  "bq_init (events es s) = bq_init s" "bq_rest (events es s) = bq_rest s" "bq_pid (events es s) = bq_pid s"
  "kthreadd_task (events es s) = kthreadd_task s" "kthreadd_done (events es s) = kthreadd_done s"
  "system_state (events es s) = system_state s" "bq_initmem (events es s) = bq_initmem s"
  "bq_rodata (events es s) = bq_rodata s" "bq_async (events es s) = bq_async s" "bq_ctors (events es s) = bq_ctors s"
  "bq_ic (events es s) = bq_ic s" "bq_boot (events es s) = bq_boot s" "bq_oops (events es s) = bq_oops s"
  "bq_events (events es s) = bq_events s @ es" "bq_pinned (events es s) = bq_pinned s" "bq_fds (events es s) = bq_fds s"
  by (simp_all add: events_def)

lemmas init_defs = init_thread_def do_basic_setup_def next_level_def do_ctors_def mark_readonly_def free_initmem_def
  console_on_rootfs_def calls_def Let_def

lemmas init_splits = list.splits if_splits prod.splits rwx_config.splits

lemma early_stages: "stage pc < 2 \<longleftrightarrow> pc = Unborn \<or> pc = Wait_kthreadd"
  by (cases pc) simp_all

lemma rest_moves_early:
  assumes "order_inv E s" and "rest_init E s = Some t"
  shows "bq_init s = (if bq_rest s = Spawn_init then Unborn else Wait_kthreadd)"
proof -
  have idle: "bq_rest s \<noteq> Idle" using assms(2) by (auto simp: rest_init_def)
  then have "rest_stage (bq_rest s) < 6" by (simp add: rest_stage_less)
  then have "stage (bq_init s) < 2" using assms(1)
    by (simp add: order_inv_def not_le [symmetric] del: not_le)
  then have "bq_init s = Unborn \<or> bq_init s = Wait_kthreadd" by (simp add: early_stages)
  moreover have "stage (bq_init s) = 0 \<longleftrightarrow> rest_stage (bq_rest s) = 0" using assms(1) by (simp add: order_inv_def)
  ultimately show ?thesis by (cases "bq_rest s") auto
qed

lemma rest_keeps_order:
  assumes "threads_created E" and "order_inv E s" and "rest_init E s = Some t"
  shows "order_inv E t"
proof -
  note early = rest_moves_early [OF assms(2,3)]
  show ?thesis
  proof (cases "bq_rest s")
    case Complete_done
    then have "t = touch_initmem (s\<lparr>kthreadd_done := Suc (kthreadd_done s), bq_rest := Idle\<rparr>)"
      using assms(3) by (simp add: rest_init_def)
    then show ?thesis using assms(2) early Complete_done by (simp add: order_inv_def)
  qed (use assms early in \<open>clarsimp simp: rest_init_def calls_def find_task_by_pid_ns_def threads_created_def; simp add: order_inv_def\<close>)+
qed

lemma rest_no_oops:
  assumes "threads_created E" and "order_inv E s" and "memory_inv E s" and "\<not> bq_oops s" and "rest_init E s = Some t"
  shows "\<not> bq_oops t" and "memory_inv E t"
proof -
  note early = rest_moves_early [OF assms(2,5)]
  have mem: "bq_initmem s" using early assms(3) by (simp add: memory_inv_def split: if_splits)
  have pin: "bq_rest s = Pin_init \<Longrightarrow> bq_pid s = sq_init_pid E" using assms(2) by (simp add: order_inv_def)
  show "\<not> bq_oops t"
    using assms(1,4,5) mem pin
    by (cases "bq_rest s") (auto simp: rest_init_def calls_def find_task_by_pid_ns_def threads_created_def)
  show "memory_inv E t"
    using assms(3,5) early
    by (cases "bq_rest s") (auto simp: rest_init_def calls_def memory_inv_def find_task_by_pid_ns_def split: option.splits if_splits)
qed

lemma initcall_simps [simp]:
  "bq_init (seq_initcall E fn s) = bq_init s" "bq_rest (seq_initcall E fn s) = bq_rest s"
  "bq_pid (seq_initcall E fn s) = bq_pid s" "kthreadd_task (seq_initcall E fn s) = kthreadd_task s"
  "kthreadd_done (seq_initcall E fn s) = kthreadd_done s" "system_state (seq_initcall E fn s) = system_state s"
  "bq_initmem (seq_initcall E fn s) = bq_initmem s" "bq_rodata (seq_initcall E fn s) = bq_rodata s"
  "bq_boot (seq_initcall E fn s) = bq_boot s" "bq_oops (seq_initcall E fn s) \<longleftrightarrow> bq_oops s \<or> \<not> bq_initmem s"
  by (simp_all add: seq_initcall_def Let_def)

lemma init_keeps_order:
  assumes "order_inv E s" and "init_thread E s = Some t"
  shows "order_inv E t"
proof (cases "bq_init s")
  case Wait_kthreadd
  then show ?thesis using assms by (simp add: order_inv_def init_thread_def split: if_splits) (auto)
next
  case Unborn
  then show ?thesis using assms(2) by (simp add: init_thread_def)
qed (use assms in \<open>auto simp: init_defs split: init_splits; simp add: order_inv_def\<close>)+

lemma init_no_oops:
  assumes "order_inv E s" and "memory_inv E s" and "\<not> bq_oops s" and "init_thread E s = Some t"
  shows "\<not> bq_oops t" and "memory_inv E t"
proof -
  have task: "bq_init s = Workqueues \<Longrightarrow> kthreadd_task s \<noteq> None" using assms(1) by (simp add: order_inv_def)
  show "\<not> bq_oops t"
    using assms(2-4) task
    by (cases "bq_init s") (auto simp: memory_inv_def init_defs split: init_splits)
  show "memory_inv E t"
  proof (cases "bq_init s")
    case Run_init
    then show ?thesis using assms(2,4) start_first_rodata [of "sq_init E" "bq_boot s"]
      by (auto simp: memory_inv_def init_thread_def split: prod.splits)
  qed (use assms(2,4) in \<open>auto simp: memory_inv_def init_defs split: init_splits\<close>)
qed

lemma async_keeps:
  assumes "order_inv E s" and "memory_inv E s" and "\<not> bq_oops s" and "async_thread k s = Some t"
  shows "\<not> bq_oops t" and "memory_inv E t" and "order_inv E t"
proof -
  have t: "t = (touch_initmem s)\<lparr>bq_async := take k (bq_async s) @ drop (Suc k) (bq_async s)\<rparr>" and "bq_async s \<noteq> []"
    using assms(4) by (auto simp: async_thread_def split: if_splits)
  then have early: "stage (bq_init s) < 9" using assms(2) by (auto simp: memory_inv_def)
  then show "\<not> bq_oops t" "memory_inv E t" using assms(2,3) by (simp_all add: t memory_inv_def)
  show "order_inv E t" using assms(1) by (simp add: t order_inv_def)
qed

subsection \<open>The work of the first process\<close>

text \<open>What the program counter leaves to do, on the state of the initcalls.\<close>

definition levels_from :: "ic_env \<Rightarrow> string list \<Rightarrow> nat \<Rightarrow> ic_state \<Rightarrow> ic_state" where
  "levels_from E bl l = fold (do_initcall_level E bl) [l..<length (ie_levels E)]"

definition all_initcalls :: "ic_env \<Rightarrow> string list \<Rightarrow> ic_state \<Rightarrow> ic_state" where
  "all_initcalls E bl s = levels_from E bl 0 (do_pre_smp_initcalls E bl s)"

fun initcalls_left :: "ic_env \<Rightarrow> string list \<Rightarrow> init_pc \<Rightarrow> ic_state \<Rightarrow> ic_state" where
  "initcalls_left E bl (Pre_smp fns) s = levels_from E bl 0 (run_initcalls E bl fns s)"
| "initcalls_left E bl Basic_setup s = levels_from E bl 0 s"
| "initcalls_left E bl Failed_alloc s = levels_from E bl 0 s"
| "initcalls_left E bl (Next_level l) s = levels_from E bl l s"
| "initcalls_left E bl (In_level l fns) s = levels_from E bl (Suc l) (run_initcalls E bl fns s)"
| "initcalls_left E bl pc s = (if stage pc < 3 then all_initcalls E bl s else s)"

lemma levels_from_step:
  "l < length (ie_levels E) \<Longrightarrow> levels_from E bl l s = levels_from E bl (Suc l) (do_initcall_level E bl l s)"
  "\<not> l < length (ie_levels E) \<Longrightarrow> levels_from E bl l s = s"
  by (simp_all add: levels_from_def upt_rec)

definition boot_left :: "init_env \<Rightarrow> init_pc \<Rightarrow> boot_state \<Rightarrow> init_end \<times> boot_state" where
  "boot_left I pc b =
     (case pc of Ended e \<Rightarrow> (e, b) | _ \<Rightarrow> if stage pc \<le> 7 then kernel_init I b else start_first I b)"

definition work_inv :: "seq_env \<Rightarrow> boot_state \<Rightarrow> ic_state \<Rightarrow> boot_seq \<Rightarrow> bool" where
  "work_inv E b ic s \<longleftrightarrow>
     (stage (bq_init s) < 14 \<longrightarrow> blacklisted_initcalls (bq_boot s) = blacklisted_initcalls b)
     \<and> initcalls_left (sq_ic E) (blacklisted_initcalls b) (bq_init s) (bq_ic s)
       = all_initcalls (sq_ic E) (blacklisted_initcalls b) ic
     \<and> boot_left (sq_init E) (bq_init s) (bq_boot s) = kernel_init (sq_init E) b
     \<and> (bq_init s = Failed_alloc \<longrightarrow> \<not> ie_alloc (sq_ic E))
     \<and> (5 \<le> stage (bq_init s) \<and> bq_init s \<noteq> Failed_alloc \<longrightarrow> ie_alloc (sq_ic E))
     \<and> bq_ctors s = (if stage (bq_init s) \<le> 4 then [] else sq_ctors E)"

text \<open>What the other calls of the boot must be when the two threads are at given places.\<close>

definition readonly_events :: "seq_env \<Rightarrow> boot_state \<Rightarrow> boot_event list" where
  "readonly_events E b =
     (case sq_rwx E of
        Strict_rwx \<Rightarrow>
          if rodata_enabled b then map Call_to [''flush_module_init_free_work'', ''mark_rodata_ro'', ''rodata_test'']
          else [Prints ''Kernel memory protection disabled.'']
      | Selectable_rwx \<Rightarrow> [Prints ''Kernel memory protection not selected by kernel config.'']
      | Without_rwx \<Rightarrow> [Prints ''This architecture does not have kernel memory protection.''])"

definition console_events :: "seq_env \<Rightarrow> boot_event list" where
  "console_events E = (if sq_console E then [] else [Prints ''Warning: unable to open an initial console.''])"

definition events_until :: "seq_env \<Rightarrow> boot_state \<Rightarrow> nat \<Rightarrow> nat \<Rightarrow> boot_event list" where
  "events_until E b r n =
     (if 1 \<le> r then [Call_to ''rcu_scheduler_starting''] else [])
     @ (if 3 \<le> r then [Call_to ''numa_default_policy''] else [])
     @ (if 3 \<le> n then map Call_to before_early_initcalls else [])
     @ (if 4 \<le> n then map Call_to after_early_initcalls else [])
     @ (if 5 \<le> n then map Call_to [''cpuset_init_smp'', ''driver_init'', ''init_irq_proc''] else [])
     @ (if 7 \<le> n then map Call_to [''kunit_run_all_tests'', ''wait_for_initramfs''] @ console_events E else [])
     @ (if 8 \<le> n then map Call_to (prepare_root (sq_init E) b @ [''integrity_load_keys'']) else [])
     @ (if 11 \<le> n then map Call_to (before_free_initmem @ [''free_initmem_default'']) else [])
     @ (if 12 \<le> n then readonly_events E b @ [Call_to ''pti_finalize''] else [])
     @ (if 13 \<le> n then map Call_to before_init else [])"

definition events_inv :: "seq_env \<Rightarrow> boot_state \<Rightarrow> boot_seq \<Rightarrow> bool" where
  "events_inv E b s \<longleftrightarrow>
     (stage (bq_init s) \<le> 7 \<longrightarrow> bq_boot s = b) \<and> rodata_enabled (bq_boot s) = rodata_enabled b
     \<and> bq_events s = events_until E b (rest_stage (bq_rest s)) (stage (bq_init s))
     \<and> (2 \<le> stage (bq_init s) \<longrightarrow> bq_pinned s)
     \<and> bq_fds s = (if 7 \<le> stage (bq_init s) \<and> sq_console E
          then [''/dev/console'', ''/dev/console'', ''/dev/console''] else [])
     \<and> cad_pid s = (if 3 \<le> stage (bq_init s) then Some (sq_init_pid E) else None)
     \<and> (2 \<le> rest_stage (bq_rest s) \<longrightarrow> bq_pinned s)"

lemma freeable_blacklist [simp]:
  "blacklisted_initcalls (kernel_init_freeable I s) = blacklisted_initcalls s"
  by (simp add: kernel_init_freeable_def)

lemma seq_initcall_ic [simp]:
  "bq_ic (seq_initcall E fn s) = snd (do_one_initcall (sq_ic E) (blacklisted_initcalls (bq_boot s)) fn (bq_ic s))"
  "bq_ctors (seq_initcall E fn s) = bq_ctors s"
  "bq_ctors (touch_initmem s) = bq_ctors s" "bq_ctors (mark_readonly E s) = bq_ctors s"
  "bq_ic (mark_readonly E s) = bq_ic s" "bq_boot (mark_readonly E s) = bq_boot s"
  by (simp_all add: seq_initcall_def touch_initmem_def mark_readonly_def calls_def Let_def split: rwx_config.split)

lemma init_keeps_work:
  assumes "work_inv E b ic s" and "init_thread E s = Some t"
  shows "work_inv E b ic t"
proof (cases "bq_init s")
  case (Next_level l)
  then have "t = next_level E l s" using assms(2) by (simp add: init_thread_def)
  then show ?thesis
    using assms(1) Next_level levels_from_step [of l "sq_ic E" "blacklisted_initcalls b" "bq_ic s"]
    by (auto simp: work_inv_def next_level_def boot_left_def do_initcall_level_def)
next
  case Run_init
  then show ?thesis using assms
    by (auto simp: work_inv_def init_defs boot_left_def split: prod.splits)
next
  case Wait_kthreadd
  then show ?thesis using assms
    by (auto simp: work_inv_def init_defs boot_left_def split: if_splits)
next
  case (Pre_smp fns)
  then show ?thesis using assms
    by (cases fns) (auto simp: work_inv_def init_defs boot_left_def)
next
  case (In_level l fns)
  then show ?thesis using assms
    by (cases fns) (auto simp: work_inv_def init_defs boot_left_def)
next
  case Basic_setup
  then show ?thesis using assms
    by (cases "ie_alloc (sq_ic E)")
      (auto simp: work_inv_def init_defs boot_left_def)
qed (use assms in \<open>auto simp: work_inv_def init_thread_def calls_def free_initmem_def console_on_rootfs_def boot_left_def
      all_initcalls_def do_pre_smp_initcalls_def
      kernel_init_def split: if_splits\<close>)

lemma rest_keeps_work:
  assumes "work_inv E b ic s" and "order_inv E s" and "rest_init E s = Some t"
  shows "work_inv E b ic t"
  using assms(1,3) rest_moves_early [OF assms(2,3)]
  by (cases "bq_rest s") (auto simp: rest_init_def calls_def work_inv_def boot_left_def touch_initmem_def
      split: option.splits if_splits)

lemma async_keeps_work: "work_inv E b ic s \<Longrightarrow> async_thread k s = Some t \<Longrightarrow> work_inv E b ic t"
  by (auto simp: async_thread_def work_inv_def split: if_splits)

lemma initcall_events [simp]:
  "bq_events (seq_initcall E fn s) = bq_events s" "bq_fds (seq_initcall E fn s) = bq_fds s"
  "bq_pinned (seq_initcall E fn s) = bq_pinned s" "cad_pid (seq_initcall E fn s) = cad_pid s"
  "bq_events (touch_initmem s) = bq_events s" "bq_fds (touch_initmem s) = bq_fds s"
  "bq_pinned (touch_initmem s) = bq_pinned s" "cad_pid (touch_initmem s) = cad_pid s" "cad_pid (events es s) = cad_pid s"
  by (simp_all add: seq_initcall_def touch_initmem_def events_def Let_def)

lemma init_keeps_events:
  assumes "events_inv E b s" and "order_inv E s" and "init_thread E s = Some t"
  shows "events_inv E b t"
proof (cases "bq_init s")
  case Run_init
  obtain e b' where "start_first (sq_init E) (bq_boot s) = (e, b')" by fastforce
  then have "t = s\<lparr>bq_boot := b', bq_init := Ended e\<rparr>" "rodata_enabled b' = rodata_enabled (bq_boot s)"
    using assms(3) Run_init start_first_rodata [of "sq_init E" "bq_boot s"] by (simp_all add: init_thread_def)
  then show ?thesis using assms(1) Run_init by (simp add: events_inv_def events_until_def)
qed (use assms in \<open>clarsimp simp: init_defs split: init_splits; simp add: events_inv_def events_until_def
      readonly_events_def console_events_def order_inv_def\<close>)+

lemma rest_keeps_events:
  assumes "events_inv E b s" and "order_inv E s" and "rest_init E s = Some t"
  shows "events_inv E b t"
proof -
  note early = rest_moves_early [OF assms(2,3)]
  have boot: "bq_boot t = bq_boot s" "bq_fds t = bq_fds s" "cad_pid t = cad_pid s"
    using assms(3) by (auto simp: rest_init_def calls_def touch_initmem_def events_def split: rest_pc.splits option.splits)
  have pc: "stage (bq_init s) \<le> 1" "stage (bq_init t) \<le> 1"
    using assms(3) early by (cases "bq_rest s"; auto simp: rest_init_def calls_def split: option.splits)+
  have pinned: "2 \<le> rest_stage (bq_rest t) \<longrightarrow> bq_pinned t"
    using assms(1,3) by (cases "bq_rest s") (auto simp: rest_init_def calls_def events_inv_def split: option.splits)
  have "bq_events t = events_until E b (rest_stage (bq_rest t)) 0"
    using assms(1,3) pc(1)
    by (cases "bq_rest s") (auto simp: rest_init_def calls_def events_inv_def events_until_def split: option.splits)
  then show ?thesis using assms(1) boot pc pinned by (simp add: events_inv_def events_until_def)
qed

lemma async_keeps_events: "events_inv E b s \<Longrightarrow> async_thread k s = Some t \<Longrightarrow> events_inv E b t"
  by (auto simp: async_thread_def events_inv_def split: if_splits)

subsection \<open>The invariant and the bound\<close>

definition seq_inv :: "seq_env \<Rightarrow> boot_state \<Rightarrow> ic_state \<Rightarrow> boot_seq \<Rightarrow> bool" where
  "seq_inv E b ic s \<longleftrightarrow> threads_created E \<and> order_inv E s \<and> memory_inv E s \<and> \<not> bq_oops s \<and> work_inv E b ic s
     \<and> events_inv E b s"

lemma start_seq_inv: "threads_created E \<Longrightarrow> seq_inv E b ic (rest_start b ic)"
  by (simp add: seq_inv_def order_inv_def memory_inv_def work_inv_def events_inv_def events_until_def rest_start_def boot_left_def)

lemma boot_step_inv: "seq_inv E b ic s \<Longrightarrow> boot_step E s t \<Longrightarrow> seq_inv E b ic t"
  by (auto simp: seq_inv_def elim!: boot_step.cases dest: rest_no_oops(1) init_no_oops(1) async_keeps(1)
      intro: rest_keeps_order rest_no_oops rest_keeps_work init_keeps_order init_no_oops init_keeps_work
        async_keeps async_keeps_work rest_keeps_events init_keeps_events async_keeps_events)

text \<open>An initcall counts for itself and for what it schedules.\<close>

definition calls_pot :: "seq_env \<Rightarrow> nat list \<Rightarrow> nat" where
  "calls_pot E fns = sum_list (map (\<lambda>fn. Suc (length (sq_async E fn))) fns)"

definition levels_pot :: "seq_env \<Rightarrow> nat \<Rightarrow> nat" where
  "levels_pot E l = sum_list (map (\<lambda>fns. 2 + calls_pot E fns) (drop l (ie_levels (sq_ic E))))"

fun init_pot :: "seq_env \<Rightarrow> init_pc \<Rightarrow> nat" where
  "init_pot E (Pre_smp fns) = 11 + calls_pot E fns + levels_pot E 0"
| "init_pot E (Next_level l) = 9 + levels_pot E l"
| "init_pot E (In_level l fns) = 10 + calls_pot E fns + levels_pot E (Suc l)"
| "init_pot E pc = (if stage pc < 3 then 14 - stage pc + calls_pot E (ie_early (sq_ic E)) + levels_pot E 0
     else if stage pc = 4 then 10 + levels_pot E 0 else 14 - stage pc)"

definition seq_pot :: "seq_env \<Rightarrow> boot_seq \<Rightarrow> nat" where
  "seq_pot E s = (6 - rest_stage (bq_rest s)) + init_pot E (bq_init s) + length (bq_async s)"

lemma calls_pot_simps [simp]:
  "calls_pot E [] = 0" "calls_pot E (fn # fns) = Suc (length (sq_async E fn)) + calls_pot E fns"
  by (simp_all add: calls_pot_def)

lemma levels_pot_step:
  "l < length (ie_levels (sq_ic E)) \<Longrightarrow> levels_pot E l = 2 + calls_pot E (ie_levels (sq_ic E) ! l) + levels_pot E (Suc l)"
  "\<not> l < length (ie_levels (sq_ic E)) \<Longrightarrow> levels_pot E l = 0"
  by (simp_all add: levels_pot_def Cons_nth_drop_Suc [symmetric])

lemma seq_initcall_async:
  "length (bq_async (seq_initcall E fn s)) \<le> length (bq_async s) + length (sq_async E fn)"
  by (simp add: seq_initcall_def Let_def)

lemma init_decreases:
  assumes "init_thread E s = Some t"
  shows "seq_pot E t < seq_pot E s"
proof (cases "bq_init s")
  case (Next_level l)
  then show ?thesis using assms levels_pot_step [of l E]
    by (auto simp: init_thread_def seq_pot_def next_level_def)
next
  case (Pre_smp fns)
  then show ?thesis
  proof (cases fns)
    case (Cons fn rest)
    then show ?thesis using assms Pre_smp seq_initcall_async [of E fn s]
      by (auto simp: init_thread_def seq_pot_def)
  qed (use assms Pre_smp in \<open>auto simp: init_thread_def seq_pot_def calls_def\<close>)
next
  case (In_level l fns)
  then show ?thesis
  proof (cases fns)
    case (Cons fn rest)
    then show ?thesis using assms In_level seq_initcall_async [of E fn s]
      by (auto simp: init_thread_def seq_pot_def)
  qed (use assms In_level in \<open>auto simp: init_thread_def seq_pot_def\<close>)
qed (use assms in \<open>auto simp: init_defs seq_pot_def split: init_splits\<close>)

lemma rest_decreases:
  assumes "seq_inv E b ic s" and "rest_init E s = Some t"
  shows "seq_pot E t < seq_pot E s"
proof -
  have inv: "threads_created E" "order_inv E s" using assms(1) by (simp_all add: seq_inv_def)
  have pin: "bq_rest s = Pin_init \<Longrightarrow> bq_pid s = sq_init_pid E" using inv(2) by (simp add: order_inv_def)
  show ?thesis using assms(2) rest_moves_early [OF inv(2) assms(2)] inv(1) pin
    by (cases "bq_rest s") (auto simp: rest_init_def calls_def seq_pot_def threads_created_def find_task_by_pid_ns_def touch_initmem_def)
qed

lemma async_decreases: "async_thread k s = Some t \<Longrightarrow> seq_pot E t < seq_pot E s"
  by (auto simp: async_thread_def seq_pot_def split: if_splits)

interpretation boot_sys: bounded_system "boot_step E" "seq_inv E b ic" "seq_pot E" for E b ic
  by unfold_locales
    (rule boot_step_inv, assumption+, auto elim!: boot_step.cases dest: rest_decreases init_decreases async_decreases)

lemma reached_inv:
  "threads_created E \<Longrightarrow> reach (boot_step E) (rest_start b ic) s \<Longrightarrow> seq_inv E b ic s"
  using boot_sys.reach_keeps [of E "rest_start b ic" s b ic] start_seq_inv by blast

lemma step_stages:
  assumes "seq_inv E b ic s" and "boot_step E s t"
  shows "stage (bq_init s) \<le> stage (bq_init t)" and "rest_stage (bq_rest s) \<le> rest_stage (bq_rest t)"
proof -
  have order: "order_inv E s" using assms(1) by (simp add: seq_inv_def)
  have "stage (bq_init s) \<le> stage (bq_init t) \<and> rest_stage (bq_rest s) \<le> rest_stage (bq_rest t)"
    using assms(2)
  proof cases
    case boot_moves
    then show ?thesis using rest_moves_early [OF order boot_moves(2)]
      by (cases "bq_rest s") (auto simp: rest_init_def calls_def touch_initmem_def split: option.splits)
  next
    case init_moves
    then show ?thesis
      by (cases "bq_init s") (auto simp: init_defs split: init_splits)
  next
    case (async_moves k)
    then show ?thesis by (auto simp: async_thread_def split: if_splits)
  qed
  then show "stage (bq_init s) \<le> stage (bq_init t)" "rest_stage (bq_rest s) \<le> rest_stage (bq_rest t)" by simp_all
qed

lemma rest_moves: "bq_rest s \<noteq> Idle \<Longrightarrow> \<exists>t. rest_init E s = Some t"
  by (cases "bq_rest s") (auto simp: rest_init_def split: option.split)

lemma stuck_is_ended:
  assumes "seq_inv E b ic s" and "\<nexists>t. boot_step E s t"
  shows "bq_init s = Failed_alloc \<or> (\<exists>e. bq_init s = Ended e)"
proof (rule ccontr)
  assume not: "\<not> ?thesis"
  have inv: "\<not> bq_oops s" "order_inv E s" using assms(1) by (simp_all add: seq_inv_def)
  have "\<not> halted s" using inv(1) not by (auto simp: halted_def split: init_pc.splits)
  then have none: "rest_init E s = None" "init_thread E s = None" "async_thread 0 s = None"
    using assms(2) by (metis boot_step.intros not_None_eq)+
  have "bq_rest s = Idle" using none(1) rest_moves [of s E] by fastforce
  then have "bq_init s \<noteq> Unborn" "bq_init s = Wait_kthreadd \<Longrightarrow> kthreadd_done s = 1"
    using inv(2) by (auto simp: order_inv_def)
  then show False using none(2,3) not
    by (cases "bq_init s") (auto simp: init_thread_def async_thread_def split: if_splits list.splits prod.splits)
qed

lemma ended_is_stuck:
  assumes "seq_inv E b ic s" and "bq_init s = Ended e"
  shows "\<nexists>t. boot_step E s t"
proof -
  have "rest_stage (bq_rest s) = 6" "bq_async s = []"
    using assms by (simp_all add: seq_inv_def order_inv_def memory_inv_def)
  then show ?thesis using assms(2)
    by (auto simp: rest_stage_less rest_init_def init_thread_def async_thread_def elim!: boot_step.cases)
qed

subsection \<open>Every schedule boots the machine in order\<close>

text \<open>C7: if both threads could be created, no step of any schedule makes the boot oops: once the first process
  is past its wait, \<open>kthreadd\<close> is known and the system schedules, so that it can create
  kernel threads; and when the initialisation memory is gone, no asynchronous function is left that
  could use it. \<open>system_state\<close> never goes back; when it is \<open>SYSTEM_RUNNING\<close> the initialisation memory is
  freed and the kernel's data is read-only exactly if the kernel was built with its protection and the
  command line did not say \<open>rodata=off\<close>; and a program is started only then.\<close>
theorem boot_never_oopses:
  assumes "threads_created E" and "reach (boot_step E) (rest_start b ic) s" and "boot_step E s t"
  shows "\<not> bq_oops t
    \<and> (bq_init t \<in> {Unborn, Wait_kthreadd}
       \<or> kthreadd_task t = Some (sq_kthreadd_pid E) \<and> SYSTEM_SCHEDULING \<le> system_state t)
    \<and> (bq_initmem t \<or> bq_async t = [])
    \<and> system_state s \<le> system_state t
    \<and> (system_state t = SYSTEM_RUNNING \<longrightarrow>
        \<not> bq_initmem t \<and> (bq_rodata t \<longleftrightarrow> sq_rwx E = Strict_rwx \<and> rodata_enabled (bq_boot t)))
    \<and> (bq_init t = Ended e \<longrightarrow> system_state t = SYSTEM_RUNNING)"
proof -
  have s: "seq_inv E b ic s" by (rule reached_inv [OF assms(1,2)])
  have t: "seq_inv E b ic t" by (rule boot_step_inv [OF s assms(3)])
  then have inv: "\<not> bq_oops t" "order_inv E t" "memory_inv E t" by (simp_all add: seq_inv_def)
  have "bq_init t \<in> {Unborn, Wait_kthreadd} \<or> 2 \<le> stage (bq_init t)"
    using early_stages [of "bq_init t"] by auto
  then have "bq_init t \<in> {Unborn, Wait_kthreadd}
      \<or> kthreadd_task t = Some (sq_kthreadd_pid E) \<and> SYSTEM_SCHEDULING \<le> system_state t"
    using inv(2) by (auto simp: order_inv_def less_eq_system_states_def)
  moreover have "bq_initmem t \<or> bq_async t = []" using inv(3) by (auto simp: memory_inv_def)
  moreover have "state_rank (system_state s) \<le> state_rank (system_state t)"
    using s t step_stages [OF s assms(3)] by (auto simp: seq_inv_def order_inv_def)
  moreover have "13 \<le> stage (bq_init t)" if "state_rank (system_state t) = 3"
    using inv(2) that by (auto simp: order_inv_def split: if_splits)
  moreover have "system_state t = SYSTEM_RUNNING" if "bq_init t = Ended e"
    using inv(2) that by (intro state_rank_inj) (simp add: order_inv_def)
  ultimately show ?thesis using inv
    by (auto simp: less_eq_system_states_def memory_inv_def dest: state_rank_inj)
qed

text \<open>No boot runs for ever: besides twenty steps and two for each level, every run of
  the threads has one step for each initcall and each asynchronous function.\<close>

definition boot_bound :: "seq_env \<Rightarrow> nat" where
  "boot_bound E = 20 + 2 * length (ie_levels (sq_ic E))
    + sum_list (map (\<lambda>fn. 1 + length (sq_async E fn)) (ie_early (sq_ic E) @ concat (ie_levels (sq_ic E))))"

lemma boot_bounded:
  assumes "threads_created E" and "steps (boot_step E) k (rest_start b ic) s"
  shows "k \<le> boot_bound E"
proof -
  have "sum_list (map (\<lambda>fns. 2 + calls_pot E fns) ls) = 2 * length ls + calls_pot E (concat ls)" for ls
    by (induction ls) (simp_all add: calls_pot_def)
  then have "seq_pot E (rest_start b ic) = 20 + 2 * length (ie_levels (sq_ic E))
      + calls_pot E (ie_early (sq_ic E) @ concat (ie_levels (sq_ic E)))"
    by (simp add: seq_pot_def rest_start_def levels_pot_def calls_pot_def)
  then show ?thesis
    using boot_sys.run_bounded [OF assms(2) start_seq_inv [OF assms(1), of b ic]] by (simp add: calls_pot_def boot_bound_def)
qed

text \<open>The calls and messages of \<open>rest_init\<close> and \<open>kernel_init\<close> in the order of the source.\<close>

definition boot_events :: "seq_env \<Rightarrow> boot_state \<Rightarrow> boot_event list" where
  "boot_events E b =
     map Call_to ([''rcu_scheduler_starting'', ''numa_default_policy''] @ before_early_initcalls @ after_early_initcalls
       @ [''cpuset_init_smp'', ''driver_init'', ''init_irq_proc'', ''kunit_run_all_tests'', ''wait_for_initramfs''])
     @ console_events E
     @ map Call_to (prepare_root (sq_init E) b @ [''integrity_load_keys''] @ before_free_initmem @ [''free_initmem_default''])
     @ readonly_events E b
     @ map Call_to (''pti_finalize'' # before_init)"

lemma boot_end:
  assumes "threads_created E" and "reach (boot_step E) (rest_start b ic) s" and "\<nexists>t. boot_step E s t"
  shows "if ie_alloc (sq_ic E)
    then bq_init s = Ended (fst (kernel_init (sq_init E) b)) \<and> bq_boot s = snd (kernel_init (sq_init E) b)
      \<and> do_initcalls (sq_ic E) (blacklisted_initcalls b) (do_pre_smp_initcalls (sq_ic E) (blacklisted_initcalls b) ic)
          = Some (bq_ic s)
      \<and> bq_ctors s = sq_ctors E \<and> system_state s = SYSTEM_RUNNING \<and> bq_events s = boot_events E b
    else bq_init s = Failed_alloc"
proof -
  have inv: "seq_inv E b ic s" by (rule reached_inv [OF assms(1,2)])
  then have work: "work_inv E b ic s" and order: "order_inv E s" and ev: "events_inv E b s" by (simp_all add: seq_inv_def)
  from stuck_is_ended [OF inv assms(3)] show ?thesis
  proof (elim disjE exE)
    fix e assume e: "bq_init s = Ended e"
    then have "state_rank (system_state s) = state_rank SYSTEM_RUNNING" using order by (simp add: order_inv_def)
    then have "system_state s = SYSTEM_RUNNING" by (rule state_rank_inj)
    moreover have "rest_stage (bq_rest s) = 6" using order e by (simp add: order_inv_def)
    then have "bq_events s = boot_events E b"
      using ev e by (simp add: events_inv_def events_until_def boot_events_def)
    moreover have "(e, bq_boot s) = kernel_init (sq_init E) b" "ie_alloc (sq_ic E)" "bq_ctors s = sq_ctors E"
      "bq_ic s = all_initcalls (sq_ic E) (blacklisted_initcalls b) ic"
      using work e by (simp_all add: work_inv_def boot_left_def)
    ultimately show ?thesis using e by (simp add: prod_eq_iff do_initcalls_def all_initcalls_def levels_from_def)
  qed (use work in \<open>simp add: work_inv_def\<close>)
qed

text \<open>C8: every schedule ends the same way: when no thread can move any more, the initcalls have run
  exactly as one after the other, the other parts of the kernel were set up in the order of the source, the
  system is running and the first process is the one
  \<open>kernel_init\<close> alone would have chosen; only if the copy of the command line cannot be allocated, the
  kernel has panicked instead.\<close>
theorem every_boot_ends_alike:
  assumes "threads_created E" and "reach (boot_step E) (rest_start b ic) s" and "\<nexists>t. boot_step E s t"
  shows "if ie_alloc (sq_ic E)
    then bq_init s = Ended (fst (kernel_init (sq_init E) b)) \<and> bq_boot s = snd (kernel_init (sq_init E) b)
      \<and> do_initcalls (sq_ic E) (blacklisted_initcalls b) (do_pre_smp_initcalls (sq_ic E) (blacklisted_initcalls b) ic)
          = Some (bq_ic s)
      \<and> bq_ctors s = sq_ctors E \<and> system_state s = SYSTEM_RUNNING \<and> bq_events s = boot_events E b
    else bq_init s = Failed_alloc"
  by (rule boot_end [OF assms])

text \<open>C36: the command line, the options and the threads together: plain words on the command line, up to the
  limit, reach the first process in every boot: whichever schedule the threads take, when
  nothing can move any more the program that was started got exactly the words, in order and
  unchanged, as the arguments behind its own name, and the two initial variables as its environment.\<close>
theorem words_reach_every_boot:
  assumes "list_all (plain_word B) ws" and "length ws \<le> M"
    and "pass (unknown_bootoption B M) (map word_arg ws) (initial_arrays M b) = Done t"
    and "threads_created E" and "ie_alloc (sq_ic E)"
    and "reach (boot_step E) (rest_start t ic) s" and "\<nexists>u. boot_step E s u"
  shows "\<not> boot_panics t
    \<and> (case find (starts (sq_init E) t) (candidates (sq_init E) t) of
         None \<Rightarrow> \<exists>msg. bq_init s = Ended (Panicked msg)
       | Some f \<Rightarrow> bq_init s = Ended (Started f)
           \<and> in_execve (sq_init E) f (Some f # map Some ws @ replicate (M + 1 - length ws) None)
                ([Some ''HOME=/'', Some ''TERM=linux''] @ replicate M None) = 0)"
  using boot_end [OF assms(4,6,7)] words_reach_first_process [OF assms(1,2), of b "sq_init E"] assms(3,5)
  by (auto split: option.splits)

subsection \<open>A schedule\<close>

text \<open>A schedule names the thread of each step: the boot thread, the first process or an asynchronous function.\<close>

fun run_boot :: "seq_env \<Rightarrow> nat list \<Rightarrow> boot_seq \<Rightarrow> boot_seq option" where
  "run_boot E [] s = Some s"
| "run_boot E (c # cs) s =
     (if halted s then None
      else Option.bind (if c = 0 then rest_init E s else if c = 1 then init_thread E s else async_thread (c - 2) s)
        (run_boot E cs))"

lemma run_boot_steps: "run_boot E cs s = Some t \<Longrightarrow> steps (boot_step E) k r s \<Longrightarrow> steps (boot_step E) (length cs + k) r t"
proof (induction cs arbitrary: k s)
  case (Cons c cs)
  then obtain u where u: "run_boot E cs u = Some t" "\<not> halted s"
    "(if c = 0 then rest_init E s else if c = 1 then init_thread E s else async_thread (c - 2) s) = Some u"
    by (auto simp: bind_eq_Some_conv split: if_splits)
  then have "boot_step E s u" by (auto intro: boot_step.intros split: if_splits)
  then show ?case using Cons.IH [OF u(1) steps_more [OF Cons.prems(2)]] by simp
qed simp

lemmas run_boot_reach = steps_reach [OF run_boot_steps [OF _ steps_none]]

definition sample_seq :: seq_env where
  "sample_seq = \<lparr>sq_init_pid = 1, sq_kthreadd_pid = 2, sq_ic = sample_ic_env, sq_init = sample_init_env,
     sq_async = (\<lambda>fn. if fn = 1 then [7] else []), sq_ctors = [4], sq_console = True, sq_rwx = Strict_rwx\<rparr>"

definition sample_schedule :: "nat list" where
  "sample_schedule = [0, 0, 0, 0, 0, 0, 1, 1, 1, 1, 1, 1, 1, 1, 1, 1, 1, 1, 1, 2, 1, 1, 1, 1, 1, 1, 1]"

lemma sample_created: "threads_created sample_seq"
  by (simp add: threads_created_def sample_seq_def)

definition sample_ic :: ic_state where
  "sample_ic = \<lparr>ic_cpu = \<lparr>preempt_count = 0, irqs_disabled = False\<rparr>, ic_log = []\<rparr>"

text \<open>
  Neither thread creation of \<open>rest_init\<close> is checked. What holds while one of them fails: the first
  process does not get past its first use of \<open>kthreadd\<close>.
\<close>

definition creation_inv :: "seq_env \<Rightarrow> boot_seq \<Rightarrow> bool" where
  "creation_inv E s \<longleftrightarrow> \<not> threads_created E \<and> (bq_oops s \<or>
     bq_async s = [] \<and> bq_initmem s \<and> kthreadd_task s = None \<and> stage (bq_init s) \<le> 2
     \<and> (stage (bq_init s) = 0 \<longleftrightarrow> rest_stage (bq_rest s) = 0 \<or> sq_init_pid E \<le> 0)
     \<and> (rest_stage (bq_rest s) = 1 \<longrightarrow> bq_pid s = sq_init_pid E) \<and> (2 \<le> rest_stage (bq_rest s) \<longrightarrow> 0 < sq_init_pid E)
     \<and> (rest_stage (bq_rest s) = 3 \<longrightarrow> bq_pid s = sq_kthreadd_pid E)
     \<and> (stage (bq_init s) = 2 \<longrightarrow> rest_stage (bq_rest s) = 6)
     \<and> (stage (bq_init s) \<le> 1 \<longrightarrow> kthreadd_done s = (if rest_stage (bq_rest s) = 6 then 1 else 0)))"

definition creation_pot :: "boot_seq \<Rightarrow> nat" where
  "creation_pot s = (if bq_oops s then 0 else 9 - rest_stage (bq_rest s) - stage (bq_init s))"

lemma creation_step:
  assumes "creation_inv E s" and "boot_step E s t"
  shows "creation_inv E t" and "creation_pot t < creation_pot s"
proof -
  have ok: "\<not> bq_oops s" using assms(2) by (auto simp: halted_def elim!: boot_step.cases)
  have fails: "\<not> threads_created E" using assms(1) by (simp add: creation_inv_def)
  have pcs: "stage (bq_init s) \<le> 2" "bq_async s = []" using assms(1) ok by (simp_all add: creation_inv_def)
  have idle: "bq_rest s = Idle" if "bq_init s = Workqueues" using assms(1) ok that
    by (simp add: creation_inv_def rest_stage_less)
  have "creation_inv E t \<and> creation_pot t < creation_pot s"
    using assms(2)
  proof cases
    case boot_moves
    have none: "0 < sq_init_pid E \<Longrightarrow> find_task_by_pid_ns (sq_kthreadd_pid E) = None"
      using fails by (simp add: threads_created_def find_task_by_pid_ns_def)
    have pc: "bq_rest s \<noteq> Spawn_init \<Longrightarrow> stage (bq_init s) = (if 0 < sq_init_pid E then 1 else 0)"
      using assms(1) ok idle pcs(1) boot_moves(2)
      by (cases "bq_init s"; cases "bq_rest s"; simp add: creation_inv_def rest_init_def; (elim conjE)?; simp?)
    show ?thesis
    proof (cases "0 < sq_init_pid E")
      case True
      then show ?thesis
        by (cases "bq_rest s") (use boot_moves(2) assms(1) ok pcs none pc in
          \<open>simp_all add: rest_init_def calls_def creation_inv_def creation_pot_def find_task_by_pid_ns_def [of "sq_init_pid E"]\<close>,
          (use boot_moves(2) assms(1) ok pcs none pc in auto)?)
    next
      case False
      then have "bq_rest s = Spawn_init \<or> bq_rest s = Pin_init"
        using assms(1) ok boot_moves(2) by (cases "bq_rest s") (simp_all add: creation_inv_def rest_init_def)
      then show ?thesis using False boot_moves(2) assms(1) ok pcs pc
        by (elim disjE) (auto simp: rest_init_def calls_def creation_inv_def creation_pot_def find_task_by_pid_ns_def)
    qed
  next
    case init_moves
    have "bq_init s \<in> {Unborn, Wait_kthreadd, Workqueues}" using pcs(1) by (cases "bq_init s") auto
    then show ?thesis using init_moves(2) assms(1) ok fails idle rest_stage_less(1) [of "bq_rest s"]
      by (elim insertE) (auto simp: init_thread_def calls_def creation_inv_def creation_pot_def rest_stage_less split: if_splits)
  next
    case (async_moves k)
    then show ?thesis using pcs(2) by (simp add: async_thread_def)
  qed
  then show "creation_inv E t" "creation_pot t < creation_pot s" by simp_all
qed

interpretation failed_boot: bounded_system "boot_step E" "creation_inv E" creation_pot for E
  by unfold_locales (rule creation_step(1), assumption+, rule creation_step(2), assumption+)

lemma start_creation: "\<not> threads_created E \<Longrightarrow> creation_inv E (rest_start b ic)"
  by (simp add: creation_inv_def rest_start_def)

text \<open>C37: \<open>rest_init\<close> does not look at the results of its two thread creations: if either fails, every
  schedule is over after at most nine steps, and each that cannot go on has ended in an oops.\<close>
theorem unchecked_creation_oopses:
  assumes "\<not> threads_created E" and "steps (boot_step E) k (rest_start b ic) s"
  shows "k \<le> 9 \<and> (bq_oops s \<or> (\<exists>t. boot_step E s t))"
proof
  show "k \<le> 9"
    using failed_boot.run_bounded [OF assms(2) start_creation [OF assms(1)]] by (simp add: creation_pot_def rest_start_def)
  have inv: "creation_inv E s"
    by (rule failed_boot.reach_keeps [OF steps_reach [OF assms(2)] start_creation [OF assms(1)]])
  show "bq_oops s \<or> (\<exists>t. boot_step E s t)"
  proof (rule ccontr)
    assume stuck: "\<not> ?thesis"
    then have inv: "stage (bq_init s) \<le> 2" "stage (bq_init s) = 0 \<longleftrightarrow> rest_stage (bq_rest s) = 0 \<or> sq_init_pid E \<le> 0"
      "stage (bq_init s) \<le> 1 \<longrightarrow> kthreadd_done s = (if rest_stage (bq_rest s) = 6 then 1 else 0)"
      "2 \<le> rest_stage (bq_rest s) \<longrightarrow> 0 < sq_init_pid E"
      using inv by (simp_all add: creation_inv_def)
    then have go: "\<not> halted s" using stuck by (auto simp: halted_def split: init_pc.splits)
    then have none: "rest_init E s = None" "init_thread E s = None"
      using stuck by (metis boot_step.intros not_None_eq)+
    have "bq_rest s = Idle" using none(1) rest_moves [of s E] by fastforce
    then show False using inv none(2) by (cases "bq_init s") (auto simp: init_thread_def)
  qed
qed

theorem unchecked_creation_oopses_witness:
  "\<exists>s. steps (boot_step (sample_seq\<lparr>sq_kthreadd_pid := -11\<rparr>)) 8 (rest_start blank_boot sample_ic) s
    \<and> bq_oops s \<and> (8::nat) \<le> 9"
proof -
  let ?E = "sample_seq\<lparr>sq_kthreadd_pid := -11\<rparr>"
  have fails: "\<not> threads_created ?E" by (simp add: threads_created_def)
  have "map_option bq_oops (run_boot ?E [0, 0, 0, 0, 0, 0, 1, 1] (rest_start blank_boot sample_ic)) = Some True"
    by code_simp
  then obtain s where s: "run_boot ?E [0, 0, 0, 0, 0, 0, 1, 1] (rest_start blank_boot sample_ic) = Some s" "bq_oops s"
    by auto
  have eight: "length [0, 0, 0, 0, 0, 0, 1, 1 :: nat] + 0 = 8" by simp
  have run: "steps (boot_step ?E) 8 (rest_start blank_boot sample_ic) s"
    using run_boot_steps [OF s(1) steps_none] unfolding eight .
  then show ?thesis using unchecked_creation_oopses [OF fails run] s(2) by auto
qed

lemma sample_boot_end:
  "map_option bq_init (run_boot sample_seq sample_schedule (rest_start blank_boot sample_ic))
     = Some (Ended (Panicked ''No working init found.''))"
  by code_simp

lemma sample_boot_exec:
  "map_option (\<lambda>s. (bq_init s, bq_oops s)) (run_boot sample_seq (butlast sample_schedule) (rest_start blank_boot sample_ic))
     = Some (Run_init, False)"
  by code_simp

lemma sample_boot:
  obtains s where "steps (boot_step sample_seq) 27 (rest_start blank_boot sample_ic) s"
    and "bq_init s = Ended (Panicked ''No working init found.'')" and "seq_inv sample_seq blank_boot sample_ic s"
proof -
  obtain s where s: "run_boot sample_seq sample_schedule (rest_start blank_boot sample_ic) = Some s"
    "bq_init s = Ended (Panicked ''No working init found.'')"
    using sample_boot_end by auto
  have length: "length sample_schedule + 0 = 27" by (simp add: sample_schedule_def)
  have run: "steps (boot_step sample_seq) 27 (rest_start blank_boot sample_ic) s"
    using run_boot_steps [OF s(1) steps_none] unfolding length .
  show thesis by (rule that [OF run s(2) reached_inv [OF sample_created steps_reach [OF run]]])
qed

theorem boot_never_oopses_witness:
  "\<exists>s t. reach (boot_step sample_seq) (rest_start blank_boot sample_ic) s \<and> boot_step sample_seq s t \<and> \<not> bq_oops t
    \<and> kthreadd_task t = Some 2 \<and> system_state s \<le> system_state t \<and> system_state t = SYSTEM_RUNNING \<and> \<not> bq_initmem t"
proof -
  obtain s where s: "run_boot sample_seq (butlast sample_schedule) (rest_start blank_boot sample_ic) = Some s"
    "bq_init s = Run_init" "\<not> bq_oops s"
    using sample_boot_exec by auto
  obtain e b where eb: "start_first (sq_init sample_seq) (bq_boot s) = (e, b)" by fastforce
  let ?t = "s\<lparr>bq_boot := b, bq_init := Ended e\<rparr>"
  have step: "boot_step sample_seq s ?t"
    using s eb by (intro boot_step.init_moves) (simp_all add: halted_def init_thread_def)
  have "sq_kthreadd_pid sample_seq = 2" by (simp add: sample_seq_def)
  then show ?thesis using boot_never_oopses [OF sample_created run_boot_reach [OF s(1)] step, of e] run_boot_reach [OF s(1)] step
    by (intro exI [of _ s] exI [of _ ?t]) simp
qed

theorem every_boot_ends_alike_witness:
  "\<exists>s. reach (boot_step sample_seq) (rest_start blank_boot sample_ic) s
    \<and> do_initcalls sample_ic_env [] (do_pre_smp_initcalls sample_ic_env [] sample_ic) = Some (bq_ic s)
    \<and> bq_init s = Ended (fst (kernel_init sample_init_env blank_boot)) \<and> bq_ctors s = [4]"
proof -
  obtain s where s: "steps (boot_step sample_seq) 27 (rest_start blank_boot sample_ic) s"
    "bq_init s = Ended (Panicked ''No working init found.'')" "seq_inv sample_seq blank_boot sample_ic s"
    by (rule sample_boot)
  have env: "sq_ic sample_seq = sample_ic_env" "ie_alloc sample_ic_env" "sq_init sample_seq = sample_init_env"
    "sq_ctors sample_seq = [4]" "blacklisted_initcalls blank_boot = []"
    by (simp_all add: sample_seq_def sample_ic_env_def blank_boot_def)
  show ?thesis
    using every_boot_ends_alike [OF sample_created steps_reach [OF s(1)] ended_is_stuck [OF s(3,2)]] steps_reach [OF s(1)]
    unfolding env by (intro exI [of _ s]) (simp add: env(2))
qed

theorem words_reach_every_boot_witness:
  "\<exists>t s. pass (unknown_bootoption sample_boot_env 2) (map word_arg [''auto'', ''single'']) (initial_arrays 2 blank_boot) = Done t
    \<and> reach (boot_step sample_seq) (rest_start t sample_ic) s
    \<and> bq_init s = Ended (Started ''/bin/sh'')
    \<and> in_execve sample_init_env ''/bin/sh'' [Some ''/bin/sh'', Some ''auto'', Some ''single'', None]
         [Some ''HOME=/'', Some ''TERM=linux'', None, None] = 0"
proof -
  have words: "list_all (plain_word sample_boot_env) [''auto'', ''single'']" "length [''auto'', ''single''] \<le> 2"
    using sample_plain by simp_all
  let ?t = "(initial_arrays 2 blank_boot)\<lparr>argv_init := [Some ''init'', Some ''auto'', Some ''single'', None]\<rparr>"
  have pass: "pass (unknown_bootoption sample_boot_env 2) (map word_arg [''auto'', ''single'']) (initial_arrays 2 blank_boot) = Done ?t"
    using initial_words [OF words, of blank_boot] by simp
  have "map_option bq_init (run_boot sample_seq sample_schedule (rest_start ?t sample_ic)) = Some (Ended (Started ''/bin/sh''))"
    by code_simp
  then obtain s where s: "run_boot sample_seq sample_schedule (rest_start ?t sample_ic) = Some s"
    "bq_init s = Ended (Started ''/bin/sh'')" by auto
  note run = run_boot_reach [OF s(1)]
  have "find (starts sample_init_env ?t) (candidates sample_init_env ?t) = Some ''/bin/sh''" by code_simp
  moreover have "sq_init sample_seq = sample_init_env" "ie_alloc (sq_ic sample_seq)"
    by (simp_all add: sample_seq_def sample_ic_env_def)
  ultimately have "in_execve sample_init_env ''/bin/sh''
      (Some ''/bin/sh'' # map Some [''auto'', ''single''] @ replicate (2 + 1 - length [''auto'', ''single'']) None)
      ([Some ''HOME=/'', Some ''TERM=linux''] @ replicate 2 None) = 0"
    using words_reach_every_boot [OF words pass sample_created _ run ended_is_stuck [OF reached_inv [OF sample_created run] s(2)]]
    by simp
  then show ?thesis using pass run s(2) by (intro exI conjI) (auto simp: numeral_2_eq_2)
qed

end
