(* ===== verification/Boot_Whole.thy ===== *)
theory Boot_Whole
  imports Boot_Sequence
begin

text \<open>
  The boot of \<open>Practica1/linux-6.6.44/init/main.c\<close> from the entry of \<open>start_kernel\<close> to the first program:
  \<open>start_kernel\<close> on any command line, then the threads of \<open>rest_init\<close> and \<open>kernel_init\<close> in any order.
\<close>

subsection \<open>What the first program gets\<close>

lemma kernel_init_result:
  assumes "arrays_terminated M s" and "0 < M"
  shows "case find (starts I s) (candidates I s) of
       None \<Rightarrow> \<exists>msg. fst (kernel_init I s) = Panicked msg
     | Some f \<Rightarrow> (\<exists>t. kernel_init I s = (Started f, t) \<and> in_execve I f (argv_init t) (envp_init t) = 0
         \<and> argv_init t ! 0 = Some f \<and> arrays_terminated M t)"
proof (cases "find (starts I s) (candidates I s)")
  case (Some f)
  then have "starts I s f" by (auto simp: find_Some_iff)
  then show ?thesis using Some assms kernel_init_first [of I s]
    by (simp add: first_start_def starts_freeable starts_def arrays_terminated_def)
qed (use kernel_init_first [of I s] in \<open>simp add: first_start_def starts_freeable\<close>)

subsection \<open>From the entry to the first program\<close>

text \<open>C14: the whole boot: from any command line, boot configuration, ramdisk and interrupt flag, with any answers of
  the boot allocator and any effects of the initialisers, \<open>start_kernel\<close> never leaves a buffer; it panics or
  reaches \<open>rest_init\<close>. From there no schedule of the threads oopses or runs for ever, and when
  nothing can move any more, either the copy of the command line for the initcalls could not be
  allocated, or the kernel has panicked because no program could be started, or a
  program runs: the first candidate that can be started, and \<open>kernel_execve\<close> had been given its name
  and two arrays that end in a null pointer.\<close>
theorem whole_boot:
  assumes "sound_start B" and "threads_created E"
  shows "\<exists>r m. start_kernel B ird b (power_on off) = Done (r, m)
    \<and> (case r of
         Inl msg \<Rightarrow> True
       | Inr k \<Rightarrow> (\<forall>n s. steps (boot_step E) n (rest_start (sd_state k) ic) s \<longrightarrow>
           n \<le> boot_bound E \<and> \<not> bq_oops s
           \<and> ((\<exists>t. boot_step E s t)
              \<or> (bq_init s = Failed_alloc \<and> \<not> ie_alloc (sq_ic E))
              \<or> (\<exists>msg. bq_init s = Ended (Panicked msg)
                   \<and> find (starts (sq_init E) (sd_state k)) (candidates (sq_init E) (sd_state k)) = None)
              \<or> (\<exists>f. bq_init s = Ended (Started f)
                   \<and> find (starts (sq_init E) (sd_state k)) (candidates (sq_init E) (sd_state k)) = Some f
                   \<and> system_state s = SYSTEM_RUNNING
                   \<and> in_execve (sq_init E) f (argv_init (bq_boot s)) (envp_init (bq_boot s)) = 0
                   \<and> argv_init (bq_boot s) ! 0 = Some f \<and> arrays_terminated (st_limit B) (bq_boot s)))))"
proof -
  obtain r m where start: "start_kernel B ird b (power_on off) = Done (r, m)"
    "case r of Inl msg \<Rightarrow> True | Inr k \<Rightarrow> arrays_terminated (st_limit B) (sd_state k) \<and> \<not> boot_panics (sd_state k)"
    using start_kernel_total [OF assms(1)] by blast
  have limit: "0 < st_limit B" using assms(1) by (simp add: sound_start_def)
  have run: "n \<le> boot_bound E \<and> \<not> bq_oops s
           \<and> ((\<exists>t. boot_step E s t)
              \<or> (bq_init s = Failed_alloc \<and> \<not> ie_alloc (sq_ic E))
              \<or> (\<exists>msg. bq_init s = Ended (Panicked msg)
                   \<and> find (starts (sq_init E) (sd_state k)) (candidates (sq_init E) (sd_state k)) = None)
              \<or> (\<exists>f. bq_init s = Ended (Started f)
                   \<and> find (starts (sq_init E) (sd_state k)) (candidates (sq_init E) (sd_state k)) = Some f
                   \<and> system_state s = SYSTEM_RUNNING
                   \<and> in_execve (sq_init E) f (argv_init (bq_boot s)) (envp_init (bq_boot s)) = 0
                   \<and> argv_init (bq_boot s) ! 0 = Some f \<and> arrays_terminated (st_limit B) (bq_boot s)))"
    if r: "r = Inr k" and steps: "steps (boot_step E) n (rest_start (sd_state k) ic) s" for k n s
  proof -
    have arrays: "arrays_terminated (st_limit B) (sd_state k)" using start(2) r by simp
    have "seq_inv E (sd_state k) ic s" by (rule reached_inv [OF assms(2) steps_reach [OF steps]])
    then have bound: "n \<le> boot_bound E" "\<not> bq_oops s"
      using boot_bounded [OF assms(2) steps] by (simp_all add: seq_inv_def)
    have ended: "bq_init s = Failed_alloc \<and> \<not> ie_alloc (sq_ic E)
        \<or> (bq_init s = Ended (fst (kernel_init (sq_init E) (sd_state k))) \<and> system_state s = SYSTEM_RUNNING
           \<and> bq_boot s = snd (kernel_init (sq_init E) (sd_state k)))" if "\<nexists>t. boot_step E s t"
      using boot_end [OF assms(2) steps_reach [OF steps] that] by (auto split: if_splits)
    show ?thesis using bound ended kernel_init_result [OF arrays limit, of "sq_init E"]
      by (cases "find (starts (sq_init E) (sd_state k)) (candidates (sq_init E) (sd_state k))") auto
  qed
  show ?thesis using start(1) run by (intro exI conjI) (auto split: sum.split)
qed

text \<open>Application: the line \<open>ro\<close> with one unknown option, then a schedule with one asynchronous function.\<close>

definition plain_start :: start_env where
  "plain_start = sample_start\<lparr>st_config := sample_config\<lparr>cf_parse := (\<lambda>l. ([], Parse_error))\<rparr>, st_boot_line := ''ro'',
     st_parse := (\<lambda>l. ([word_arg ''single''], [])), st_early := (\<lambda>l. [])\<rparr>"

definition plain_boot :: boot_state where
  "plain_boot = (initial_arrays 2 blank_boot)\<lparr>argv_init := [Some ''init'', Some ''single'', None, None]\<rparr>"

lemma plain_fields [simp]: "st_limit plain_start = 2" "st_boot_line plain_start = ''ro''" "st_arch_line plain_start = ''ro''"
  "cf_alloc (st_config plain_start) = (\<lambda>n. True)"
  by (simp_all add: plain_start_def sample_start_def sample_config_def)

lemma plain_sound: "sound_start plain_start"
  using sample_start_sound
  by (auto simp: sound_start_def plain_start_def boot_lines_ok_def sample_start_def sample_config_def)

lemma plain_config: "setup_boot_config (st_config plain_start) ''ro'' no_initrd blank_config = Done (blank_config, no_initrd)"
  by (simp add: setup_boot_config_def plain_start_def config_data_def get_boot_config_from_initrd_def no_initrd_def)

lemma plain_lines:
  "\<exists>saved static n. setup_command_line (config_lines (\<lambda>n. True) ''ro'' blank_config) ''ro'' = Done (Inr (saved, static, n))
    \<and> cstr saved = Some ''ro'' \<and> cstr static = Some ''ro''"
  using command_line_copies_fit [of "config_lines (\<lambda>n. True) ''ro'' blank_config" "''ro''"]
  by (auto simp: config_lines_def blank_config_def saved_text_def text_of_def)

lemma plain_early: "parse_early_param plain_start p = (True, snd p)"
  by (simp add: parse_early_param_def split_beta plain_start_def parse_early_options_def)

lemma plain_options: "\<exists>report. collect_options plain_start blank_config ''ro'' (initial_arrays 2 blank_boot) = Done (plain_boot, report)"
proof -
  have w: "pass (unknown_bootoption sample_boot_env 2) [word_arg ''single''] (initial_arrays 2 blank_boot) = Done plain_boot"
    using initial_words [of sample_boot_env "[''single'']" 2 blank_boot] sample_plain by (simp add: plain_boot_def numeral_2_eq_2)
  have p: "boot_inv 2 plain_boot" by (simp add: boot_inv_def plain_boot_def initial_arrays_def numeral_3_eq_3)
  obtain report where "print_unknown_bootoptions (\<lambda>n. True) plain_boot = Done report"
    using print_unknown_exact [OF p, of "\<lambda>n. True"] by auto
  then show ?thesis using w
    by (simp add: collect_options_def plain_start_def sample_start_def blank_config_def sample_config_def Let_def)
qed

lemma plain_started:
  "\<exists>k m. start_kernel plain_start no_initrd blank_boot (power_on True) = Done (Inr k, m) \<and> sd_state k = plain_boot"
proof -
  obtain saved static n where l: "setup_command_line (config_lines (\<lambda>n. True) ''ro'' blank_config) ''ro'' = Done (Inr (saved, static, n))"
    "cstr saved = Some ''ro''" "cstr static = Some ''ro''" using plain_lines by blast
  obtain report where o: "collect_options plain_start blank_config ''ro'' (initial_arrays 2 blank_boot) = Done (plain_boot, report)"
    using plain_options by blast
  have "bs_panic_later plain_boot = None" by (simp add: plain_boot_def initial_arrays_def)
  then show ?thesis by (simp add: start_kernel_def plain_config plain_early l o Let_def split_beta)
qed

theorem whole_boot_witness:
  "\<exists>k m s. start_kernel plain_start no_initrd blank_boot (power_on True) = Done (Inr k, m)
    \<and> steps (boot_step sample_seq) 27 (rest_start (sd_state k) sample_ic) s \<and> (27::nat) \<le> boot_bound sample_seq
    \<and> bq_init s = Ended (Started ''/bin/sh'') \<and> argv_init (bq_boot s) ! 0 = Some ''/bin/sh''
    \<and> arrays_terminated 2 (bq_boot s)"
proof -
  obtain k m where k: "start_kernel plain_start no_initrd blank_boot (power_on True) = Done (Inr k, m)"
    "sd_state k = plain_boot"
    using plain_started by blast
  have "map_option bq_init (run_boot sample_seq sample_schedule (rest_start plain_boot sample_ic))
      = Some (Ended (Started ''/bin/sh''))"
    by code_simp
  then obtain s where s: "run_boot sample_seq sample_schedule (rest_start plain_boot sample_ic) = Some s"
    "bq_init s = Ended (Started ''/bin/sh'')" by auto
  have length: "length sample_schedule + 0 = 27" by (simp add: sample_schedule_def)
  have run: "steps (boot_step sample_seq) 27 (rest_start plain_boot sample_ic) s"
    using run_boot_steps [OF s(1) steps_none] unfolding length .
  have stuck: "\<nexists>t. boot_step sample_seq s t"
    by (rule ended_is_stuck [OF reached_inv [OF sample_created steps_reach [OF run]] s(2)])
  have "27 \<le> boot_bound sample_seq \<and> argv_init (bq_boot s) ! 0 = Some ''/bin/sh'' \<and> arrays_terminated 2 (bq_boot s)"
    using whole_boot [OF plain_sound sample_created, of no_initrd blank_boot True sample_ic]
    by (simp add: k, elim allE [where x = "27::nat"] allE [where x = s]) (use run stuck s(2) in auto)
  then show ?thesis using k run s(2) by auto
qed

end
