(* ===== verification/Syscall_Wrap.thy ===== *)
theory Syscall_Wrap
  imports Kernel_Prelude
begin

text \<open>
  The macros of \<open>Proyecto/linux-6.6.44/include/linux/syscalls.h\<close> (the copy of \<open>Practica2\<close> is the same
  without seven prototypes) that turn the body of a system call into its entry point, the
  prototypes of the calls the repository defines, and the few calls the header defines
  itself. Types and names of arguments are the texts a macro receives; the kernel's
  type names stand for the C types of their definitions. The width of \<open>long\<close> is a parameter.
\<close>

subsection \<open>C types\<close>

datatype c_type = T_ushort | T_int | T_uint | T_long | T_ulong | T_llong | T_ullong | T_int128 | T_ptr

fun type_bits :: "nat \<Rightarrow> c_type \<Rightarrow> nat" where
  "type_bits w T_ushort = 16"
| "type_bits w T_int = 32"
| "type_bits w T_uint = 32"
| "type_bits w T_long = w"
| "type_bits w T_ulong = w"
| "type_bits w T_llong = 64"
| "type_bits w T_ullong = 64"
| "type_bits w T_int128 = 128"
| "type_bits w T_ptr = w"

definition type_signed :: "c_type \<Rightarrow> bool" where
  "type_signed t = (t \<in> {T_int, T_long, T_llong, T_int128})"

definition type_names :: "(string \<times> c_type) list" where
  "type_names = [(''int'', T_int), (''unsigned long'', T_ulong), (''unsigned int'', T_uint), (''size_t'', T_ulong),
     (''unsigned'', T_uint), (''pid_t'', T_int), (''loff_t'', T_llong), (''umode_t'', T_ushort), (''long'', T_long),
     (''clockid_t'', T_int), (''uid_t'', T_uint), (''gid_t'', T_uint), (''old_uid_t'', T_ushort),
     (''old_gid_t'', T_ushort), (''u32'', T_uint), (''timer_t'', T_int), (''mqd_t'', T_int),
     (''aio_context_t'', T_ulong), (''__u32'', T_uint), (''key_t'', T_int), (''__s32'', T_int),
     (''uint32_t'', T_uint), (''u64'', T_ullong), (''s64'', T_llong), (''s128'', T_int128), (''rwf_t'', T_int),
     (''qid_t'', T_uint), (''old_sigset_t'', T_ulong), (''off_t'', T_long), (''key_serial_t'', T_int),
     (''cap_user_header_t'', T_ptr), (''cap_user_data_t'', T_ptr), (''const cap_user_data_t'', T_ptr),
     (''enum landlock_rule_type'', T_uint), (''__sighandler_t'', T_ptr)]"

definition c_type_of :: "string \<Rightarrow> c_type option" where
  "c_type_of t = (if t \<noteq> [] \<and> last t = CHR ''*'' then Some T_ptr else map_of type_names t)"

text \<open>The conversion of an integer to a type, and the values the type has.\<close>

definition c_convert :: "nat \<Rightarrow> c_type \<Rightarrow> int \<Rightarrow> int" where
  "c_convert w t v =
     (if type_signed t then signed_take_bit (type_bits w t - 1) v else take_bit (type_bits w t) v)"

definition in_type :: "nat \<Rightarrow> c_type \<Rightarrow> int \<Rightarrow> bool" where
  "in_type w t v \<longleftrightarrow>
     (if type_signed t then - (2 ^ (type_bits w t - 1)) \<le> v \<and> v < 2 ^ (type_bits w t - 1)
      else 0 \<le> v \<and> v < 2 ^ type_bits w t)"

subsection \<open>The macros\<close>

text \<open>\<open>__MAP0\<close> to \<open>__MAP6\<close>; \<open>None\<close> is an expansion the compiler rejects. Further pairs are dropped.\<close>

type_synonym c_params = "(string \<times> string) list"

fun map_macro :: "(string \<Rightarrow> string \<Rightarrow> 'b) \<Rightarrow> nat \<Rightarrow> c_params \<Rightarrow> 'b list option" where
  "map_macro m 0 ps = Some []"
| "map_macro m (Suc n) [] = None"
| "map_macro m (Suc n) ((t, a) # ps) = map_option ((#) (m t a)) (map_macro m n ps)"

definition MAP :: "(string \<Rightarrow> string \<Rightarrow> 'b) \<Rightarrow> nat \<Rightarrow> c_params \<Rightarrow> 'b list option" where
  "MAP m n ps = (if n \<le> 6 then map_macro m n ps else None)"

definition type_is_ll :: "c_type \<Rightarrow> bool" where
  "type_is_ll t = (t = T_llong \<or> t = T_ullong)"

definition sc_long :: "c_type \<Rightarrow> c_type" where
  "sc_long t = (if type_is_ll t then T_llong else T_long)"

definition sc_cast :: "nat \<Rightarrow> c_type \<Rightarrow> int \<Rightarrow> int" where
  "sc_cast w t a = c_convert w t a"

text \<open>True when the type passes the build-time test.\<close>

definition sc_test :: "nat \<Rightarrow> c_type \<Rightarrow> bool" where
  "sc_test w t \<longleftrightarrow> \<not> (\<not> type_is_ll t \<and> w < type_bits w t)"

datatype event_class = Event_class_syscall_enter | Event_class_syscall_exit | Other_event_class

record trace_event_call =
  te_class :: event_class
  te_name :: string

record syscall_metadata =
  sm_name :: string
  sm_syscall_nr :: int
  sm_nb_args :: nat
  sm_types :: "string list option"
  sm_args :: "string list option"
  sm_enter_event :: trace_event_call
  sm_exit_event :: trace_event_call

definition SYSCALL_TRACE_ENTER_EVENT :: "string \<Rightarrow> trace_event_call" where
  "SYSCALL_TRACE_ENTER_EVENT sname = \<lparr>te_class = Event_class_syscall_enter, te_name = ''sys_enter'' @ sname\<rparr>"

definition SYSCALL_TRACE_EXIT_EVENT :: "string \<Rightarrow> trace_event_call" where
  "SYSCALL_TRACE_EXIT_EVENT sname = \<lparr>te_class = Event_class_syscall_exit, te_name = ''sys_exit'' @ sname\<rparr>"

definition SYSCALL_METADATA :: "string \<Rightarrow> nat \<Rightarrow> c_params \<Rightarrow> syscall_metadata option" where
  "SYSCALL_METADATA sname nb ps =
     (case (MAP (\<lambda>t a. t) nb ps, MAP (\<lambda>t a. a) nb ps) of
        (Some types, Some args) \<Rightarrow>
          Some \<lparr>sm_name = ''sys'' @ sname, sm_syscall_nr = - 1, sm_nb_args = nb,
                sm_types = (if nb \<noteq> 0 then Some types else None), sm_args = (if nb \<noteq> 0 then Some args else None),
                sm_enter_event = SYSCALL_TRACE_ENTER_EVENT sname, sm_exit_event = SYSCALL_TRACE_EXIT_EVENT sname\<rparr>
      | _ \<Rightarrow> None)"

definition is_syscall_trace_event :: "bool \<Rightarrow> trace_event_call \<Rightarrow> bool" where
  "is_syscall_trace_event ftrace tp_event =
     (if ftrace then te_class tp_event = Event_class_syscall_enter \<or> te_class tp_event = Event_class_syscall_exit
      else False)"

text \<open>
  What a definition leaves behind: the symbol, the metadata where system calls are traced, and
  the entry, from the registers of the caller to the result. A body gets its arguments as
  numbers and returns the \<open>long\<close> result with the new state.
\<close>

record 's syscall =
  sc_symbol :: string
  sc_meta :: "syscall_metadata option"
  sc_entry :: "int list \<Rightarrow> 's \<Rightarrow> int \<times> 's"

definition SYSCALL_DEFINE0 :: "bool \<Rightarrow> string \<Rightarrow> ('s \<Rightarrow> int \<times> 's) \<Rightarrow> 's syscall" where
  "SYSCALL_DEFINE0 ftrace sname body =
     \<lparr>sc_symbol = ''sys_'' @ sname, sc_meta = (if ftrace then SYSCALL_METADATA (''_'' @ sname) 0 [] else None),
      sc_entry = (\<lambda>regs. body)\<rparr>"

definition se_sys :: "nat \<Rightarrow> c_type list \<Rightarrow> (int list \<Rightarrow> 's \<Rightarrow> int \<times> 's) \<Rightarrow> int list \<Rightarrow> 's \<Rightarrow> int \<times> 's" where
  "se_sys w ts body regs s =
     (let longs = map2 (\<lambda>t r. c_convert w (sc_long t) r) ts regs;
          (ret, s) = body (map2 (sc_cast w) ts longs) s
      in (c_convert w T_long ret, s))"

text \<open>\<open>None\<close>: the definition does not compile.\<close>

definition SYSCALL_DEFINEx ::
  "nat \<Rightarrow> bool \<Rightarrow> nat \<Rightarrow> string \<Rightarrow> c_params \<Rightarrow> (int list \<Rightarrow> 's \<Rightarrow> int \<times> 's) \<Rightarrow> 's syscall option" where
  "SYSCALL_DEFINEx w ftrace x sname ps body =
     (case Option.bind (MAP (\<lambda>t a. c_type_of t) x ps) those of
        None \<Rightarrow> None
      | Some ts \<Rightarrow>
          if \<not> list_all (sc_test w) ts then None
          else Some \<lparr>sc_symbol = ''sys'' @ sname, sc_meta = (if ftrace then SYSCALL_METADATA sname x ps else None),
                     sc_entry = se_sys w ts body\<rparr>)"

subsection \<open>Arguments keep their types\<close>

text \<open>A value of the type that the lower bits of a register hold.\<close>

definition holds_value :: "nat \<Rightarrow> c_type \<Rightarrow> int \<Rightarrow> int \<Rightarrow> bool" where
  "holds_value w t r v \<longleftrightarrow> in_type w t v \<and> r mod 2 ^ type_bits w t = v mod 2 ^ type_bits w t"

lemma type_bits_pos [simp]: "0 < w \<Longrightarrow> 0 < type_bits w t"
  by (cases t) simp_all

lemma convert_in_type: "0 < w \<Longrightarrow> in_type w t (c_convert w t r)"
  using signed_take_bit_int_greater_eq_minus_exp [of "type_bits w t - 1" r]
    signed_take_bit_int_less_exp [of "type_bits w t - 1" r]
  by (simp add: in_type_def c_convert_def)

lemma convert_mod: "0 < w \<Longrightarrow> c_convert w t r mod 2 ^ type_bits w t = r mod 2 ^ type_bits w t"
  unfolding take_bit_eq_mod [symmetric]
  by (simp add: c_convert_def take_bit_signed_take_bit)

lemma value_unique:
  assumes "0 < w" and "in_type w t u" and "in_type w t v" and "u mod 2 ^ type_bits w t = v mod 2 ^ type_bits w t"
  shows "u = v"
proof (cases "type_signed t")
  case True
  then have "signed_take_bit (type_bits w t - 1) u = u" "signed_take_bit (type_bits w t - 1) v = v"
    using assms(2,3) by (simp_all add: in_type_def signed_take_bit_int_eq_self)
  moreover have "signed_take_bit (type_bits w t - 1) u = signed_take_bit (type_bits w t - 1) v"
    using assms(1,4) by (simp add: signed_take_bit_eq_iff_take_bit_eq take_bit_eq_mod)
  ultimately show ?thesis by simp
next
  case False
  then show ?thesis using assms by (simp add: in_type_def)
qed

lemma convert_value: "0 < w \<Longrightarrow> holds_value w t r (c_convert w t r)"
  by (simp add: holds_value_def convert_in_type convert_mod)

text \<open>Through the wrapper: the long (or long long) still has all bits of a type that passes the test.\<close>

lemma long_keeps:
  assumes "0 < w" and "sc_test w t"
  shows "sc_cast w t (c_convert w (sc_long t) r) = c_convert w t r"
proof -
  have "type_bits w t \<le> type_bits w (sc_long t)"
    using assms(2) by (cases t) (auto simp: sc_test_def sc_long_def type_is_ll_def)
  then have "2 ^ type_bits w t dvd (2 ^ type_bits w (sc_long t) :: int)" by (rule le_imp_power_dvd)
  then have "c_convert w (sc_long t) r mod 2 ^ type_bits w t = r mod 2 ^ type_bits w t"
    using convert_mod [OF assms(1), of "sc_long t" r] by (metis mod_mod_cancel)
  then show ?thesis unfolding sc_cast_def
    using convert_value [OF assms(1)] value_unique [OF assms(1)] by (metis holds_value_def)
qed

lemma those_map_Some: "those (map Some xs) = Some xs"
  by (induction xs) simp_all

lemma those_Some: "those xs = Some ys \<longleftrightarrow> xs = map Some ys"
proof
  show "those xs = Some ys \<Longrightarrow> xs = map Some ys"
    by (induction xs arbitrary: ys) (auto split: option.splits)
qed (simp add: those_map_Some)

lemma map_macro_length: "map_macro m n ps = Some ys \<Longrightarrow> length ys = n"
  by (induction m n ps arbitrary: ys rule: map_macro.induct) auto

lemma define_compiles:
  assumes "SYSCALL_DEFINEx w ftrace x sname ps body = Some c"
  obtains ts where "MAP (\<lambda>t a. c_type_of t) x ps = Some (map Some ts)" and "length ts = x"
    and "list_all (sc_test w) ts" and "sc_entry c = se_sys w ts body"
proof -
  obtain ts where ts: "Option.bind (MAP (\<lambda>t a. c_type_of t) x ps) those = Some ts" "list_all (sc_test w) ts"
    "sc_entry c = se_sys w ts body"
    using assms by (auto simp: SYSCALL_DEFINEx_def split: option.splits if_splits)
  then have map: "MAP (\<lambda>t a. c_type_of t) x ps = Some (map Some ts)"
    by (auto simp: bind_eq_Some_conv those_Some)
  then have "length ts = x" using map_macro_length [of "\<lambda>t a. c_type_of t" x ps] by (auto simp: MAP_def split: if_splits)
  with map ts(2,3) show thesis using that by blast
qed

lemma wrapper_converts:
  assumes "0 < w" and "list_all (sc_test w) ts" and "length regs = length ts"
  shows "se_sys w ts body regs s = (let (ret, s') = body (map2 (c_convert w) ts regs) s in (c_convert w T_long ret, s'))"
proof -
  have "map2 (sc_cast w) ts (map2 (\<lambda>t r. c_convert w (sc_long t) r) ts regs) = map2 (c_convert w) ts regs"
    using assms by (intro nth_equalityI) (auto simp: long_keeps list_all_length)
  then show ?thesis by (simp add: se_sys_def)
qed

text \<open>C13: whatever the registers of a caller hold, the body of a system call gets, for each argument, exactly
  the value of its declared type that the lower bits of the register hold: never a value
  outside the type, and never one that depends on the upper half of the register of a shorter type.\<close>
theorem arguments_keep_their_types:
  assumes "0 < w" and "SYSCALL_DEFINEx w ftrace x sname ps body = Some c" and "length regs = x"
  shows "\<exists>ts. MAP (\<lambda>t a. c_type_of t) x ps = Some (map Some ts) \<and> length ts = x
    \<and> (\<exists>!args. length args = x \<and> (\<forall>i < x. holds_value w (ts ! i) (regs ! i) (args ! i)))
    \<and> (\<forall>args. length args = x \<and> (\<forall>i < x. holds_value w (ts ! i) (regs ! i) (args ! i)) \<longrightarrow>
         sc_entry c regs s = (let (ret, s') = body args s in (c_convert w T_long ret, s')))"
proof -
  obtain ts where ts: "MAP (\<lambda>t a. c_type_of t) x ps = Some (map Some ts)" "length ts = x"
    "list_all (sc_test w) ts" "sc_entry c = se_sys w ts body"
    by (rule define_compiles [OF assms(2)])
  let ?args = "map2 (c_convert w) ts regs"
  have args: "length ?args = x \<and> (\<forall>i < x. holds_value w (ts ! i) (regs ! i) (?args ! i))"
    using assms(1,3) ts(2) by (simp add: convert_value)
  have unique: "args = ?args"
    if "length args = x \<and> (\<forall>i < x. holds_value w (ts ! i) (regs ! i) (args ! i))" for args
  proof (rule nth_equalityI)
    fix i assume "i < length args"
    then show "args ! i = ?args ! i"
      using that args value_unique [OF assms(1), of "ts ! i" "args ! i" "?args ! i"] by (auto simp: holds_value_def)
  qed (use that args in simp)
  have "sc_entry c regs s = (let (ret, s') = body ?args s in (c_convert w T_long ret, s'))"
    using wrapper_converts [OF assms(1) ts(3), of regs body s] assms(3) ts(2,4) by simp
  then show ?thesis using ts(1,2) args unique by (intro exI [of _ ts]) blast
qed

subsection \<open>Split arguments\<close>

text \<open>A 64-bit argument on a 32-bit machine; \<open>little\<close> is the byte order.\<close>

definition SC_ARG64 :: "bool \<Rightarrow> string \<Rightarrow> c_params" where
  "SC_ARG64 little name =
     (if little then [(''u32'', name @ ''_lo''), (''u32'', name @ ''_hi'')]
      else [(''u32'', name @ ''_hi''), (''u32'', name @ ''_lo'')])"

definition SC_VAL64 :: "nat \<Rightarrow> c_type \<Rightarrow> int \<Rightarrow> int \<Rightarrow> int" where
  "SC_VAL64 w t hi lo = c_convert w t (push_bit 32 (c_convert w t hi) OR lo)"

text \<open>The argument a body calls by a name.\<close>

definition argument :: "c_params \<Rightarrow> int list \<Rightarrow> string \<Rightarrow> int" where
  "argument ps args name = the (map_of (zip (map snd ps) args) name)"

lemma join_halves:
  assumes "t = T_llong \<or> t = T_ullong" and "in_type w t v" and "0 < w"
  shows "SC_VAL64 w t (v div 2 ^ 32 mod 2 ^ 32) (v mod 2 ^ 32) = v"
proof -
  let ?hi = "v div 2 ^ 32 mod 2 ^ 32" and ?lo = "v mod 2 ^ 32"
  have bounds: "0 \<le> ?hi" "?hi < 2 ^ 32" by simp_all
  have hi: "c_convert w t ?hi = ?hi"
    using assms(1) bounds
    by (auto simp: c_convert_def type_signed_def signed_take_bit_int_eq_self take_bit_int_eq_self)
  have "push_bit 32 ?hi AND take_bit 32 v = 0" by (rule bit_eqI) (auto simp: bit_simps)
  then have "push_bit 32 ?hi OR ?lo = push_bit 32 ?hi + ?lo"
    using plus_and_or [of "push_bit 32 ?hi" ?lo] by (simp add: take_bit_eq_mod)
  also have "\<dots> = v mod 2 ^ 64"
    using mod_mult2_eq' [of v "2 ^ 32" "2 ^ 32"] zmod_zmult2_eq [of "2 ^ 32" v "2 ^ 32"] by (simp add: push_bit_eq_mult)
  finally have join: "SC_VAL64 w t ?hi ?lo = c_convert w t (v mod 2 ^ 64)" by (simp only: SC_VAL64_def hi)
  have "c_convert w t (v mod 2 ^ 64) = v"
    using value_unique [OF assms(3) convert_in_type [OF assms(3)] assms(2)] convert_mod [OF assms(3), of t "v mod 2 ^ 64"]
      assms(1) by auto
  then show ?thesis using join by simp
qed

lemma define_entry:
  "MAP (\<lambda>t a. c_type_of t) x ps = Some (map Some ts) \<Longrightarrow> list_all (sc_test w) ts \<Longrightarrow>
   \<exists>c. SYSCALL_DEFINEx w ftrace x sname ps body = Some c \<and> sc_entry c = se_sys w ts body"
  by (simp add: SYSCALL_DEFINEx_def those_map_Some)

lemma split_arguments:
  "argument (SC_ARG64 little name) (map2 f [T_uint, T_uint] (if little then [a, b] else [b, a])) (name @ ''_lo'') = f T_uint a"
  "argument (SC_ARG64 little name) (map2 f [T_uint, T_uint] (if little then [a, b] else [b, a])) (name @ ''_hi'') = f T_uint b"
  by (simp_all add: SC_ARG64_def argument_def)

text \<open>A 64-bit argument split into two 32-bit arguments arrives whole, whatever the byte order, the
  upper halves of the registers and the sign.\<close>
theorem split_argument_arrives:
  assumes "32 \<le> w" and "t = T_llong \<or> t = T_ullong" and "in_type w t v"
    and "lo mod 2 ^ 32 = v mod 2 ^ 32" and "hi mod 2 ^ 32 = v div 2 ^ 32 mod 2 ^ 32"
  shows "\<exists>c. SYSCALL_DEFINEx w ftrace 2 sname (SC_ARG64 little name)
        (\<lambda>args. body (SC_VAL64 w t (argument (SC_ARG64 little name) args (name @ ''_hi''))
                                   (argument (SC_ARG64 little name) args (name @ ''_lo'')))) = Some c
    \<and> sc_entry c (if little then [lo, hi] else [hi, lo]) s
        = (let (ret, s') = body v s in (c_convert w T_long ret, s'))"
proof -
  have types: "MAP (\<lambda>t a. c_type_of t) 2 (SC_ARG64 little name) = Some (map Some [T_uint, T_uint])"
    by (simp add: MAP_def SC_ARG64_def numeral_2_eq_2 c_type_of_def type_names_def)
  have test: "list_all (sc_test w) [T_uint, T_uint]" and w: "0 < w" using assms(1) by (simp_all add: sc_test_def)
  have halves: "c_convert w T_uint lo = v mod 2 ^ 32" "c_convert w T_uint hi = v div 2 ^ 32 mod 2 ^ 32"
    using assms(4,5) by (simp_all add: c_convert_def type_signed_def take_bit_eq_mod)
  let ?body = "\<lambda>args. body (SC_VAL64 w t (argument (SC_ARG64 little name) args (name @ ''_hi''))
                                   (argument (SC_ARG64 little name) args (name @ ''_lo'')))"
  let ?regs = "if little then [lo, hi] else [hi, lo]"
  have "?body (map2 (c_convert w) [T_uint, T_uint] ?regs) = body v"
    unfolding split_arguments halves join_halves [OF assms(2,3) w] ..
  moreover obtain c where "SYSCALL_DEFINEx w ftrace 2 sname (SC_ARG64 little name) ?body = Some c"
    "sc_entry c = se_sys w [T_uint, T_uint] ?body"
    using define_entry [OF types test, of ftrace sname ?body] by blast
  ultimately show ?thesis using wrapper_converts [OF w test, of ?regs ?body s] by (intro exI [of _ c]) simp
qed

subsection \<open>Calls the header defines\<close>

text \<open>Each hands its arguments to a function of the file systems, here a parameter.\<close>

definition AT_FDCWD :: int where "AT_FDCWD = - 100"
definition AT_SYMLINK_NOFOLLOW :: int where "AT_SYMLINK_NOFOLLOW = 256"

definition ksys_chown :: "(int \<Rightarrow> 'p \<Rightarrow> u32 \<Rightarrow> u32 \<Rightarrow> int \<Rightarrow> 'r) \<Rightarrow> 'p \<Rightarrow> u32 \<Rightarrow> u32 \<Rightarrow> 'r" where
  "ksys_chown do_fchownat filename user grp = do_fchownat AT_FDCWD filename user grp 0"

definition ksys_lchown :: "(int \<Rightarrow> 'p \<Rightarrow> u32 \<Rightarrow> u32 \<Rightarrow> int \<Rightarrow> 'r) \<Rightarrow> 'p \<Rightarrow> u32 \<Rightarrow> u32 \<Rightarrow> 'r" where
  "ksys_lchown do_fchownat filename user grp = do_fchownat AT_FDCWD filename user grp AT_SYMLINK_NOFOLLOW"

definition ksys_ftruncate :: "(u32 \<Rightarrow> int \<Rightarrow> int \<Rightarrow> 'r) \<Rightarrow> u32 \<Rightarrow> int \<Rightarrow> 'r" where
  "ksys_ftruncate do_sys_ftruncate fd len = do_sys_ftruncate fd len 1"

definition ksys_truncate :: "('p \<Rightarrow> int \<Rightarrow> 'r) \<Rightarrow> 'p \<Rightarrow> int \<Rightarrow> 'r" where
  "ksys_truncate do_sys_truncate pathname len = do_sys_truncate pathname len"

text \<open>Without \<open>CONFIG_ADVISE_SYSCALLS\<close>.\<close>

definition ksys_fadvise64_64 :: "int \<Rightarrow> int \<Rightarrow> int \<Rightarrow> int \<Rightarrow> int" where
  "ksys_fadvise64_64 fd offset len advice = - EINVAL"

text \<open>The personality of the caller; one value only asks for it.\<close>

definition ksys_personality :: "u32 \<Rightarrow> u32 \<Rightarrow> u32 \<times> u32" where
  "ksys_personality personality old = (old, if personality \<noteq> 0xffffffff then personality else old)"

lemma personality_restored:
  "old \<noteq> 0xffffffff \<Longrightarrow> snd (ksys_personality (fst (ksys_personality p old)) (snd (ksys_personality p old))) = old"
  by (simp add: ksys_personality_def)

subsection \<open>Examples\<close>

text \<open>The head of \<open>my_encrypt\<close>; the caller left bits in the upper half of the last register.\<close>

definition sample_head :: c_params where
  "sample_head = [(''const char __user *'', ''input_filepath''), (''const char __user *'', ''output_filepath''),
     (''const char __user *'', ''key_filepath''), (''int'', ''thread_count'')]"

lemma sample_types: "MAP (\<lambda>t a. c_type_of t) 4 sample_head = Some (map Some [T_ptr, T_ptr, T_ptr, T_int])"
  by (simp add: MAP_def sample_head_def eval_nat_numeral c_type_of_def type_names_def)

theorem arguments_keep_their_types_witness:
  "\<exists>c. SYSCALL_DEFINEx 64 False 4 ''_my_encrypt'' sample_head (\<lambda>args s. (args ! 3, s)) = Some c
    \<and> sc_entry c [1, 2, 3, 2 ^ 32 * 5 - 4] () = (- 4, ())"
proof -
  have "list_all (sc_test 64) [T_ptr, T_ptr, T_ptr, T_int]" by (simp add: sc_test_def)
  then obtain c :: "unit syscall" where c: "SYSCALL_DEFINEx 64 False 4 ''_my_encrypt'' sample_head (\<lambda>args s. (args ! 3, s)) = Some c"
    using define_entry [OF sample_types] by blast
  have held: "length [1, 2, 3, - 4 :: int] = 4
    \<and> (\<forall>i < 4. holds_value 64 ([T_ptr, T_ptr, T_ptr, T_int] ! i) ([1, 2, 3, 2 ^ 32 * 5 - 4] ! i) ([1, 2, 3, - 4] ! i))"
    by (simp add: eval_nat_numeral All_less_Suc holds_value_def in_type_def type_signed_def)
  have "length [1, 2, 3, 2 ^ 32 * 5 - 4 :: int] = 4" by simp
  from arguments_keep_their_types [OF _ c this, of "()"] obtain ts where
    ts: "MAP (\<lambda>t a. c_type_of t) 4 sample_head = Some (map Some ts)"
    "\<And>args. length args = 4 \<and> (\<forall>i < 4. holds_value 64 (ts ! i) ([1, 2, 3, 2 ^ 32 * 5 - 4] ! i) (args ! i)) \<Longrightarrow>
       sc_entry c [1, 2, 3, 2 ^ 32 * 5 - 4] () = (let (ret, s') = (args ! 3, ()) in (c_convert 64 T_long ret, s'))"
    by auto
  have types: "ts = [T_ptr, T_ptr, T_ptr, T_int]" using ts(1) sample_types by (auto simp: Cons_eq_map_conv)
  have "c_convert 64 T_long (- 4) = - 4" by (simp add: c_convert_def type_signed_def signed_take_bit_int_eq_self)
  then show ?thesis using c ts(2) [unfolded types, OF held] by auto
qed

end
