(* ===== verification/Syscall_Prototypes.thy ===== *)
theory Syscall_Prototypes
  imports Syscall_Wrap
begin

text \<open>
  The prototypes of \<open>Proyecto/linux-6.6.44/include/linux/syscalls.h\<close> in the order of the file, in all
  configurations: the symbol with the types and names of its parameters (an empty name where the header has
  none). What they are checked for is that each could be defined with the macros on a
  machine with 32 or 64 bits and that its arguments fit the registers of a call.
\<close>

text \<open>Asynchronous requests, attributes, directories and files.\<close>

definition file_prototypes :: "(string \<times> c_params) list" where
  "file_prototypes =
    [(''sys_io_setup'', [(''unsigned'', ''nr_reqs''), (''aio_context_t __user *'', ''ctx'')]),
     (''sys_io_destroy'', [(''aio_context_t'', ''ctx'')]),
     (''sys_io_submit'', [(''aio_context_t'', ''''), (''long'', ''''), (''struct iocb __user * __user *'', '''')]),
     (''sys_io_cancel'', [(''aio_context_t'', ''ctx_id''), (''struct iocb __user *'', ''iocb''),
        (''struct io_event __user *'', ''result'')]),
     (''sys_io_getevents'', [(''aio_context_t'', ''ctx_id''), (''long'', ''min_nr''), (''long'', ''nr''),
        (''struct io_event __user *'', ''events''), (''struct __kernel_timespec __user *'', ''timeout'')]),
     (''sys_io_getevents_time32'', [(''__u32'', ''ctx_id''), (''__s32'', ''min_nr''), (''__s32'', ''nr''),
        (''struct io_event __user *'', ''events''), (''struct old_timespec32 __user *'', ''timeout'')]),
     (''sys_io_pgetevents'', [(''aio_context_t'', ''ctx_id''), (''long'', ''min_nr''), (''long'', ''nr''),
        (''struct io_event __user *'', ''events''), (''struct __kernel_timespec __user *'', ''timeout''),
        (''const struct __aio_sigset *'', ''sig'')]),
     (''sys_io_pgetevents_time32'', [(''aio_context_t'', ''ctx_id''), (''long'', ''min_nr''), (''long'', ''nr''),
        (''struct io_event __user *'', ''events''), (''struct old_timespec32 __user *'', ''timeout''),
        (''const struct __aio_sigset *'', ''sig'')]),
     (''sys_io_uring_setup'', [(''u32'', ''entries''), (''struct io_uring_params __user *'', ''p'')]),
     (''sys_io_uring_enter'', [(''unsigned int'', ''fd''), (''u32'', ''to_submit''), (''u32'', ''min_complete''),
        (''u32'', ''flags''), (''const void __user *'', ''argp''), (''size_t'', ''argsz'')]),
     (''sys_io_uring_register'', [(''unsigned int'', ''fd''), (''unsigned int'', ''op''),
        (''void __user *'', ''arg''), (''unsigned int'', ''nr_args'')]),
     (''sys_setxattr'', [(''const char __user *'', ''path''), (''const char __user *'', ''name''),
        (''const void __user *'', ''value''), (''size_t'', ''size''), (''int'', ''flags'')]),
     (''sys_lsetxattr'', [(''const char __user *'', ''path''), (''const char __user *'', ''name''),
        (''const void __user *'', ''value''), (''size_t'', ''size''), (''int'', ''flags'')]),
     (''sys_fsetxattr'', [(''int'', ''fd''), (''const char __user *'', ''name''),
        (''const void __user *'', ''value''), (''size_t'', ''size''), (''int'', ''flags'')]),
     (''sys_getxattr'', [(''const char __user *'', ''path''), (''const char __user *'', ''name''),
        (''void __user *'', ''value''), (''size_t'', ''size'')]),
     (''sys_lgetxattr'', [(''const char __user *'', ''path''), (''const char __user *'', ''name''),
        (''void __user *'', ''value''), (''size_t'', ''size'')]),
     (''sys_fgetxattr'', [(''int'', ''fd''), (''const char __user *'', ''name''), (''void __user *'', ''value''),
        (''size_t'', ''size'')]),
     (''sys_listxattr'', [(''const char __user *'', ''path''), (''char __user *'', ''list''),
        (''size_t'', ''size'')]),
     (''sys_llistxattr'', [(''const char __user *'', ''path''), (''char __user *'', ''list''),
        (''size_t'', ''size'')]),
     (''sys_flistxattr'', [(''int'', ''fd''), (''char __user *'', ''list''), (''size_t'', ''size'')]),
     (''sys_removexattr'', [(''const char __user *'', ''path''), (''const char __user *'', ''name'')]),
     (''sys_lremovexattr'', [(''const char __user *'', ''path''), (''const char __user *'', ''name'')]),
     (''sys_fremovexattr'', [(''int'', ''fd''), (''const char __user *'', ''name'')]),
     (''sys_getcwd'', [(''char __user *'', ''buf''), (''unsigned long'', ''size'')]),
     (''sys_lookup_dcookie'', [(''u64'', ''cookie64''), (''char __user *'', ''buf''), (''size_t'', ''len'')]),
     (''sys_eventfd2'', [(''unsigned int'', ''count''), (''int'', ''flags'')]),
     (''sys_epoll_create1'', [(''int'', ''flags'')]),
     (''sys_epoll_ctl'', [(''int'', ''epfd''), (''int'', ''op''), (''int'', ''fd''),
        (''struct epoll_event __user *'', ''event'')]),
     (''sys_epoll_pwait'', [(''int'', ''epfd''), (''struct epoll_event __user *'', ''events''),
        (''int'', ''maxevents''), (''int'', ''timeout''), (''const sigset_t __user *'', ''sigmask''),
        (''size_t'', ''sigsetsize'')]),
     (''sys_epoll_pwait2'', [(''int'', ''epfd''), (''struct epoll_event __user *'', ''events''),
        (''int'', ''maxevents''), (''const struct __kernel_timespec __user *'', ''timeout''),
        (''const sigset_t __user *'', ''sigmask''), (''size_t'', ''sigsetsize'')]),
     (''sys_dup'', [(''unsigned int'', ''fildes'')]),
     (''sys_dup3'', [(''unsigned int'', ''oldfd''), (''unsigned int'', ''newfd''), (''int'', ''flags'')]),
     (''sys_fcntl'', [(''unsigned int'', ''fd''), (''unsigned int'', ''cmd''), (''unsigned long'', ''arg'')]),
     (''sys_fcntl64'', [(''unsigned int'', ''fd''), (''unsigned int'', ''cmd''), (''unsigned long'', ''arg'')]),
     (''sys_inotify_init1'', [(''int'', ''flags'')]),
     (''sys_inotify_add_watch'', [(''int'', ''fd''), (''const char __user *'', ''path''), (''u32'', ''mask'')]),
     (''sys_inotify_rm_watch'', [(''int'', ''fd''), (''__s32'', ''wd'')]),
     (''sys_ioctl'', [(''unsigned int'', ''fd''), (''unsigned int'', ''cmd''), (''unsigned long'', ''arg'')]),
     (''sys_ioprio_set'', [(''int'', ''which''), (''int'', ''who''), (''int'', ''ioprio'')]),
     (''sys_ioprio_get'', [(''int'', ''which''), (''int'', ''who'')]),
     (''sys_flock'', [(''unsigned int'', ''fd''), (''unsigned int'', ''cmd'')]),
     (''sys_mknodat'', [(''int'', ''dfd''), (''const char __user *'', ''filename''), (''umode_t'', ''mode''),
        (''unsigned'', ''dev'')]),
     (''sys_mkdirat'', [(''int'', ''dfd''), (''const char __user *'', ''pathname''), (''umode_t'', ''mode'')]),
     (''sys_unlinkat'', [(''int'', ''dfd''), (''const char __user *'', ''pathname''), (''int'', ''flag'')]),
     (''sys_symlinkat'', [(''const char __user *'', ''oldname''), (''int'', ''newdfd''),
        (''const char __user *'', ''newname'')]),
     (''sys_linkat'', [(''int'', ''olddfd''), (''const char __user *'', ''oldname''), (''int'', ''newdfd''),
        (''const char __user *'', ''newname''), (''int'', ''flags'')]),
     (''sys_renameat'', [(''int'', ''olddfd''), (''const char __user *'', ''oldname''), (''int'', ''newdfd''),
        (''const char __user *'', ''newname'')]),
     (''sys_umount'', [(''char __user *'', ''name''), (''int'', ''flags'')]),
     (''sys_mount'', [(''char __user *'', ''dev_name''), (''char __user *'', ''dir_name''),
        (''char __user *'', ''type''), (''unsigned long'', ''flags''), (''void __user *'', ''data'')]),
     (''sys_pivot_root'', [(''const char __user *'', ''new_root''), (''const char __user *'', ''put_old'')]),
     (''sys_statfs'', [(''const char __user *'', ''path''), (''struct statfs __user *'', ''buf'')]),
     (''sys_statfs64'', [(''const char __user *'', ''path''), (''size_t'', ''sz''),
        (''struct statfs64 __user *'', ''buf'')]),
     (''sys_fstatfs'', [(''unsigned int'', ''fd''), (''struct statfs __user *'', ''buf'')]),
     (''sys_fstatfs64'', [(''unsigned int'', ''fd''), (''size_t'', ''sz''), (''struct statfs64 __user *'', ''buf'')]),
     (''sys_truncate'', [(''const char __user *'', ''path''), (''long'', ''length'')]),
     (''sys_ftruncate'', [(''unsigned int'', ''fd''), (''off_t'', ''length'')]),
     (''sys_truncate64'', [(''const char __user *'', ''path''), (''loff_t'', ''length'')]),
     (''sys_ftruncate64'', [(''unsigned int'', ''fd''), (''loff_t'', ''length'')]),
     (''sys_fallocate'', [(''int'', ''fd''), (''int'', ''mode''), (''loff_t'', ''offset''), (''loff_t'', ''len'')]),
     (''sys_faccessat'', [(''int'', ''dfd''), (''const char __user *'', ''filename''), (''int'', ''mode'')]),
     (''sys_faccessat2'', [(''int'', ''dfd''), (''const char __user *'', ''filename''), (''int'', ''mode''),
        (''int'', ''flags'')]),
     (''sys_chdir'', [(''const char __user *'', ''filename'')]),
     (''sys_fchdir'', [(''unsigned int'', ''fd'')]),
     (''sys_chroot'', [(''const char __user *'', ''filename'')]),
     (''sys_fchmod'', [(''unsigned int'', ''fd''), (''umode_t'', ''mode'')]),
     (''sys_fchmodat'', [(''int'', ''dfd''), (''const char __user *'', ''filename''), (''umode_t'', ''mode'')]),
     (''sys_fchmodat2'', [(''int'', ''dfd''), (''const char __user *'', ''filename''), (''umode_t'', ''mode''),
        (''unsigned int'', ''flags'')]),
     (''sys_fchownat'', [(''int'', ''dfd''), (''const char __user *'', ''filename''), (''uid_t'', ''user''),
        (''gid_t'', ''group''), (''int'', ''flag'')]),
     (''sys_fchown'', [(''unsigned int'', ''fd''), (''uid_t'', ''user''), (''gid_t'', ''group'')]),
     (''sys_openat'', [(''int'', ''dfd''), (''const char __user *'', ''filename''), (''int'', ''flags''),
        (''umode_t'', ''mode'')]),
     (''sys_openat2'', [(''int'', ''dfd''), (''const char __user *'', ''filename''),
        (''struct open_how *'', ''how''), (''size_t'', ''size'')]),
     (''sys_close'', [(''unsigned int'', ''fd'')]),
     (''sys_close_range'', [(''unsigned int'', ''fd''), (''unsigned int'', ''max_fd''),
        (''unsigned int'', ''flags'')]),
     (''sys_vhangup'', []),
     (''sys_pipe2'', [(''int __user *'', ''fildes''), (''int'', ''flags'')]),
     (''sys_quotactl'', [(''unsigned int'', ''cmd''), (''const char __user *'', ''special''),
        (''qid_t'', ''id''), (''void __user *'', ''addr'')]),
     (''sys_quotactl_fd'', [(''unsigned int'', ''fd''), (''unsigned int'', ''cmd''), (''qid_t'', ''id''),
        (''void __user *'', ''addr'')])]"

text \<open>Descriptors, time stamps, processes and timers.\<close>

definition descriptor_prototypes :: "(string \<times> c_params) list" where
  "descriptor_prototypes =
    [(''sys_getdents64'', [(''unsigned int'', ''fd''), (''struct linux_dirent64 __user *'', ''dirent''),
        (''unsigned int'', ''count'')]),
     (''sys_llseek'', [(''unsigned int'', ''fd''), (''unsigned long'', ''offset_high''),
        (''unsigned long'', ''offset_low''), (''loff_t __user *'', ''result''), (''unsigned int'', ''whence'')]),
     (''sys_lseek'', [(''unsigned int'', ''fd''), (''off_t'', ''offset''), (''unsigned int'', ''whence'')]),
     (''sys_read'', [(''unsigned int'', ''fd''), (''char __user *'', ''buf''), (''size_t'', ''count'')]),
     (''sys_write'', [(''unsigned int'', ''fd''), (''const char __user *'', ''buf''), (''size_t'', ''count'')]),
     (''sys_readv'', [(''unsigned long'', ''fd''), (''const struct iovec __user *'', ''vec''),
        (''unsigned long'', ''vlen'')]),
     (''sys_writev'', [(''unsigned long'', ''fd''), (''const struct iovec __user *'', ''vec''),
        (''unsigned long'', ''vlen'')]),
     (''sys_pread64'', [(''unsigned int'', ''fd''), (''char __user *'', ''buf''), (''size_t'', ''count''),
        (''loff_t'', ''pos'')]),
     (''sys_pwrite64'', [(''unsigned int'', ''fd''), (''const char __user *'', ''buf''), (''size_t'', ''count''),
        (''loff_t'', ''pos'')]),
     (''sys_preadv'', [(''unsigned long'', ''fd''), (''const struct iovec __user *'', ''vec''),
        (''unsigned long'', ''vlen''), (''unsigned long'', ''pos_l''), (''unsigned long'', ''pos_h'')]),
     (''sys_pwritev'', [(''unsigned long'', ''fd''), (''const struct iovec __user *'', ''vec''),
        (''unsigned long'', ''vlen''), (''unsigned long'', ''pos_l''), (''unsigned long'', ''pos_h'')]),
     (''sys_sendfile64'', [(''int'', ''out_fd''), (''int'', ''in_fd''), (''loff_t __user *'', ''offset''),
        (''size_t'', ''count'')]),
     (''sys_pselect6'', [(''int'', ''''), (''fd_set __user *'', ''''), (''fd_set __user *'', ''''),
        (''fd_set __user *'', ''''), (''struct __kernel_timespec __user *'', ''''), (''void __user *'', '''')]),
     (''sys_pselect6_time32'', [(''int'', ''''), (''fd_set __user *'', ''''), (''fd_set __user *'', ''''),
        (''fd_set __user *'', ''''), (''struct old_timespec32 __user *'', ''''), (''void __user *'', '''')]),
     (''sys_ppoll'', [(''struct pollfd __user *'', ''''), (''unsigned int'', ''''),
        (''struct __kernel_timespec __user *'', ''''), (''const sigset_t __user *'', ''''), (''size_t'', '''')]),
     (''sys_ppoll_time32'', [(''struct pollfd __user *'', ''''), (''unsigned int'', ''''),
        (''struct old_timespec32 __user *'', ''''), (''const sigset_t __user *'', ''''), (''size_t'', '''')]),
     (''sys_signalfd4'', [(''int'', ''ufd''), (''sigset_t __user *'', ''user_mask''), (''size_t'', ''sizemask''),
        (''int'', ''flags'')]),
     (''sys_vmsplice'', [(''int'', ''fd''), (''const struct iovec __user *'', ''iov''),
        (''unsigned long'', ''nr_segs''), (''unsigned int'', ''flags'')]),
     (''sys_splice'', [(''int'', ''fd_in''), (''loff_t __user *'', ''off_in''), (''int'', ''fd_out''),
        (''loff_t __user *'', ''off_out''), (''size_t'', ''len''), (''unsigned int'', ''flags'')]),
     (''sys_tee'', [(''int'', ''fdin''), (''int'', ''fdout''), (''size_t'', ''len''), (''unsigned int'', ''flags'')]),
     (''sys_readlinkat'', [(''int'', ''dfd''), (''const char __user *'', ''path''), (''char __user *'', ''buf''),
        (''int'', ''bufsiz'')]),
     (''sys_newfstatat'', [(''int'', ''dfd''), (''const char __user *'', ''filename''),
        (''struct stat __user *'', ''statbuf''), (''int'', ''flag'')]),
     (''sys_newfstat'', [(''unsigned int'', ''fd''), (''struct stat __user *'', ''statbuf'')]),
     (''sys_fstat64'', [(''unsigned long'', ''fd''), (''struct stat64 __user *'', ''statbuf'')]),
     (''sys_fstatat64'', [(''int'', ''dfd''), (''const char __user *'', ''filename''),
        (''struct stat64 __user *'', ''statbuf''), (''int'', ''flag'')]),
     (''sys_sync'', []),
     (''sys_fsync'', [(''unsigned int'', ''fd'')]),
     (''sys_fdatasync'', [(''unsigned int'', ''fd'')]),
     (''sys_sync_file_range2'', [(''int'', ''fd''), (''unsigned int'', ''flags''), (''loff_t'', ''offset''),
        (''loff_t'', ''nbytes'')]),
     (''sys_sync_file_range'', [(''int'', ''fd''), (''loff_t'', ''offset''), (''loff_t'', ''nbytes''),
        (''unsigned int'', ''flags'')]),
     (''sys_timerfd_create'', [(''int'', ''clockid''), (''int'', ''flags'')]),
     (''sys_timerfd_settime'', [(''int'', ''ufd''), (''int'', ''flags''),
        (''const struct __kernel_itimerspec __user *'', ''utmr''),
        (''struct __kernel_itimerspec __user *'', ''otmr'')]),
     (''sys_timerfd_gettime'', [(''int'', ''ufd''), (''struct __kernel_itimerspec __user *'', ''otmr'')]),
     (''sys_timerfd_gettime32'', [(''int'', ''ufd''), (''struct old_itimerspec32 __user *'', ''otmr'')]),
     (''sys_timerfd_settime32'', [(''int'', ''ufd''), (''int'', ''flags''),
        (''const struct old_itimerspec32 __user *'', ''utmr''), (''struct old_itimerspec32 __user *'', ''otmr'')]),
     (''sys_utimensat'', [(''int'', ''dfd''), (''const char __user *'', ''filename''),
        (''struct __kernel_timespec __user *'', ''utimes''), (''int'', ''flags'')]),
     (''sys_utimensat_time32'', [(''unsigned int'', ''dfd''), (''const char __user *'', ''filename''),
        (''struct old_timespec32 __user *'', ''t''), (''int'', ''flags'')]),
     (''sys_acct'', [(''const char __user *'', ''name'')]),
     (''sys_capget'', [(''cap_user_header_t'', ''header''), (''cap_user_data_t'', ''dataptr'')]),
     (''sys_capset'', [(''cap_user_header_t'', ''header''), (''const cap_user_data_t'', ''data'')]),
     (''sys_personality'', [(''unsigned int'', ''personality'')]),
     (''sys_exit'', [(''int'', ''error_code'')]),
     (''sys_exit_group'', [(''int'', ''error_code'')]),
     (''sys_waitid'', [(''int'', ''which''), (''pid_t'', ''pid''), (''struct siginfo __user *'', ''infop''),
        (''int'', ''options''), (''struct rusage __user *'', ''ru'')]),
     (''sys_set_tid_address'', [(''int __user *'', ''tidptr'')]),
     (''sys_unshare'', [(''unsigned long'', ''unshare_flags'')]),
     (''sys_futex'', [(''u32 __user *'', ''uaddr''), (''int'', ''op''), (''u32'', ''val''),
        (''const struct __kernel_timespec __user *'', ''utime''), (''u32 __user *'', ''uaddr2''),
        (''u32'', ''val3'')]),
     (''sys_futex_time32'', [(''u32 __user *'', ''uaddr''), (''int'', ''op''), (''u32'', ''val''),
        (''const struct old_timespec32 __user *'', ''utime''), (''u32 __user *'', ''uaddr2''), (''u32'', ''val3'')]),
     (''sys_get_robust_list'', [(''int'', ''pid''),
        (''struct robust_list_head __user * __user *'', ''head_ptr''), (''size_t __user *'', ''len_ptr'')]),
     (''sys_set_robust_list'', [(''struct robust_list_head __user *'', ''head''), (''size_t'', ''len'')]),
     (''sys_futex_waitv'', [(''struct futex_waitv *'', ''waiters''), (''unsigned int'', ''nr_futexes''),
        (''unsigned int'', ''flags''), (''struct __kernel_timespec __user *'', ''timeout''),
        (''clockid_t'', ''clockid'')]),
     (''sys_nanosleep'', [(''struct __kernel_timespec __user *'', ''rqtp''),
        (''struct __kernel_timespec __user *'', ''rmtp'')]),
     (''sys_nanosleep_time32'', [(''struct old_timespec32 __user *'', ''rqtp''),
        (''struct old_timespec32 __user *'', ''rmtp'')]),
     (''sys_getitimer'', [(''int'', ''which''), (''struct __kernel_old_itimerval __user *'', ''value'')]),
     (''sys_setitimer'', [(''int'', ''which''), (''struct __kernel_old_itimerval __user *'', ''value''),
        (''struct __kernel_old_itimerval __user *'', ''ovalue'')]),
     (''sys_kexec_load'', [(''unsigned long'', ''entry''), (''unsigned long'', ''nr_segments''),
        (''struct kexec_segment __user *'', ''segments''), (''unsigned long'', ''flags'')]),
     (''sys_init_module'', [(''void __user *'', ''umod''), (''unsigned long'', ''len''),
        (''const char __user *'', ''uargs'')]),
     (''sys_delete_module'', [(''const char __user *'', ''name_user''), (''unsigned int'', ''flags'')]),
     (''sys_timer_create'', [(''clockid_t'', ''which_clock''),
        (''struct sigevent __user *'', ''timer_event_spec''), (''timer_t __user *'', ''created_timer_id'')]),
     (''sys_timer_gettime'', [(''timer_t'', ''timer_id''), (''struct __kernel_itimerspec __user *'', ''setting'')]),
     (''sys_timer_getoverrun'', [(''timer_t'', ''timer_id'')]),
     (''sys_timer_settime'', [(''timer_t'', ''timer_id''), (''int'', ''flags''),
        (''const struct __kernel_itimerspec __user *'', ''new_setting''),
        (''struct __kernel_itimerspec __user *'', ''old_setting'')]),
     (''sys_timer_delete'', [(''timer_t'', ''timer_id'')]),
     (''sys_clock_settime'', [(''clockid_t'', ''which_clock''),
        (''const struct __kernel_timespec __user *'', ''tp'')]),
     (''sys_clock_gettime'', [(''clockid_t'', ''which_clock''), (''struct __kernel_timespec __user *'', ''tp'')]),
     (''sys_clock_getres'', [(''clockid_t'', ''which_clock''), (''struct __kernel_timespec __user *'', ''tp'')]),
     (''sys_clock_nanosleep'', [(''clockid_t'', ''which_clock''), (''int'', ''flags''),
        (''const struct __kernel_timespec __user *'', ''rqtp''), (''struct __kernel_timespec __user *'', ''rmtp'')])]"

text \<open>The scheduler and signals.\<close>

definition signal_prototypes :: "(string \<times> c_params) list" where
  "signal_prototypes =
    [(''sys_timer_gettime32'', [(''timer_t'', ''timer_id''), (''struct old_itimerspec32 __user *'', ''setting'')]),
     (''sys_timer_settime32'', [(''timer_t'', ''timer_id''), (''int'', ''flags''),
        (''struct old_itimerspec32 __user *'', ''new''), (''struct old_itimerspec32 __user *'', ''old'')]),
     (''sys_clock_settime32'', [(''clockid_t'', ''which_clock''), (''struct old_timespec32 __user *'', ''tp'')]),
     (''sys_clock_gettime32'', [(''clockid_t'', ''which_clock''), (''struct old_timespec32 __user *'', ''tp'')]),
     (''sys_clock_getres_time32'', [(''clockid_t'', ''which_clock''), (''struct old_timespec32 __user *'', ''tp'')]),
     (''sys_clock_nanosleep_time32'', [(''clockid_t'', ''which_clock''), (''int'', ''flags''),
        (''struct old_timespec32 __user *'', ''rqtp''), (''struct old_timespec32 __user *'', ''rmtp'')]),
     (''sys_syslog'', [(''int'', ''type''), (''char __user *'', ''buf''), (''int'', ''len'')]),
     (''sys_ptrace'', [(''long'', ''request''), (''long'', ''pid''), (''unsigned long'', ''addr''),
        (''unsigned long'', ''data'')]),
     (''sys_sched_setparam'', [(''pid_t'', ''pid''), (''struct sched_param __user *'', ''param'')]),
     (''sys_sched_setscheduler'', [(''pid_t'', ''pid''), (''int'', ''policy''),
        (''struct sched_param __user *'', ''param'')]),
     (''sys_sched_getscheduler'', [(''pid_t'', ''pid'')]),
     (''sys_sched_getparam'', [(''pid_t'', ''pid''), (''struct sched_param __user *'', ''param'')]),
     (''sys_sched_setaffinity'', [(''pid_t'', ''pid''), (''unsigned int'', ''len''),
        (''unsigned long __user *'', ''user_mask_ptr'')]),
     (''sys_sched_getaffinity'', [(''pid_t'', ''pid''), (''unsigned int'', ''len''),
        (''unsigned long __user *'', ''user_mask_ptr'')]),
     (''sys_sched_yield'', []),
     (''sys_sched_get_priority_max'', [(''int'', ''policy'')]),
     (''sys_sched_get_priority_min'', [(''int'', ''policy'')]),
     (''sys_sched_rr_get_interval'', [(''pid_t'', ''pid''), (''struct __kernel_timespec __user *'', ''interval'')]),
     (''sys_sched_rr_get_interval_time32'', [(''pid_t'', ''pid''),
        (''struct old_timespec32 __user *'', ''interval'')]),
     (''sys_restart_syscall'', []),
     (''sys_kill'', [(''pid_t'', ''pid''), (''int'', ''sig'')]),
     (''sys_tkill'', [(''pid_t'', ''pid''), (''int'', ''sig'')]),
     (''sys_tgkill'', [(''pid_t'', ''tgid''), (''pid_t'', ''pid''), (''int'', ''sig'')]),
     (''sys_sigaltstack'', [(''const struct sigaltstack __user *'', ''uss''),
        (''struct sigaltstack __user *'', ''uoss'')]),
     (''sys_rt_sigsuspend'', [(''sigset_t __user *'', ''unewset''), (''size_t'', ''sigsetsize'')]),
     (''sys_rt_sigaction'', [(''int'', ''''), (''const struct sigaction __user *'', ''''),
        (''struct sigaction __user *'', ''''), (''size_t'', '''')]),
     (''sys_rt_sigprocmask'', [(''int'', ''how''), (''sigset_t __user *'', ''set''),
        (''sigset_t __user *'', ''oset''), (''size_t'', ''sigsetsize'')]),
     (''sys_rt_sigpending'', [(''sigset_t __user *'', ''set''), (''size_t'', ''sigsetsize'')]),
     (''sys_rt_sigtimedwait'', [(''const sigset_t __user *'', ''uthese''), (''siginfo_t __user *'', ''uinfo''),
        (''const struct __kernel_timespec __user *'', ''uts''), (''size_t'', ''sigsetsize'')]),
     (''sys_rt_sigtimedwait_time32'', [(''const sigset_t __user *'', ''uthese''),
        (''siginfo_t __user *'', ''uinfo''), (''const struct old_timespec32 __user *'', ''uts''),
        (''size_t'', ''sigsetsize'')]),
     (''sys_rt_sigqueueinfo'', [(''pid_t'', ''pid''), (''int'', ''sig''), (''siginfo_t __user *'', ''uinfo'')])]"

text \<open>\<open>kernel/sys.c\<close> with its neighbours.\<close>

definition sys_prototypes :: "(string \<times> c_params) list" where
  "sys_prototypes =
    [(''sys_setpriority'', [(''int'', ''which''), (''int'', ''who''), (''int'', ''niceval'')]),
     (''sys_getpriority'', [(''int'', ''which''), (''int'', ''who'')]),
     (''sys_reboot'', [(''int'', ''magic1''), (''int'', ''magic2''), (''unsigned int'', ''cmd''),
        (''void __user *'', ''arg'')]),
     (''sys_setregid'', [(''gid_t'', ''rgid''), (''gid_t'', ''egid'')]),
     (''sys_setgid'', [(''gid_t'', ''gid'')]),
     (''sys_setreuid'', [(''uid_t'', ''ruid''), (''uid_t'', ''euid'')]),
     (''sys_setuid'', [(''uid_t'', ''uid'')]),
     (''sys_setresuid'', [(''uid_t'', ''ruid''), (''uid_t'', ''euid''), (''uid_t'', ''suid'')]),
     (''sys_getresuid'', [(''uid_t __user *'', ''ruid''), (''uid_t __user *'', ''euid''),
        (''uid_t __user *'', ''suid'')]),
     (''sys_setresgid'', [(''gid_t'', ''rgid''), (''gid_t'', ''egid''), (''gid_t'', ''sgid'')]),
     (''sys_getresgid'', [(''gid_t __user *'', ''rgid''), (''gid_t __user *'', ''egid''),
        (''gid_t __user *'', ''sgid'')]),
     (''sys_setfsuid'', [(''uid_t'', ''uid'')]),
     (''sys_setfsgid'', [(''gid_t'', ''gid'')]),
     (''sys_times'', [(''struct tms __user *'', ''tbuf'')]),
     (''sys_setpgid'', [(''pid_t'', ''pid''), (''pid_t'', ''pgid'')]),
     (''sys_getpgid'', [(''pid_t'', ''pid'')]),
     (''sys_getsid'', [(''pid_t'', ''pid'')]),
     (''sys_setsid'', []),
     (''sys_getgroups'', [(''int'', ''gidsetsize''), (''gid_t __user *'', ''grouplist'')]),
     (''sys_setgroups'', [(''int'', ''gidsetsize''), (''gid_t __user *'', ''grouplist'')]),
     (''sys_newuname'', [(''struct new_utsname __user *'', ''name'')]),
     (''sys_sethostname'', [(''char __user *'', ''name''), (''int'', ''len'')]),
     (''sys_setdomainname'', [(''char __user *'', ''name''), (''int'', ''len'')]),
     (''sys_getrlimit'', [(''unsigned int'', ''resource''), (''struct rlimit __user *'', ''rlim'')]),
     (''sys_setrlimit'', [(''unsigned int'', ''resource''), (''struct rlimit __user *'', ''rlim'')]),
     (''sys_getrusage'', [(''int'', ''who''), (''struct rusage __user *'', ''ru'')]),
     (''sys_umask'', [(''int'', ''mask'')]),
     (''sys_prctl'', [(''int'', ''option''), (''unsigned long'', ''arg2''), (''unsigned long'', ''arg3''),
        (''unsigned long'', ''arg4''), (''unsigned long'', ''arg5'')]),
     (''sys_getcpu'', [(''unsigned __user *'', ''cpu''), (''unsigned __user *'', ''node''),
        (''struct getcpu_cache __user *'', ''cache'')]),
     (''sys_gettimeofday'', [(''struct __kernel_old_timeval __user *'', ''tv''),
        (''struct timezone __user *'', ''tz'')]),
     (''sys_settimeofday'', [(''struct __kernel_old_timeval __user *'', ''tv''),
        (''struct timezone __user *'', ''tz'')]),
     (''sys_adjtimex'', [(''struct __kernel_timex __user *'', ''txc_p'')]),
     (''sys_adjtimex_time32'', [(''struct old_timex32 __user *'', ''txc_p'')]),
     (''sys_getpid'', []),
     (''sys_getppid'', []),
     (''sys_getuid'', []),
     (''sys_geteuid'', []),
     (''sys_getgid'', []),
     (''sys_getegid'', []),
     (''sys_gettid'', []),
     (''sys_sysinfo'', [(''struct sysinfo __user *'', ''info'')])]"

text \<open>Messages, sockets and memory.\<close>

definition memory_prototypes :: "(string \<times> c_params) list" where
  "memory_prototypes =
    [(''sys_mq_open'', [(''const char __user *'', ''name''), (''int'', ''oflag''), (''umode_t'', ''mode''),
        (''struct mq_attr __user *'', ''attr'')]),
     (''sys_mq_unlink'', [(''const char __user *'', ''name'')]),
     (''sys_mq_timedsend'', [(''mqd_t'', ''mqdes''), (''const char __user *'', ''msg_ptr''),
        (''size_t'', ''msg_len''), (''unsigned int'', ''msg_prio''),
        (''const struct __kernel_timespec __user *'', ''abs_timeout'')]),
     (''sys_mq_timedreceive'', [(''mqd_t'', ''mqdes''), (''char __user *'', ''msg_ptr''),
        (''size_t'', ''msg_len''), (''unsigned int __user *'', ''msg_prio''),
        (''const struct __kernel_timespec __user *'', ''abs_timeout'')]),
     (''sys_mq_notify'', [(''mqd_t'', ''mqdes''), (''const struct sigevent __user *'', ''notification'')]),
     (''sys_mq_getsetattr'', [(''mqd_t'', ''mqdes''), (''const struct mq_attr __user *'', ''mqstat''),
        (''struct mq_attr __user *'', ''omqstat'')]),
     (''sys_mq_timedreceive_time32'', [(''mqd_t'', ''mqdes''), (''char __user *'', ''u_msg_ptr''),
        (''unsigned int'', ''msg_len''), (''unsigned int __user *'', ''u_msg_prio''),
        (''const struct old_timespec32 __user *'', ''u_abs_timeout'')]),
     (''sys_mq_timedsend_time32'', [(''mqd_t'', ''mqdes''), (''const char __user *'', ''u_msg_ptr''),
        (''unsigned int'', ''msg_len''), (''unsigned int'', ''msg_prio''),
        (''const struct old_timespec32 __user *'', ''u_abs_timeout'')]),
     (''sys_msgget'', [(''key_t'', ''key''), (''int'', ''msgflg'')]),
     (''sys_old_msgctl'', [(''int'', ''msqid''), (''int'', ''cmd''), (''struct msqid_ds __user *'', ''buf'')]),
     (''sys_msgctl'', [(''int'', ''msqid''), (''int'', ''cmd''), (''struct msqid_ds __user *'', ''buf'')]),
     (''sys_msgrcv'', [(''int'', ''msqid''), (''struct msgbuf __user *'', ''msgp''), (''size_t'', ''msgsz''),
        (''long'', ''msgtyp''), (''int'', ''msgflg'')]),
     (''sys_msgsnd'', [(''int'', ''msqid''), (''struct msgbuf __user *'', ''msgp''), (''size_t'', ''msgsz''),
        (''int'', ''msgflg'')]),
     (''sys_semget'', [(''key_t'', ''key''), (''int'', ''nsems''), (''int'', ''semflg'')]),
     (''sys_semctl'', [(''int'', ''semid''), (''int'', ''semnum''), (''int'', ''cmd''),
        (''unsigned long'', ''arg'')]),
     (''sys_old_semctl'', [(''int'', ''semid''), (''int'', ''semnum''), (''int'', ''cmd''),
        (''unsigned long'', ''arg'')]),
     (''sys_semtimedop'', [(''int'', ''semid''), (''struct sembuf __user *'', ''sops''),
        (''unsigned'', ''nsops''), (''const struct __kernel_timespec __user *'', ''timeout'')]),
     (''sys_semtimedop_time32'', [(''int'', ''semid''), (''struct sembuf __user *'', ''sops''),
        (''unsigned'', ''nsops''), (''const struct old_timespec32 __user *'', ''timeout'')]),
     (''sys_semop'', [(''int'', ''semid''), (''struct sembuf __user *'', ''sops''), (''unsigned'', ''nsops'')]),
     (''sys_shmget'', [(''key_t'', ''key''), (''size_t'', ''size''), (''int'', ''flag'')]),
     (''sys_old_shmctl'', [(''int'', ''shmid''), (''int'', ''cmd''), (''struct shmid_ds __user *'', ''buf'')]),
     (''sys_shmctl'', [(''int'', ''shmid''), (''int'', ''cmd''), (''struct shmid_ds __user *'', ''buf'')]),
     (''sys_shmat'', [(''int'', ''shmid''), (''char __user *'', ''shmaddr''), (''int'', ''shmflg'')]),
     (''sys_shmdt'', [(''char __user *'', ''shmaddr'')]),
     (''sys_socket'', [(''int'', ''''), (''int'', ''''), (''int'', '''')]),
     (''sys_socketpair'', [(''int'', ''''), (''int'', ''''), (''int'', ''''), (''int __user *'', '''')]),
     (''sys_bind'', [(''int'', ''''), (''struct sockaddr __user *'', ''''), (''int'', '''')]),
     (''sys_listen'', [(''int'', ''''), (''int'', '''')]),
     (''sys_accept'', [(''int'', ''''), (''struct sockaddr __user *'', ''''), (''int __user *'', '''')]),
     (''sys_connect'', [(''int'', ''''), (''struct sockaddr __user *'', ''''), (''int'', '''')]),
     (''sys_getsockname'', [(''int'', ''''), (''struct sockaddr __user *'', ''''), (''int __user *'', '''')]),
     (''sys_getpeername'', [(''int'', ''''), (''struct sockaddr __user *'', ''''), (''int __user *'', '''')]),
     (''sys_sendto'', [(''int'', ''''), (''void __user *'', ''''), (''size_t'', ''''), (''unsigned'', ''''),
        (''struct sockaddr __user *'', ''''), (''int'', '''')]),
     (''sys_recvfrom'', [(''int'', ''''), (''void __user *'', ''''), (''size_t'', ''''), (''unsigned'', ''''),
        (''struct sockaddr __user *'', ''''), (''int __user *'', '''')]),
     (''sys_setsockopt'', [(''int'', ''fd''), (''int'', ''level''), (''int'', ''optname''),
        (''char __user *'', ''optval''), (''int'', ''optlen'')]),
     (''sys_getsockopt'', [(''int'', ''fd''), (''int'', ''level''), (''int'', ''optname''),
        (''char __user *'', ''optval''), (''int __user *'', ''optlen'')]),
     (''sys_shutdown'', [(''int'', ''''), (''int'', '''')]),
     (''sys_sendmsg'', [(''int'', ''fd''), (''struct user_msghdr __user *'', ''msg''), (''unsigned'', ''flags'')]),
     (''sys_recvmsg'', [(''int'', ''fd''), (''struct user_msghdr __user *'', ''msg''), (''unsigned'', ''flags'')]),
     (''sys_readahead'', [(''int'', ''fd''), (''loff_t'', ''offset''), (''size_t'', ''count'')]),
     (''sys_brk'', [(''unsigned long'', ''brk'')]),
     (''sys_munmap'', [(''unsigned long'', ''addr''), (''size_t'', ''len'')]),
     (''sys_mremap'', [(''unsigned long'', ''addr''), (''unsigned long'', ''old_len''),
        (''unsigned long'', ''new_len''), (''unsigned long'', ''flags''), (''unsigned long'', ''new_addr'')]),
     (''sys_add_key'', [(''const char __user *'', ''_type''), (''const char __user *'', ''_description''),
        (''const void __user *'', ''_payload''), (''size_t'', ''plen''), (''key_serial_t'', ''destringid'')]),
     (''sys_request_key'', [(''const char __user *'', ''_type''), (''const char __user *'', ''_description''),
        (''const char __user *'', ''_callout_info''), (''key_serial_t'', ''destringid'')]),
     (''sys_keyctl'', [(''int'', ''cmd''), (''unsigned long'', ''arg2''), (''unsigned long'', ''arg3''),
        (''unsigned long'', ''arg4''), (''unsigned long'', ''arg5'')]),
     (''sys_clone'', [(''unsigned long'', ''''), (''unsigned long'', ''''), (''int __user *'', ''''),
        (''unsigned long'', ''''), (''int __user *'', '''')]),
     (''sys_clone'', [(''unsigned long'', ''''), (''unsigned long'', ''''), (''int'', ''''),
        (''int __user *'', ''''), (''int __user *'', ''''), (''unsigned long'', '''')]),
     (''sys_clone'', [(''unsigned long'', ''''), (''unsigned long'', ''''), (''int __user *'', ''''),
        (''int __user *'', ''''), (''unsigned long'', '''')]),
     (''sys_clone3'', [(''struct clone_args __user *'', ''uargs''), (''size_t'', ''size'')]),
     (''sys_execve'', [(''const char __user *'', ''filename''),
        (''const char __user *const __user *'', ''argv''), (''const char __user *const __user *'', ''envp'')]),
     (''sys_fadvise64_64'', [(''int'', ''fd''), (''loff_t'', ''offset''), (''loff_t'', ''len''),
        (''int'', ''advice'')]),
     (''sys_swapon'', [(''const char __user *'', ''specialfile''), (''int'', ''swap_flags'')]),
     (''sys_swapoff'', [(''const char __user *'', ''specialfile'')]),
     (''sys_mprotect'', [(''unsigned long'', ''start''), (''size_t'', ''len''), (''unsigned long'', ''prot'')]),
     (''sys_msync'', [(''unsigned long'', ''start''), (''size_t'', ''len''), (''int'', ''flags'')]),
     (''sys_mlock'', [(''unsigned long'', ''start''), (''size_t'', ''len'')]),
     (''sys_munlock'', [(''unsigned long'', ''start''), (''size_t'', ''len'')]),
     (''sys_mlockall'', [(''int'', ''flags'')]),
     (''sys_munlockall'', []),
     (''sys_mincore'', [(''unsigned long'', ''start''), (''size_t'', ''len''),
        (''unsigned char __user *'', ''vec'')]),
     (''sys_madvise'', [(''unsigned long'', ''start''), (''size_t'', ''len''), (''int'', ''behavior'')]),
     (''sys_process_madvise'', [(''int'', ''pidfd''), (''const struct iovec __user *'', ''vec''),
        (''size_t'', ''vlen''), (''int'', ''behavior''), (''unsigned int'', ''flags'')]),
     (''sys_process_mrelease'', [(''int'', ''pidfd''), (''unsigned int'', ''flags'')]),
     (''sys_remap_file_pages'', [(''unsigned long'', ''start''), (''unsigned long'', ''size''),
        (''unsigned long'', ''prot''), (''unsigned long'', ''pgoff''), (''unsigned long'', ''flags'')]),
     (''sys_mbind'', [(''unsigned long'', ''start''), (''unsigned long'', ''len''),
        (''unsigned long'', ''mode''), (''const unsigned long __user *'', ''nmask''),
        (''unsigned long'', ''maxnode''), (''unsigned'', ''flags'')]),
     (''sys_get_mempolicy'', [(''int __user *'', ''policy''), (''unsigned long __user *'', ''nmask''),
        (''unsigned long'', ''maxnode''), (''unsigned long'', ''addr''), (''unsigned long'', ''flags'')]),
     (''sys_set_mempolicy'', [(''int'', ''mode''), (''const unsigned long __user *'', ''nmask''),
        (''unsigned long'', ''maxnode'')]),
     (''sys_migrate_pages'', [(''pid_t'', ''pid''), (''unsigned long'', ''maxnode''),
        (''const unsigned long __user *'', ''from''), (''const unsigned long __user *'', ''to'')]),
     (''sys_move_pages'', [(''pid_t'', ''pid''), (''unsigned long'', ''nr_pages''),
        (''const void __user * __user *'', ''pages''), (''const int __user *'', ''nodes''),
        (''int __user *'', ''status''), (''int'', ''flags'')]),
     (''sys_rt_tgsigqueueinfo'', [(''pid_t'', ''tgid''), (''pid_t'', ''pid''), (''int'', ''sig''),
        (''siginfo_t __user *'', ''uinfo'')]),
     (''sys_perf_event_open'', [(''struct perf_event_attr __user *'', ''attr_uptr''), (''pid_t'', ''pid''),
        (''int'', ''cpu''), (''int'', ''group_fd''), (''unsigned long'', ''flags'')]),
     (''sys_accept4'', [(''int'', ''''), (''struct sockaddr __user *'', ''''), (''int __user *'', ''''),
        (''int'', '''')]),
     (''sys_recvmmsg'', [(''int'', ''fd''), (''struct mmsghdr __user *'', ''msg''), (''unsigned int'', ''vlen''),
        (''unsigned'', ''flags''), (''struct __kernel_timespec __user *'', ''timeout'')]),
     (''sys_recvmmsg_time32'', [(''int'', ''fd''), (''struct mmsghdr __user *'', ''msg''),
        (''unsigned int'', ''vlen''), (''unsigned'', ''flags''), (''struct old_timespec32 __user *'', ''timeout'')])]"

text \<open>Newer calls, among them \<open>prlimit64\<close>.\<close>

definition newer_prototypes :: "(string \<times> c_params) list" where
  "newer_prototypes =
    [(''sys_wait4'', [(''pid_t'', ''pid''), (''int __user *'', ''stat_addr''), (''int'', ''options''),
        (''struct rusage __user *'', ''ru'')]),
     (''sys_prlimit64'', [(''pid_t'', ''pid''), (''unsigned int'', ''resource''),
        (''const struct rlimit64 __user *'', ''new_rlim''), (''struct rlimit64 __user *'', ''old_rlim'')]),
     (''sys_fanotify_init'', [(''unsigned int'', ''flags''), (''unsigned int'', ''event_f_flags'')]),
     (''sys_fanotify_mark'', [(''int'', ''fanotify_fd''), (''unsigned int'', ''flags''),
        (''unsigned int'', ''mask_1''), (''unsigned int'', ''mask_2''), (''int'', ''dfd''),
        (''const char __user *'', ''pathname'')]),
     (''sys_fanotify_mark'', [(''int'', ''fanotify_fd''), (''unsigned int'', ''flags''), (''u64'', ''mask''),
        (''int'', ''fd''), (''const char __user *'', ''pathname'')]),
     (''sys_name_to_handle_at'', [(''int'', ''dfd''), (''const char __user *'', ''name''),
        (''struct file_handle __user *'', ''handle''), (''int __user *'', ''mnt_id''), (''int'', ''flag'')]),
     (''sys_open_by_handle_at'', [(''int'', ''mountdirfd''), (''struct file_handle __user *'', ''handle''),
        (''int'', ''flags'')]),
     (''sys_clock_adjtime'', [(''clockid_t'', ''which_clock''), (''struct __kernel_timex __user *'', ''tx'')]),
     (''sys_clock_adjtime32'', [(''clockid_t'', ''which_clock''), (''struct old_timex32 __user *'', ''tx'')]),
     (''sys_syncfs'', [(''int'', ''fd'')]),
     (''sys_setns'', [(''int'', ''fd''), (''int'', ''nstype'')]),
     (''sys_pidfd_open'', [(''pid_t'', ''pid''), (''unsigned int'', ''flags'')]),
     (''sys_sendmmsg'', [(''int'', ''fd''), (''struct mmsghdr __user *'', ''msg''), (''unsigned int'', ''vlen''),
        (''unsigned'', ''flags'')]),
     (''sys_process_vm_readv'', [(''pid_t'', ''pid''), (''const struct iovec __user *'', ''lvec''),
        (''unsigned long'', ''liovcnt''), (''const struct iovec __user *'', ''rvec''),
        (''unsigned long'', ''riovcnt''), (''unsigned long'', ''flags'')]),
     (''sys_process_vm_writev'', [(''pid_t'', ''pid''), (''const struct iovec __user *'', ''lvec''),
        (''unsigned long'', ''liovcnt''), (''const struct iovec __user *'', ''rvec''),
        (''unsigned long'', ''riovcnt''), (''unsigned long'', ''flags'')]),
     (''sys_kcmp'', [(''pid_t'', ''pid1''), (''pid_t'', ''pid2''), (''int'', ''type''),
        (''unsigned long'', ''idx1''), (''unsigned long'', ''idx2'')]),
     (''sys_finit_module'', [(''int'', ''fd''), (''const char __user *'', ''uargs''), (''int'', ''flags'')]),
     (''sys_sched_setattr'', [(''pid_t'', ''pid''), (''struct sched_attr __user *'', ''attr''),
        (''unsigned int'', ''flags'')]),
     (''sys_sched_getattr'', [(''pid_t'', ''pid''), (''struct sched_attr __user *'', ''attr''),
        (''unsigned int'', ''size''), (''unsigned int'', ''flags'')]),
     (''sys_renameat2'', [(''int'', ''olddfd''), (''const char __user *'', ''oldname''), (''int'', ''newdfd''),
        (''const char __user *'', ''newname''), (''unsigned int'', ''flags'')]),
     (''sys_seccomp'', [(''unsigned int'', ''op''), (''unsigned int'', ''flags''), (''void __user *'', ''uargs'')]),
     (''sys_getrandom'', [(''char __user *'', ''buf''), (''size_t'', ''count''), (''unsigned int'', ''flags'')]),
     (''sys_memfd_create'', [(''const char __user *'', ''uname_ptr''), (''unsigned int'', ''flags'')]),
     (''sys_bpf'', [(''int'', ''cmd''), (''union bpf_attr *'', ''attr''), (''unsigned int'', ''size'')]),
     (''sys_execveat'', [(''int'', ''dfd''), (''const char __user *'', ''filename''),
        (''const char __user *const __user *'', ''argv''), (''const char __user *const __user *'', ''envp''),
        (''int'', ''flags'')]),
     (''sys_userfaultfd'', [(''int'', ''flags'')]),
     (''sys_membarrier'', [(''int'', ''cmd''), (''unsigned int'', ''flags''), (''int'', ''cpu_id'')]),
     (''sys_mlock2'', [(''unsigned long'', ''start''), (''size_t'', ''len''), (''int'', ''flags'')]),
     (''sys_copy_file_range'', [(''int'', ''fd_in''), (''loff_t __user *'', ''off_in''), (''int'', ''fd_out''),
        (''loff_t __user *'', ''off_out''), (''size_t'', ''len''), (''unsigned int'', ''flags'')]),
     (''sys_preadv2'', [(''unsigned long'', ''fd''), (''const struct iovec __user *'', ''vec''),
        (''unsigned long'', ''vlen''), (''unsigned long'', ''pos_l''), (''unsigned long'', ''pos_h''),
        (''rwf_t'', ''flags'')]),
     (''sys_pwritev2'', [(''unsigned long'', ''fd''), (''const struct iovec __user *'', ''vec''),
        (''unsigned long'', ''vlen''), (''unsigned long'', ''pos_l''), (''unsigned long'', ''pos_h''),
        (''rwf_t'', ''flags'')]),
     (''sys_pkey_mprotect'', [(''unsigned long'', ''start''), (''size_t'', ''len''),
        (''unsigned long'', ''prot''), (''int'', ''pkey'')]),
     (''sys_pkey_alloc'', [(''unsigned long'', ''flags''), (''unsigned long'', ''init_val'')]),
     (''sys_pkey_free'', [(''int'', ''pkey'')]),
     (''sys_statx'', [(''int'', ''dfd''), (''const char __user *'', ''path''), (''unsigned'', ''flags''),
        (''unsigned'', ''mask''), (''struct statx __user *'', ''buffer'')]),
     (''sys_rseq'', [(''struct rseq __user *'', ''rseq''), (''uint32_t'', ''rseq_len''), (''int'', ''flags''),
        (''uint32_t'', ''sig'')]),
     (''sys_open_tree'', [(''int'', ''dfd''), (''const char __user *'', ''path''), (''unsigned'', ''flags'')]),
     (''sys_move_mount'', [(''int'', ''from_dfd''), (''const char __user *'', ''from_path''),
        (''int'', ''to_dfd''), (''const char __user *'', ''to_path''), (''unsigned int'', ''ms_flags'')]),
     (''sys_mount_setattr'', [(''int'', ''dfd''), (''const char __user *'', ''path''),
        (''unsigned int'', ''flags''), (''struct mount_attr __user *'', ''uattr''), (''size_t'', ''usize'')]),
     (''sys_fsopen'', [(''const char __user *'', ''fs_name''), (''unsigned int'', ''flags'')]),
     (''sys_fsconfig'', [(''int'', ''fs_fd''), (''unsigned int'', ''cmd''), (''const char __user *'', ''key''),
        (''const void __user *'', ''value''), (''int'', ''aux'')]),
     (''sys_fsmount'', [(''int'', ''fs_fd''), (''unsigned int'', ''flags''), (''unsigned int'', ''ms_flags'')]),
     (''sys_fspick'', [(''int'', ''dfd''), (''const char __user *'', ''path''), (''unsigned int'', ''flags'')]),
     (''sys_pidfd_send_signal'', [(''int'', ''pidfd''), (''int'', ''sig''), (''siginfo_t __user *'', ''info''),
        (''unsigned int'', ''flags'')]),
     (''sys_pidfd_getfd'', [(''int'', ''pidfd''), (''int'', ''fd''), (''unsigned int'', ''flags'')]),
     (''sys_landlock_create_ruleset'', [(''const struct landlock_ruleset_attr __user *'', ''attr''),
        (''size_t'', ''size''), (''__u32'', ''flags'')]),
     (''sys_landlock_add_rule'', [(''int'', ''ruleset_fd''), (''enum landlock_rule_type'', ''rule_type''),
        (''const void __user *'', ''rule_attr''), (''__u32'', ''flags'')]),
     (''sys_landlock_restrict_self'', [(''int'', ''ruleset_fd''), (''__u32'', ''flags'')]),
     (''sys_memfd_secret'', [(''unsigned int'', ''flags'')]),
     (''sys_set_mempolicy_home_node'', [(''unsigned long'', ''start''), (''unsigned long'', ''len''),
        (''unsigned long'', ''home_node''), (''unsigned long'', ''flags'')]),
     (''sys_cachestat'', [(''unsigned int'', ''fd''), (''struct cachestat_range __user *'', ''cstat_range''),
        (''struct cachestat __user *'', ''cstat''), (''unsigned int'', ''flags'')]),
     (''sys_map_shadow_stack'', [(''unsigned long'', ''addr''), (''unsigned long'', ''size''),
        (''unsigned int'', ''flags'')])]"

text \<open>Calls of single architectures and deprecated calls.\<close>

definition old_prototypes :: "(string \<times> c_params) list" where
  "old_prototypes =
    [(''sys_ioperm'', [(''unsigned long'', ''from''), (''unsigned long'', ''num''), (''int'', ''on'')]),
     (''sys_pciconfig_read'', [(''unsigned long'', ''bus''), (''unsigned long'', ''dfn''),
        (''unsigned long'', ''off''), (''unsigned long'', ''len''), (''void __user *'', ''buf'')]),
     (''sys_pciconfig_write'', [(''unsigned long'', ''bus''), (''unsigned long'', ''dfn''),
        (''unsigned long'', ''off''), (''unsigned long'', ''len''), (''void __user *'', ''buf'')]),
     (''sys_pciconfig_iobase'', [(''long'', ''which''), (''unsigned long'', ''bus''),
        (''unsigned long'', ''devfn'')]),
     (''sys_spu_run'', [(''int'', ''fd''), (''__u32 __user *'', ''unpc''), (''__u32 __user *'', ''ustatus'')]),
     (''sys_spu_create'', [(''const char __user *'', ''name''), (''unsigned int'', ''flags''),
        (''umode_t'', ''mode''), (''int'', ''fd'')]),
     (''sys_open'', [(''const char __user *'', ''filename''), (''int'', ''flags''), (''umode_t'', ''mode'')]),
     (''sys_link'', [(''const char __user *'', ''oldname''), (''const char __user *'', ''newname'')]),
     (''sys_unlink'', [(''const char __user *'', ''pathname'')]),
     (''sys_mknod'', [(''const char __user *'', ''filename''), (''umode_t'', ''mode''), (''unsigned'', ''dev'')]),
     (''sys_chmod'', [(''const char __user *'', ''filename''), (''umode_t'', ''mode'')]),
     (''sys_chown'', [(''const char __user *'', ''filename''), (''uid_t'', ''user''), (''gid_t'', ''group'')]),
     (''sys_mkdir'', [(''const char __user *'', ''pathname''), (''umode_t'', ''mode'')]),
     (''sys_rmdir'', [(''const char __user *'', ''pathname'')]),
     (''sys_lchown'', [(''const char __user *'', ''filename''), (''uid_t'', ''user''), (''gid_t'', ''group'')]),
     (''sys_access'', [(''const char __user *'', ''filename''), (''int'', ''mode'')]),
     (''sys_rename'', [(''const char __user *'', ''oldname''), (''const char __user *'', ''newname'')]),
     (''sys_symlink'', [(''const char __user *'', ''old''), (''const char __user *'', ''new'')]),
     (''sys_stat64'', [(''const char __user *'', ''filename''), (''struct stat64 __user *'', ''statbuf'')]),
     (''sys_lstat64'', [(''const char __user *'', ''filename''), (''struct stat64 __user *'', ''statbuf'')]),
     (''sys_pipe'', [(''int __user *'', ''fildes'')]),
     (''sys_dup2'', [(''unsigned int'', ''oldfd''), (''unsigned int'', ''newfd'')]),
     (''sys_epoll_create'', [(''int'', ''size'')]),
     (''sys_inotify_init'', []),
     (''sys_eventfd'', [(''unsigned int'', ''count'')]),
     (''sys_signalfd'', [(''int'', ''ufd''), (''sigset_t __user *'', ''user_mask''), (''size_t'', ''sizemask'')]),
     (''sys_sendfile'', [(''int'', ''out_fd''), (''int'', ''in_fd''), (''off_t __user *'', ''offset''),
        (''size_t'', ''count'')]),
     (''sys_newstat'', [(''const char __user *'', ''filename''), (''struct stat __user *'', ''statbuf'')]),
     (''sys_newlstat'', [(''const char __user *'', ''filename''), (''struct stat __user *'', ''statbuf'')]),
     (''sys_fadvise64'', [(''int'', ''fd''), (''loff_t'', ''offset''), (''size_t'', ''len''), (''int'', ''advice'')]),
     (''sys_alarm'', [(''unsigned int'', ''seconds'')]),
     (''sys_getpgrp'', []),
     (''sys_pause'', []),
     (''sys_time'', [(''__kernel_old_time_t __user *'', ''tloc'')]),
     (''sys_time32'', [(''old_time32_t __user *'', ''tloc'')]),
     (''sys_utime'', [(''char __user *'', ''filename''), (''struct utimbuf __user *'', ''times'')]),
     (''sys_utimes'', [(''char __user *'', ''filename''), (''struct __kernel_old_timeval __user *'', ''utimes'')]),
     (''sys_futimesat'', [(''int'', ''dfd''), (''const char __user *'', ''filename''),
        (''struct __kernel_old_timeval __user *'', ''utimes'')]),
     (''sys_futimesat_time32'', [(''unsigned int'', ''dfd''), (''const char __user *'', ''filename''),
        (''struct old_timeval32 __user *'', ''t'')]),
     (''sys_utime32'', [(''const char __user *'', ''filename''), (''struct old_utimbuf32 __user *'', ''t'')]),
     (''sys_utimes_time32'', [(''const char __user *'', ''filename''), (''struct old_timeval32 __user *'', ''t'')]),
     (''sys_creat'', [(''const char __user *'', ''pathname''), (''umode_t'', ''mode'')]),
     (''sys_getdents'', [(''unsigned int'', ''fd''), (''struct linux_dirent __user *'', ''dirent''),
        (''unsigned int'', ''count'')]),
     (''sys_select'', [(''int'', ''n''), (''fd_set __user *'', ''inp''), (''fd_set __user *'', ''outp''),
        (''fd_set __user *'', ''exp''), (''struct __kernel_old_timeval __user *'', ''tvp'')]),
     (''sys_poll'', [(''struct pollfd __user *'', ''ufds''), (''unsigned int'', ''nfds''), (''int'', ''timeout'')]),
     (''sys_epoll_wait'', [(''int'', ''epfd''), (''struct epoll_event __user *'', ''events''),
        (''int'', ''maxevents''), (''int'', ''timeout'')]),
     (''sys_ustat'', [(''unsigned'', ''dev''), (''struct ustat __user *'', ''ubuf'')]),
     (''sys_vfork'', []),
     (''sys_recv'', [(''int'', ''''), (''void __user *'', ''''), (''size_t'', ''''), (''unsigned'', '''')]),
     (''sys_send'', [(''int'', ''''), (''void __user *'', ''''), (''size_t'', ''''), (''unsigned'', '''')]),
     (''sys_oldumount'', [(''char __user *'', ''name'')]),
     (''sys_uselib'', [(''const char __user *'', ''library'')]),
     (''sys_sysfs'', [(''int'', ''option''), (''unsigned long'', ''arg1''), (''unsigned long'', ''arg2'')]),
     (''sys_fork'', [])]"

text \<open>Obsolete calls.\<close>

definition obsolete_prototypes :: "(string \<times> c_params) list" where
  "obsolete_prototypes =
    [(''sys_stime'', [(''__kernel_old_time_t __user *'', ''tptr'')]),
     (''sys_stime32'', [(''old_time32_t __user *'', ''tptr'')]),
     (''sys_sigpending'', [(''old_sigset_t __user *'', ''uset'')]),
     (''sys_sigprocmask'', [(''int'', ''how''), (''old_sigset_t __user *'', ''set''),
        (''old_sigset_t __user *'', ''oset'')]),
     (''sys_sigsuspend'', [(''old_sigset_t'', ''mask'')]),
     (''sys_sigsuspend'', [(''int'', ''unused1''), (''int'', ''unused2''), (''old_sigset_t'', ''mask'')]),
     (''sys_sigaction'', [(''int'', ''''), (''const struct old_sigaction __user *'', ''''),
        (''struct old_sigaction __user *'', '''')]),
     (''sys_sgetmask'', []),
     (''sys_ssetmask'', [(''int'', ''newmask'')]),
     (''sys_signal'', [(''int'', ''sig''), (''__sighandler_t'', ''handler'')]),
     (''sys_nice'', [(''int'', ''increment'')]),
     (''sys_kexec_file_load'', [(''int'', ''kernel_fd''), (''int'', ''initrd_fd''),
        (''unsigned long'', ''cmdline_len''), (''const char __user *'', ''cmdline_ptr''),
        (''unsigned long'', ''flags'')]),
     (''sys_waitpid'', [(''pid_t'', ''pid''), (''int __user *'', ''stat_addr''), (''int'', ''options'')]),
     (''sys_chown16'', [(''const char __user *'', ''filename''), (''old_uid_t'', ''user''),
        (''old_gid_t'', ''group'')]),
     (''sys_lchown16'', [(''const char __user *'', ''filename''), (''old_uid_t'', ''user''),
        (''old_gid_t'', ''group'')]),
     (''sys_fchown16'', [(''unsigned int'', ''fd''), (''old_uid_t'', ''user''), (''old_gid_t'', ''group'')]),
     (''sys_setregid16'', [(''old_gid_t'', ''rgid''), (''old_gid_t'', ''egid'')]),
     (''sys_setgid16'', [(''old_gid_t'', ''gid'')]),
     (''sys_setreuid16'', [(''old_uid_t'', ''ruid''), (''old_uid_t'', ''euid'')]),
     (''sys_setuid16'', [(''old_uid_t'', ''uid'')]),
     (''sys_setresuid16'', [(''old_uid_t'', ''ruid''), (''old_uid_t'', ''euid''), (''old_uid_t'', ''suid'')]),
     (''sys_getresuid16'', [(''old_uid_t __user *'', ''ruid''), (''old_uid_t __user *'', ''euid''),
        (''old_uid_t __user *'', ''suid'')]),
     (''sys_setresgid16'', [(''old_gid_t'', ''rgid''), (''old_gid_t'', ''egid''), (''old_gid_t'', ''sgid'')]),
     (''sys_getresgid16'', [(''old_gid_t __user *'', ''rgid''), (''old_gid_t __user *'', ''egid''),
        (''old_gid_t __user *'', ''sgid'')]),
     (''sys_setfsuid16'', [(''old_uid_t'', ''uid'')]),
     (''sys_setfsgid16'', [(''old_gid_t'', ''gid'')]),
     (''sys_getgroups16'', [(''int'', ''gidsetsize''), (''old_gid_t __user *'', ''grouplist'')]),
     (''sys_setgroups16'', [(''int'', ''gidsetsize''), (''old_gid_t __user *'', ''grouplist'')]),
     (''sys_getuid16'', []),
     (''sys_geteuid16'', []),
     (''sys_getgid16'', []),
     (''sys_getegid16'', []),
     (''sys_socketcall'', [(''int'', ''call''), (''unsigned long __user *'', ''args'')]),
     (''sys_stat'', [(''const char __user *'', ''filename''), (''struct __old_kernel_stat __user *'', ''statbuf'')]),
     (''sys_lstat'', [(''const char __user *'', ''filename''), (''struct __old_kernel_stat __user *'', ''statbuf'')]),
     (''sys_fstat'', [(''unsigned int'', ''fd''), (''struct __old_kernel_stat __user *'', ''statbuf'')]),
     (''sys_readlink'', [(''const char __user *'', ''path''), (''char __user *'', ''buf''), (''int'', ''bufsiz'')]),
     (''sys_old_select'', [(''struct sel_arg_struct __user *'', ''arg'')]),
     (''sys_old_readdir'', [(''unsigned int'', ''''), (''struct old_linux_dirent __user *'', ''''),
        (''unsigned int'', '''')]),
     (''sys_gethostname'', [(''char __user *'', ''name''), (''int'', ''len'')]),
     (''sys_uname'', [(''struct old_utsname __user *'', '''')]),
     (''sys_olduname'', [(''struct oldold_utsname __user *'', '''')]),
     (''sys_old_getrlimit'', [(''unsigned int'', ''resource''), (''struct rlimit __user *'', ''rlim'')]),
     (''sys_ipc'', [(''unsigned int'', ''call''), (''int'', ''first''), (''unsigned long'', ''second''),
        (''unsigned long'', ''third''), (''void __user *'', ''ptr''), (''long'', ''fifth'')]),
     (''sys_mmap_pgoff'', [(''unsigned long'', ''addr''), (''unsigned long'', ''len''),
        (''unsigned long'', ''prot''), (''unsigned long'', ''flags''), (''unsigned long'', ''fd''),
        (''unsigned long'', ''pgoff'')]),
     (''sys_old_mmap'', [(''struct mmap_arg_struct __user *'', ''arg'')]),
     (''sys_ni_syscall'', [])]"

text \<open>After the section: the calls \<open>Practica2\<close> adds, whose header is otherwise the same, and those of \<open>Proyecto\<close>.\<close>

definition practica2_prototypes :: "(string \<times> c_params) list" where
  "practica2_prototypes =
    [(''sys_ni_posix_timers'', []),
     (''sys_my_encrypt'', [(''const char __user *'', ''input_path''), (''const char __user *'', ''output_path''),
        (''const char __user *'', ''key_path''), (''int'', ''num_threads'')]),
     (''sys_my_decrypt'', [(''const char __user *'', ''input_path''), (''const char __user *'', ''output_path''),
        (''const char __user *'', ''key_path''), (''int'', ''num_threads'')])]"

definition added_prototypes :: "(string \<times> c_params) list" where
  "added_prototypes = practica2_prototypes @
    [(''get_ram_stats'', [(''char __user *'', ''buffer''), (''size_t'', ''size'')]),
     (''get_swap_info'', [(''char __user *'', ''buffer''), (''size_t'', ''size'')]),
     (''get_page_faults_info'', [(''char __user *'', ''buffer''), (''size_t'', ''size'')]),
     (''get_memory_pages_info'', [(''char __user *'', ''buffer''), (''size_t'', ''size'')]),
     (''procesos_info'', [(''char __user *'', ''buffer''), (''size_t'', ''size'')])]"

text \<open>All of them; those whose definitions are in the repository stand in the first lists.\<close>

definition prototypes :: "(string \<times> c_params) list" where
  "prototypes = sys_prototypes @ added_prototypes @ newer_prototypes @ old_prototypes @ obsolete_prototypes
     @ memory_prototypes @ signal_prototypes @ descriptor_prototypes @ file_prototypes"

subsection \<open>Every prototype fits the registers\<close>

definition SYSCALL_DEFINE_MAXARGS :: nat where "SYSCALL_DEFINE_MAXARGS = 6"

text \<open>A value longer than a register takes two.\<close>

definition type_registers :: "nat \<Rightarrow> c_type \<Rightarrow> nat" where
  "type_registers w t = (if w < type_bits w t then 2 else 1)"

definition prototype_fits :: "nat \<Rightarrow> string \<times> c_params \<Rightarrow> bool" where
  "prototype_fits w p =
     (case those (map (\<lambda>(t, a). c_type_of t) (snd p)) of
        None \<Rightarrow> False
      | Some ts \<Rightarrow> length ts \<le> SYSCALL_DEFINE_MAXARGS \<and> list_all (sc_test w) ts
          \<and> sum_list (map (type_registers w) ts) \<le> 6)"

lemma prototypes_fit_1:
  "list_all (prototype_fits 32) file_prototypes" "list_all (prototype_fits 64) file_prototypes"
  "list_all (prototype_fits 32) descriptor_prototypes" "list_all (prototype_fits 64) descriptor_prototypes"
  "list_all (prototype_fits 32) signal_prototypes" "list_all (prototype_fits 64) signal_prototypes"
  by code_simp+

lemma prototypes_fit_2:
  "list_all (prototype_fits 32) sys_prototypes" "list_all (prototype_fits 64) sys_prototypes"
  "list_all (prototype_fits 32) memory_prototypes" "list_all (prototype_fits 64) memory_prototypes"
  "list_all (prototype_fits 32) newer_prototypes" "list_all (prototype_fits 64) newer_prototypes"
  by code_simp+

lemma prototypes_fit_3:
  "list_all (prototype_fits 32) old_prototypes" "list_all (prototype_fits 64) old_prototypes"
  "list_all (prototype_fits 32) obsolete_prototypes" "list_all (prototype_fits 64) obsolete_prototypes"
  "list_all (prototype_fits 32) added_prototypes" "list_all (prototype_fits 64) added_prototypes"
  by code_simp+

lemma prototypes_fit: "list_all (prototype_fits 32) prototypes" "list_all (prototype_fits 64) prototypes"
  by (simp_all add: prototypes_def prototypes_fit_1 prototypes_fit_2 prototypes_fit_3)

end
