(* ===== verification/Syscall_Table.thy ===== *)
theory Syscall_Table
  imports Syscall_Prototypes Api_Server
begin

text \<open>
  How the programs of the repository reach its system calls: the heads of the definitions in
  \<open>kernel/sys.c\<close>, \<open>my_encrypt.c\<close>, \<open>my_decrypt.c\<close> and \<open>my_sys.c\<close>, their comparison with the prototypes of
  \<open>include/linux/syscalls.h\<close>, the entries the three kernels add to
  \<open>arch/x86/entry/syscalls/syscall_64.tbl\<close>, and the calls by number in the programs.
\<close>

subsection \<open>The definitions\<close>

text \<open>Name, number of arguments and the pairs of types and names of each \<open>SYSCALL_DEFINE\<close>.\<close>

type_synonym call_head = "string \<times> nat \<times> c_params"

definition sys_calls :: "call_head list" where
  "sys_calls =
    [(''setpriority'', 3, [(''int'', ''which''), (''int'', ''who''), (''int'', ''niceval'')]),
     (''getpriority'', 2, [(''int'', ''which''), (''int'', ''who'')]),
     (''setregid'', 2, [(''gid_t'', ''rgid''), (''gid_t'', ''egid'')]),
     (''setgid'', 1, [(''gid_t'', ''gid'')]),
     (''setreuid'', 2, [(''uid_t'', ''ruid''), (''uid_t'', ''euid'')]),
     (''setuid'', 1, [(''uid_t'', ''uid'')]),
     (''setresuid'', 3, [(''uid_t'', ''ruid''), (''uid_t'', ''euid''), (''uid_t'', ''suid'')]),
     (''getresuid'', 3, [(''uid_t __user *'', ''ruidp''), (''uid_t __user *'', ''euidp''),
        (''uid_t __user *'', ''suidp'')]),
     (''setresgid'', 3, [(''gid_t'', ''rgid''), (''gid_t'', ''egid''), (''gid_t'', ''sgid'')]),
     (''getresgid'', 3, [(''gid_t __user *'', ''rgidp''), (''gid_t __user *'', ''egidp''),
        (''gid_t __user *'', ''sgidp'')]),
     (''setfsuid'', 1, [(''uid_t'', ''uid'')]),
     (''setfsgid'', 1, [(''gid_t'', ''gid'')]),
     (''getpid'', 0, []),
     (''gettid'', 0, []),
     (''getppid'', 0, []),
     (''getuid'', 0, []),
     (''geteuid'', 0, []),
     (''getgid'', 0, []),
     (''getegid'', 0, []),
     (''times'', 1, [(''struct tms __user *'', ''tbuf'')]),
     (''setpgid'', 2, [(''pid_t'', ''pid''), (''pid_t'', ''pgid'')]),
     (''getpgid'', 1, [(''pid_t'', ''pid'')]),
     (''getpgrp'', 0, []),
     (''getsid'', 1, [(''pid_t'', ''pid'')]),
     (''setsid'', 0, []),
     (''newuname'', 1, [(''struct new_utsname __user *'', ''name'')]),
     (''uname'', 1, [(''struct old_utsname __user *'', ''name'')]),
     (''olduname'', 1, [(''struct oldold_utsname __user *'', ''name'')]),
     (''sethostname'', 2, [(''char __user *'', ''name''), (''int'', ''len'')]),
     (''gethostname'', 2, [(''char __user *'', ''name''), (''int'', ''len'')]),
     (''setdomainname'', 2, [(''char __user *'', ''name''), (''int'', ''len'')]),
     (''getrlimit'', 2, [(''unsigned int'', ''resource''), (''struct rlimit __user *'', ''rlim'')]),
     (''old_getrlimit'', 2, [(''unsigned int'', ''resource''), (''struct rlimit __user *'', ''rlim'')]),
     (''prlimit64'', 4, [(''pid_t'', ''pid''), (''unsigned int'', ''resource''),
        (''const struct rlimit64 __user *'', ''new_rlim''), (''struct rlimit64 __user *'', ''old_rlim'')]),
     (''setrlimit'', 2, [(''unsigned int'', ''resource''), (''struct rlimit __user *'', ''rlim'')]),
     (''getrusage'', 2, [(''int'', ''who''), (''struct rusage __user *'', ''ru'')]),
     (''umask'', 1, [(''int'', ''mask'')]),
     (''prctl'', 5, [(''int'', ''option''), (''unsigned long'', ''arg2''), (''unsigned long'', ''arg3''),
        (''unsigned long'', ''arg4''), (''unsigned long'', ''arg5'')]),
     (''getcpu'', 3, [(''unsigned __user *'', ''cpup''), (''unsigned __user *'', ''nodep''),
        (''struct getcpu_cache __user *'', ''unused'')]),
     (''sysinfo'', 1, [(''struct sysinfo __user *'', ''info'')]),
     (''get_seconds_time'', 0, []),
     (''uptime'', 0, []),
     (''retrieve_last_five_logs'', 2, [(''char __user *'', ''user_log_buffer''), (''size_t'', ''buffer_length'')])]"

definition crypt_calls :: "call_head list" where
  "crypt_calls =
    [(''my_encrypt'', 4, [(''const char __user *'', ''input_filepath''),
        (''const char __user *'', ''output_filepath''), (''const char __user *'', ''key_filepath''),
        (''int'', ''thread_count'')]),
     (''my_decrypt'', 4, [(''const char __user *'', ''input_path''), (''const char __user *'', ''output_path''),
        (''const char __user *'', ''key_path''), (''int'', ''num_threads'')])]"

definition stats_calls :: "call_head list" where
  "stats_calls =
    [(''get_ram_stats'', 1, [(''char __user *'', ''user_buffer'')]),
     (''get_swap_info'', 1, [(''char __user *'', ''user_buffer'')]),
     (''get_page_faults_info'', 1, [(''char __user *'', ''user_buffer'')]),
     (''get_memory_pages_info'', 1, [(''char __user *'', ''user_buffer'')]),
     (''procesos_info'', 2, [(''char __user *'', ''buffer''), (''size_t'', ''size'')])]"

text \<open>The symbol and the entry of a definition with a given body.\<close>

definition define_call :: "nat \<Rightarrow> call_head \<Rightarrow> (int list \<Rightarrow> 's \<Rightarrow> int \<times> 's) \<Rightarrow> 's syscall option" where
  "define_call w h impl =
     (case h of (name, n, ps) \<Rightarrow>
        if n = 0 then Some (SYSCALL_DEFINE0 False name (impl [])) else SYSCALL_DEFINEx w False n (''_'' @ name) ps impl)"

text \<open>All definitions of the repository compile, whether \<open>long\<close> has 32 or 64 bits.\<close>

definition calls :: "call_head list" where
  "calls = sys_calls @ crypt_calls @ stats_calls"

definition head_ok :: "nat \<Rightarrow> call_head \<Rightarrow> bool" where
  "head_ok w h =
     (case h of (name, n, ps) \<Rightarrow>
        (case Option.bind (MAP (\<lambda>t a. c_type_of t) n ps) those of None \<Rightarrow> False | Some ts \<Rightarrow> list_all (sc_test w) ts))"

lemma heads_ok: "list_all (head_ok 32) calls" "list_all (head_ok 64) calls"
  by code_simp+

lemma calls_compile: "h \<in> set calls \<Longrightarrow> w = 32 \<or> w = 64 \<Longrightarrow> \<exists>c. define_call w h impl = Some c"
  using heads_ok
  by (auto simp: list_all_iff head_ok_def define_call_def SYSCALL_DEFINEx_def split: option.splits)

subsection \<open>The prototypes\<close>

text \<open>The types a definition gives its symbol.\<close>

definition defined_types :: "(string \<times> string list) list" where
  "defined_types = map (\<lambda>(name, n, ps). (''sys_'' @ name, map fst (take n ps))) calls"

text \<open>Looking a name up in all prototypes takes three steps: most are in the first two lists.\<close>

definition near_prototypes :: "(string \<times> c_params) list" where
  "near_prototypes = sys_prototypes @ added_prototypes"

definition declared :: "(string \<times> string list) \<Rightarrow> (string \<times> c_params) list \<Rightarrow> bool" where
  "declared d ps \<longleftrightarrow> map_option (map fst) (map_of ps (fst d)) = Some (snd d)"

definition undeclared_calls :: "string list" where
  "undeclared_calls = [''sys_get_seconds_time'', ''sys_uptime'', ''sys_retrieve_last_five_logs'', ''sys_get_ram_stats'',
     ''sys_get_swap_info'', ''sys_get_page_faults_info'', ''sys_get_memory_pages_info'', ''sys_procesos_info'']"

lemma not_declared_1:
  "list_all (\<lambda>p. \<not> List.member undeclared_calls (fst p)) sys_prototypes"
  "list_all (\<lambda>p. \<not> List.member undeclared_calls (fst p)) added_prototypes"
  "list_all (\<lambda>p. \<not> List.member undeclared_calls (fst p)) newer_prototypes"
  by code_simp+

lemma not_declared_2:
  "list_all (\<lambda>p. \<not> List.member undeclared_calls (fst p)) old_prototypes"
  "list_all (\<lambda>p. \<not> List.member undeclared_calls (fst p)) obsolete_prototypes"
  "list_all (\<lambda>p. \<not> List.member undeclared_calls (fst p)) memory_prototypes"
  by code_simp+

lemma not_declared_3:
  "list_all (\<lambda>p. \<not> List.member undeclared_calls (fst p)) signal_prototypes"
  "list_all (\<lambda>p. \<not> List.member undeclared_calls (fst p)) descriptor_prototypes"
  "list_all (\<lambda>p. \<not> List.member undeclared_calls (fst p)) file_prototypes"
  by code_simp+

lemma not_declared: "p \<in> set prototypes \<Longrightarrow> fst p \<notin> set undeclared_calls"
  using not_declared_1 not_declared_2 not_declared_3 by (auto simp: prototypes_def list_all_iff)

definition far_calls :: "(string \<times> string list) list" where
  "far_calls = [(''sys_getpgrp'', []), (''sys_uname'', [''struct old_utsname __user *'']),
     (''sys_olduname'', [''struct oldold_utsname __user *'']), (''sys_gethostname'', [''char __user *'', ''int'']),
     (''sys_old_getrlimit'', [''unsigned int'', ''struct rlimit __user *'']),
     (''sys_prlimit64'', [''pid_t'', ''unsigned int'', ''const struct rlimit64 __user *'', ''struct rlimit64 __user *''])]"

lemma near_calls:
  "list_all (\<lambda>d. declared d near_prototypes \<or> List.member undeclared_calls (fst d) \<or> List.member far_calls d) defined_types"
  by code_simp

lemma far_declared:
  "list_all (\<lambda>d. map_of near_prototypes (fst d) = None
     \<and> declared d (newer_prototypes @ old_prototypes @ obsolete_prototypes)) far_calls"
  by code_simp
lemma declared_iff:
  assumes "d \<in> set defined_types"
  shows "declared d prototypes \<longleftrightarrow> fst d \<notin> set undeclared_calls"
proof -
  let ?far = "newer_prototypes @ old_prototypes @ obsolete_prototypes"
  have all: "map_of prototypes = map_of (memory_prototypes @ signal_prototypes @ descriptor_prototypes @ file_prototypes)
      ++ map_of ?far ++ map_of near_prototypes"
    by (simp add: prototypes_def near_prototypes_def map_add_assoc)
  have listed: "declared d prototypes \<Longrightarrow> fst d \<notin> set undeclared_calls"
    using not_declared by (auto simp: declared_def dest: map_of_SomeD)
  have "declared d near_prototypes \<or> fst d \<in> set undeclared_calls \<or> d \<in> set far_calls"
    using near_calls assms by (auto simp: list_all_iff)
  then consider "declared d near_prototypes" | "fst d \<in> set undeclared_calls"
    | "map_of near_prototypes (fst d) = None" "declared d ?far"
    using far_declared by (auto simp: list_all_iff)
  then show ?thesis
    by cases (use listed in \<open>auto simp: declared_def all map_add_def split: option.splits\<close>)
qed


subsection \<open>The tables and the programs\<close>

text \<open>Number, ABI, name and entry point of the added lines.\<close>

type_synonym table_line = "nat \<times> string \<times> string \<times> string"

definition table_practica1 :: "table_line list" where
  "table_practica1 =
    [(466, ''64'', ''get_seconds_time'', ''sys_get_seconds_time''),
     (467, ''64'', ''uptime'', ''sys_uptime''),
     (468, ''64'', ''retrieve_last_five_logs'', ''sys_retrieve_last_five_logs'')]"

definition table_practica2 :: "table_line list" where
  "table_practica2 = table_practica1 @
    [(551, ''common'', ''my_encrypt'', ''sys_my_encrypt''),
     (552, ''common'', ''my_decrypt'', ''sys_my_decrypt'')]"

definition table_proyecto :: "table_line list" where
  "table_proyecto = table_practica1 @
    [(469, ''64'', ''get_ram_stats'', ''sys_get_ram_stats''),
     (470, ''64'', ''get_swap_info'', ''sys_get_swap_info''),
     (471, ''64'', ''get_page_faults_info'', ''sys_get_page_faults_info''),
     (472, ''64'', ''get_memory_pages_info'', ''sys_get_memory_pages_info''),
     (473, ''64'', ''procesos_info'', ''sys_procesos_info''),
     (551, ''common'', ''my_encrypt'', ''sys_my_encrypt''),
     (552, ''common'', ''my_decrypt'', ''sys_my_decrypt'')]"

definition entry_of :: "table_line list \<Rightarrow> nat \<Rightarrow> string option" where
  "entry_of table nr = map_of (map (\<lambda>(n, abi, name, entry). (n, entry)) table) nr"

definition SYS_uptime :: nat where "SYS_uptime = 467"
definition SYS_get_current_time :: nat where "SYS_get_current_time = 466"
definition SYS_retrieve_last_five_logs :: nat where "SYS_retrieve_last_five_logs = 468"
definition SYS_MY_ENCRYPT :: nat where "SYS_MY_ENCRYPT = 551"
definition SYS_MY_DENCRYPT :: nat where "SYS_MY_DENCRYPT = 552"

text \<open>The table of the kernel a program runs on, the number it passes and the types of its arguments.\<close>

definition llamadas_calls :: "(table_line list \<times> nat \<times> c_type list) list" where
  "llamadas_calls =
    [(table_practica1, SYS_uptime, []), (table_practica1, SYS_get_current_time, []),
     (table_practica1, SYS_retrieve_last_five_logs, [T_ptr, T_int])]"

definition ecrypt_calls :: "(table_line list \<times> nat \<times> c_type list) list" where
  "ecrypt_calls = [(table_practica2, SYS_MY_ENCRYPT, [T_ptr, T_ptr, T_ptr, T_int])]"

definition dencrypt_calls :: "(table_line list \<times> nat \<times> c_type list) list" where
  "dencrypt_calls = [(table_practica2, SYS_MY_DENCRYPT, [T_ptr, T_ptr, T_ptr, T_int])]"

definition server_calls :: "(table_line list \<times> nat \<times> c_type list) list" where
  "server_calls = map (\<lambda>nr. (table_proyecto, nr, [T_ptr, T_ulong]))
     [SYS_get_ram_stats, SYS_get_swap_info, SYS_get_page_faults_info, SYS_get_memory_pages_info, SYS_procesos_info]"

text \<open>
  What a call reaches, and the arguments of the definition that get no register or one of which
  the caller set only a part.
\<close>

definition call_report :: "nat \<Rightarrow> table_line list \<times> nat \<times> c_type list \<Rightarrow> (string \<times> nat list) option" where
  "call_report w call =
     (case call of (table, nr, passed) \<Rightarrow>
        Option.bind (entry_of table nr) (\<lambda>symbol.
        map_option (\<lambda>ts. (symbol, filter (\<lambda>i. \<not> (i < length passed
             \<and> (case c_type_of (ts ! i) of None \<Rightarrow> False | Some t \<Rightarrow> type_bits w t \<le> type_bits w (passed ! i))))
             [0..<length ts]))
          (map_of defined_types symbol)))"


end
